(* ===== verification/VMRay_Prelude.thy ===== *)
theory VMRay_Prelude
  imports Main "HOL-Library.Word" "HOL-Library.AList" "HOL-Library.Multiset"
    "HOL-Library.Sublist"
begin

text \<open>
  The vocabulary shared by every component of the operator: Go's fixed-width integers,
  Go's \<^verbatim>\<open>error\<close> values and the two classifiers the code applies to them, Go maps with
  their unspecified iteration order, outcomes of calls that may panic, and decimal
  printing as done by \<^verbatim>\<open>fmt.Sprintf("%d")\<close>.
\<close>

section \<open>Collections of facts\<close>

named_theorems go_error_simps \<open>how the error classifiers act on each error value\<close>
named_theorems gomap_simps \<open>lookups, keys and sizes of updated Go maps\<close>

section \<open>Machine integers\<close>

text \<open>Go's \<^verbatim>\<open>uint\<close> on the 64-bit targets the operator is built for, \<^verbatim>\<open>uint8\<close> and \<^verbatim>\<open>int32\<close>.\<close>

type_synonym uint = "64 word"
type_synonym uint8 = "8 word"
type_synonym int32 = "32 word"

text \<open>The conversion \<^verbatim>\<open>int32(x)\<close> of a \<^verbatim>\<open>uint\<close> keeps the low 32 bits.\<close>

definition int32_of_uint :: "uint \<Rightarrow> int32" where
  "int32_of_uint x = ucast x"

lemma sint_int32_of_uint_small:
  assumes "unat x < 2 ^ 31"
  shows "sint (int32_of_uint x) = int (unat x)"
proof -
  have u: "Word.uint x = int (unat x)" by simp
  have "int (unat x) < int (2 ^ 31)"
    using assms by (simp only: of_nat_less_iff)
  then have "Word.uint x < 2 ^ 31"
    unfolding u by (simp only: of_nat_power of_nat_numeral)
  then have "signed_take_bit 31 (Word.uint x) = Word.uint x"
    by (simp add: signed_take_bit_int_eq_self_iff order.trans [OF _ unsigned_greater_eq])
  then show ?thesis
    unfolding int32_of_uint_def signed_ucast_eq u by simp
qed

section \<open>Errors\<close>

text \<open>
  A Go \<^verbatim>\<open>error\<close> value is \<^term>\<open>None\<close> for nil and \<^term>\<open>Some e\<close> otherwise. Errors that come
  from the API server are \<^verbatim>\<open>StatusError\<close> values, which carry a reason and a message; errors
  made by \<^verbatim>\<open>errors.New\<close> and \<^verbatim>\<open>fmt.Errorf\<close> carry a message only; \<^verbatim>\<open>errorMissingKey\<close> is the
  struct of \<^verbatim>\<open>vmop/utils/docker_auth.go\<close>.
\<close>

datatype status_reason =
    StatusReasonNotFound
  | StatusReasonAlreadyExists
  | StatusReasonOther string

datatype go_error =
    StatusError status_reason string
  | ErrorString string
  | errorMissingKey string string

definition newErrorMissingKey :: "string \<Rightarrow> string \<Rightarrow> go_error" where
  "newErrorMissingKey sname k = errorMissingKey k sname"

text \<open>The method \<^verbatim>\<open>Error()\<close> of each kind of error.\<close>

fun Error :: "go_error \<Rightarrow> string" where
  "Error (StatusError r msg) = msg"
| "Error (ErrorString msg) = msg"
| "Error (errorMissingKey k sname) =
     ''Failure to authenticate with registry: secret `'' @ sname @ ''` is missing `'' @ k @ ''` key''"

fun IsNotFound :: "go_error \<Rightarrow> bool" where
  "IsNotFound (StatusError r msg) = (r = StatusReasonNotFound)"
| "IsNotFound _ = False"

fun IsAlreadyExists :: "go_error \<Rightarrow> bool" where
  "IsAlreadyExists (StatusError r msg) = (r = StatusReasonAlreadyExists)"
| "IsAlreadyExists _ = False"

text \<open>\<^verbatim>\<open>client.IgnoreNotFound\<close> and \<^verbatim>\<open>client.IgnoreAlreadyExists\<close>: nil on errors of that reason.\<close>

definition IgnoreNotFound :: "go_error \<Rightarrow> go_error option" where
  "IgnoreNotFound e = (if IsNotFound e then None else Some e)"

definition IgnoreAlreadyExists :: "go_error \<Rightarrow> go_error option" where
  "IgnoreAlreadyExists e = (if IsAlreadyExists e then None else Some e)"

lemma IgnoreNotFound_None [simp, go_error_simps]: "IgnoreNotFound e = None \<longleftrightarrow> IsNotFound e"
  by (simp add: IgnoreNotFound_def)

lemma IgnoreNotFound_Some [simp, go_error_simps]:
  "IgnoreNotFound e = Some e' \<longleftrightarrow> \<not> IsNotFound e \<and> e' = e"
  by (auto simp: IgnoreNotFound_def)

lemma IgnoreAlreadyExists_None [simp, go_error_simps]:
  "IgnoreAlreadyExists e = None \<longleftrightarrow> IsAlreadyExists e"
  by (simp add: IgnoreAlreadyExists_def)

lemma IgnoreAlreadyExists_Some [simp, go_error_simps]:
  "IgnoreAlreadyExists e = Some e' \<longleftrightarrow> \<not> IsAlreadyExists e \<and> e' = e"
  by (auto simp: IgnoreAlreadyExists_def)

lemma NotFound_not_AlreadyExists: "IsNotFound e \<Longrightarrow> \<not> IsAlreadyExists e"
  by (cases e) auto

text \<open>A call either returns or panics (nil dereference, write to a nil map).\<close>

datatype 'a outcome = Returns 'a | Panics string

fun returns :: "'a outcome \<Rightarrow> bool" where
  "returns (Returns x) = True"
| "returns (Panics m) = False"

lemma returns_iff: "returns r \<longleftrightarrow> (\<exists>x. r = Returns x)"
  by (cases r) auto

section \<open>Go maps\<close>

text \<open>
  A non-nil Go map with string keys is an association list with distinct keys; a map
  variable that may be nil is an option of one. Reading a nil map finds nothing, deleting
  from it does nothing and ranging over it visits nothing; writing to it panics, so the
  model only writes to maps the code has made.
\<close>

type_synonym 'v gomap = "(string \<times> 'v) list"

definition gomap_wf :: "'v gomap \<Rightarrow> bool" where
  "gomap_wf m \<longleftrightarrow> distinct (map fst m)"

abbreviation gomap_keys :: "'v gomap \<Rightarrow> string set" where
  "gomap_keys m \<equiv> fst ` set m"

definition gomap_set :: "'v gomap \<Rightarrow> string \<Rightarrow> 'v \<Rightarrow> 'v gomap" where
  "gomap_set m k v = AList.update k v m"

definition gomap_delete :: "'v gomap \<Rightarrow> string \<Rightarrow> 'v gomap" where
  "gomap_delete m k = AList.delete k m"

fun entries :: "'v gomap option \<Rightarrow> 'v gomap" where
  "entries None = []"
| "entries (Some m) = m"

lemma gomap_keys_dom: "gomap_keys m = dom (map_of m)"
  by (simp add: dom_map_of_conv_image_fst)

lemma gomap_wf_Nil [simp]: "gomap_wf []"
  by (simp add: gomap_wf_def)

lemma gomap_get_set [gomap_simps, simp]:
  "map_of (gomap_set m k v) = (map_of m)(k \<mapsto> v)"
  by (simp add: gomap_set_def update_conv')

lemma gomap_get_delete [gomap_simps, simp]:
  "map_of (gomap_delete m k) = (map_of m)(k := None)"
  by (simp add: gomap_delete_def delete_conv')

lemma gomap_keys_set [gomap_simps, simp]:
  "gomap_keys (gomap_set m k v) = insert k (gomap_keys m)"
  by (simp add: gomap_keys_dom insert_dom)

lemma gomap_keys_delete [gomap_simps, simp]:
  "gomap_keys (gomap_delete m k) = gomap_keys m - {k}"
  by (simp add: gomap_keys_dom)

lemma gomap_wf_set [simp, intro]: "gomap_wf m \<Longrightarrow> gomap_wf (gomap_set m k v)"
  by (simp add: gomap_wf_def gomap_set_def distinct_update)

lemma gomap_wf_delete [simp, intro]: "gomap_wf m \<Longrightarrow> gomap_wf (gomap_delete m k)"
  by (simp add: gomap_wf_def gomap_delete_def distinct_delete)

lemma gomap_get_None: "map_of m k = None \<longleftrightarrow> k \<notin> gomap_keys m"
  by (simp add: map_of_eq_None_iff)

text \<open>
  \<^verbatim>\<open>for k, v := range m\<close> visits every entry once, in an order the language does not
  specify. The order is an input of the model: a list of choices, each picking one of the
  entries that are left. Every choice gives a permutation of the entries and every
  permutation is some choice, so a theorem over all choices covers all orders.
\<close>

function go_range :: "nat list \<Rightarrow> 'a list \<Rightarrow> 'a list" where
  "go_range cs [] = []"
| "go_range [] (x # xs) = x # go_range [] xs"
| "go_range (c # cs) (x # xs) =
     (let i = c mod length (x # xs)
      in (x # xs) ! i # go_range cs (take i (x # xs) @ drop (Suc i) (x # xs)))"
  by pat_completeness auto
termination
proof (relation "measure (\<lambda>(cs, xs). length xs)", goal_cases)
  case 1
  then show ?case by simp
next
  case 2
  then show ?case by simp
next
  case (3 c cs x xs i)
  then have "i < length (x # xs)" by simp
  then show ?case by simp
qed

lemma mset_take_nth_drop:
  assumes "i < length xs"
  shows "add_mset (xs ! i) (mset (take i xs @ drop (Suc i) xs)) = mset xs"
proof -
  have "mset xs = mset (take i xs @ xs ! i # drop (Suc i) xs)"
    using assms by (simp add: id_take_nth_drop [symmetric])
  then show ?thesis by simp
qed

lemma mset_go_range [simp]: "mset (go_range cs xs) = mset xs"
proof (induction cs xs rule: go_range.induct)
  case (3 c cs x xs)
  let ?i = "c mod length (x # xs)"
  have "?i < length (x # xs)" by simp
  from mset_take_nth_drop [OF this] "3" [OF refl] show ?case
    by (metis go_range.simps(3) mset.simps(2))
qed simp_all

lemma set_go_range [simp]: "set (go_range cs xs) = set xs"
  by (metis mset_go_range set_mset_mset)

lemma length_go_range [simp]: "length (go_range cs xs) = length xs"
  by (metis mset_go_range size_mset)

lemma distinct_go_range [simp]: "distinct (go_range cs xs) = distinct xs"
  by (metis mset_go_range mset_eq_imp_distinct_iff)

lemma distinct_map_go_range [simp]:
  "distinct (map f (go_range cs xs)) = distinct (map f xs)"
  by (metis mset_go_range mset_map mset_eq_imp_distinct_iff)

lemma go_range_surj:
  assumes "mset ys = mset xs"
  shows "\<exists>cs. go_range cs xs = ys"
  using assms
proof (induction ys arbitrary: xs)
  case Nil
  then show ?case by simp
next
  case (Cons y ys)
  then have "y \<in> set xs" by (metis list.set_intros(1) mset_eq_setD)
  then obtain i where i: "i < length xs" and y: "xs ! i = y"
    by (auto simp: in_set_conv_nth)
  let ?zs = "take i xs @ drop (Suc i) xs"
  have "mset ys = mset ?zs"
    using mset_take_nth_drop [OF i] Cons.prems y by (metis add_mset_add_mset_same_iff mset.simps(2))
  then obtain cs where cs: "go_range cs ?zs = ys" using Cons.IH by blast
  from i obtain z zs where "xs = z # zs" by (cases xs) auto
  then have "go_range (i # cs) xs = y # ys" using i y cs by (simp add: Let_def)
  then show ?case by blast
qed

section \<open>Decimal printing\<close>

definition digit_char :: "nat \<Rightarrow> char" where
  "digit_char d = char_of (48 + d)"

fun show_nat :: "nat \<Rightarrow> string" where
  "show_nat n = (if n < 10 then [digit_char n] else show_nat (n div 10) @ [digit_char (n mod 10)])"

declare show_nat.simps [simp del]

text \<open>\<^verbatim>\<open>%d\<close> of a \<^verbatim>\<open>uint\<close> and of an \<^verbatim>\<open>int32\<close>.\<close>

definition show_uint :: "uint \<Rightarrow> string" where
  "show_uint x = show_nat (unat x)"

definition show_int :: "int \<Rightarrow> string" where
  "show_int i = (if i < 0 then CHR ''-'' # show_nat (nat (- i)) else show_nat (nat i))"

definition show_int32 :: "int32 \<Rightarrow> string" where
  "show_int32 x = show_int (sint x)"

text \<open>The number a string of digits denotes, and that printing a number loses nothing.\<close>

fun read_nat :: "nat \<Rightarrow> string \<Rightarrow> nat" where
  "read_nat acc [] = acc"
| "read_nat acc (c # cs) = read_nat (10 * acc + (of_char c - 48)) cs"

lemma read_nat_append: "read_nat acc (s @ t) = read_nat (read_nat acc s) t"
  by (induction s arbitrary: acc) auto

lemma of_char_digit_char: "d < 10 \<Longrightarrow> of_char (digit_char d) = 48 + d"
  by (simp add: digit_char_def)

lemma read_show_nat: "read_nat 0 (show_nat n) = n"
proof (induction n rule: show_nat.induct)
  case (1 n)
  show ?case
  proof (cases "n < 10")
    case True
    then show ?thesis by (simp add: show_nat.simps [of n] of_char_digit_char)
  next
    case False
    with "1" have "read_nat 0 (show_nat (n div 10)) = n div 10" by simp
    with False show ?thesis
      by (simp add: show_nat.simps [of n] read_nat_append of_char_digit_char)
  qed
qed

lemma show_nat_inject: "show_nat m = show_nat n \<longleftrightarrow> m = n"
  by (metis read_show_nat)

lemma show_nat_digits: "c \<in> set (show_nat n) \<Longrightarrow> \<exists>d<10. c = digit_char d"
proof (induction n rule: show_nat.induct)
  case (1 n)
  show ?case
  proof (cases "n < 10")
    case True
    with "1.prems" show ?thesis by (auto simp: show_nat.simps [of n])
  next
    case False
    then have "n mod 10 < 10" by simp
    moreover from False "1.prems" have "c \<in> set (show_nat (n div 10)) \<or> c = digit_char (n mod 10)"
      by (auto simp: show_nat.simps [of n])
    ultimately show ?thesis using "1.IH" [OF False] by blast
  qed
qed

section \<open>Strings\<close>

text \<open>
  Go strings are byte sequences, so \<^typ>\<open>string\<close> fits. \<^verbatim>\<open>strings.Join\<close>, \<^verbatim>\<open>strings.Repeat\<close> of a
  space, and \<^verbatim>\<open>strings.SplitAfter\<close> at newlines, which keeps the separator at the end of each
  piece and always gives at least one piece.
\<close>

definition nl :: char where "nl = CHR 0x0A"

fun strings_Join :: "string list \<Rightarrow> string \<Rightarrow> string" where
  "strings_Join [] sep = ''''"
| "strings_Join [x] sep = x"
| "strings_Join (x # y # xs) sep = x @ sep @ strings_Join (y # xs) sep"

abbreviation join_lines :: "string list \<Rightarrow> string" where
  "join_lines xs \<equiv> strings_Join xs [nl]"

definition strings_Repeat_space :: "int \<Rightarrow> string" where
  "strings_Repeat_space n = replicate (nat n) CHR '' ''"

fun SplitAfter_nl :: "string \<Rightarrow> string list" where
  "SplitAfter_nl [] = ['''']"
| "SplitAfter_nl (c # cs) =
     (if c = nl then [c] # SplitAfter_nl cs
      else (case SplitAfter_nl cs of p # ps \<Rightarrow> (c # p) # ps | [] \<Rightarrow> [[c]]))"

lemma SplitAfter_nl_nonempty [simp]: "SplitAfter_nl s \<noteq> []"
  by (cases s) (auto split: list.splits)

lemma concat_SplitAfter_nl [simp]: "concat (SplitAfter_nl s) = s"
  by (induction s) (auto split: list.splits)

lemma strings_Join_empty_sep [simp]: "strings_Join xs '''' = concat xs"
  by (induction xs "'''' :: string" rule: strings_Join.induct) auto

text \<open>
  A prefix without newlines goes through splitting unchanged: it stays at the front of the
  first piece.
\<close>

lemma SplitAfter_nl_prefix:
  assumes "nl \<notin> set p"
  shows "SplitAfter_nl (p @ s) = (p @ hd (SplitAfter_nl s)) # tl (SplitAfter_nl s)"
  using assms by (induction p) (auto split: list.splits)

end
