(* ===== verification/Api_Types.thy ===== *)
theory Api_Types
  imports VMRay_Prelude
begin

text \<open>
  The custom resource of the operator, \<^verbatim>\<open>api/v1alpha1/vmraycluster_types.go\<close>: the desired
  state a user submits (\<^verbatim>\<open>VMRayClusterSpec\<close>), the observed state the controller writes back
  (\<^verbatim>\<open>VMRayClusterStatus\<close>) and the constants of both. Field names carry a short prefix for
  their struct, since Go structs may share field names. A Go pointer or map that the code
  compares with nil is an option.
\<close>

section \<open>Metadata shared by all objects\<close>

text \<open>The fields of \<^verbatim>\<open>metav1.ObjectMeta\<close> and \<^verbatim>\<open>metav1.Condition\<close> the operator reads or writes.\<close>

record ObjectMeta =
  om_Name :: string
  om_Namespace :: string
  om_Labels :: "string gomap option"
  om_Finalizers :: "string list"
  om_DeletionTimestamp :: "string option"

record Condition =
  cond_Type :: string
  cond_Status :: string
  cond_LastTransitionTime :: string
  cond_Reason :: string
  cond_Message :: string

definition ConditionFalse :: string where
  "ConditionFalse = ''False''"

section \<open>Constants of the API\<close>

definition VMRayClusterConditionHeadNodeReady :: string where
  "VMRayClusterConditionHeadNodeReady = ''HeadNodeReady''"

definition VMRayClusterConditionWorkerNodeReady :: string where
  "VMRayClusterConditionWorkerNodeReady = ''WorkerNodeReady''"

definition VMRayClusterConditionClusterDelete :: string where
  "VMRayClusterConditionClusterDelete = ''DeleteCluster''"

definition NodeConfigInvalidVMI :: string where
  "NodeConfigInvalidVMI = ''InvalidVirtualMachineImage''"

definition NodeConfigInvalidStorageClass :: string where
  "NodeConfigInvalidStorageClass = ''InvalidStorageClass''"

definition NodeConfigInvalidVMClass :: string where
  "NodeConfigInvalidVMClass = ''InvalidVirtualMachineClass''"

definition FailureToDeployNodeReason :: string where
  "FailureToDeployNodeReason = ''FailureToDeployNode''"

definition FailureToDeleteAuxiliaryResourcesReason :: string where
  "FailureToDeleteAuxiliaryResourcesReason = ''FailureToDeleteAuxiliaryResources''"

definition FailureToDeleteHeadNodeReason :: string where
  "FailureToDeleteHeadNodeReason = ''FailureToDeleteHeadNode''"

definition FailureToDeleteWorkerNodeReason :: string where
  "FailureToDeleteWorkerNodeReason = ''FailureToDeleteWorkerNode''"

definition ResourceNotFoundReason :: string where
  "ResourceNotFoundReason = ''ResourceNotFound''"

text \<open>
  \<^verbatim>\<open>VMNodeStatus\<close>, \<^verbatim>\<open>RayProcessStatus\<close> and \<^verbatim>\<open>VMRayClusterState\<close> are Go string types with named
  constants, so any string is a value of them.
\<close>

type_synonym VMNodeStatus = string
type_synonym RayProcessStatus = string
type_synonym VMRayClusterState = string

definition EMPTY :: VMNodeStatus where "EMPTY = ''''"
definition INITIALIZED :: VMNodeStatus where "INITIALIZED = ''initialized''"
definition RUNNING :: VMNodeStatus where "RUNNING = ''running''"
definition FAIL :: VMNodeStatus where "FAIL = ''failure''"

definition RAY_INITIALIZED :: RayProcessStatus where "RAY_INITIALIZED = ''initialized''"
definition RAY_RUNNING :: RayProcessStatus where "RAY_RUNNING = ''running''"
definition RAY_FAIL :: RayProcessStatus where "RAY_FAIL = ''failure''"

definition HEALTHY :: VMRayClusterState where "HEALTHY = ''healthy''"
definition UNHEALTHY :: VMRayClusterState where "UNHEALTHY = ''unhealthy''"

lemmas vm_status_defs = EMPTY_def INITIALIZED_def RUNNING_def FAIL_def
lemmas ray_status_defs = RAY_INITIALIZED_def RAY_RUNNING_def RAY_FAIL_def
lemmas cluster_state_defs = HEALTHY_def UNHEALTHY_def

lemma vm_status_distinct [simp]:
  "EMPTY \<noteq> INITIALIZED" "EMPTY \<noteq> RUNNING" "EMPTY \<noteq> FAIL"
  "INITIALIZED \<noteq> EMPTY" "INITIALIZED \<noteq> RUNNING" "INITIALIZED \<noteq> FAIL"
  "RUNNING \<noteq> EMPTY" "RUNNING \<noteq> INITIALIZED" "RUNNING \<noteq> FAIL"
  "FAIL \<noteq> EMPTY" "FAIL \<noteq> INITIALIZED" "FAIL \<noteq> RUNNING"
  by (simp_all add: vm_status_defs)

lemma ray_status_distinct [simp]:
  "RAY_INITIALIZED \<noteq> RAY_RUNNING" "RAY_INITIALIZED \<noteq> RAY_FAIL"
  "RAY_RUNNING \<noteq> RAY_INITIALIZED" "RAY_RUNNING \<noteq> RAY_FAIL"
  "RAY_FAIL \<noteq> RAY_INITIALIZED" "RAY_FAIL \<noteq> RAY_RUNNING"
  by (simp_all add: ray_status_defs)

lemma cluster_state_distinct [simp]: "HEALTHY \<noteq> UNHEALTHY" "UNHEALTHY \<noteq> HEALTHY"
  by (simp_all add: cluster_state_defs)

section \<open>Desired state\<close>

record ApiServerInfo =
  as_CaCert :: string
  as_Location :: string

record HeadNodeConfig =
  hn_SetupCommands :: "string list"
  hn_Port :: "uint option"
  hn_NodeType :: string

record WorkerNodeConfig =
  wn_SetupCommands :: "string list"

record DockerRegistryConfig =
  dr_AuthSecretName :: string

record NodeResource =
  nr_CPU :: uint8
  nr_Memory :: uint
  nr_GPU :: uint8

record NodeType =
  nt_VMClass :: string
  nt_MinWorkers :: uint
  nt_MaxWorkers :: uint
  nt_Resources :: NodeResource

text \<open>
  The network specification belongs to the VM operator's API and is only handed on to the
  virtual machine; the model carries its serialised form.
\<close>

type_synonym VirtualMachineNetworkSpec = string

record CommonNodeConfig =
  nc_VMImage :: string
  nc_StorageClass :: string
  nc_VMUser :: string
  nc_VMPasswordSaltHash :: string
  nc_Network :: "VirtualMachineNetworkSpec option"
  nc_NodeTypes :: "NodeType gomap"
  nc_MaxWorkers :: uint
  nc_IdleTimeoutMinutes :: uint
  nc_SetupCommands :: "string list"
  nc_InitializationCommands :: "string list"

record VMRayClusterSpec =
  spec_Image :: string
  spec_ApiServer :: ApiServerInfo
  spec_HeadNode :: HeadNodeConfig
  spec_WorkerNode :: WorkerNodeConfig
  spec_NodeConfig :: CommonNodeConfig
  spec_AutoscalerDesiredWorkers :: "string gomap option"
  spec_EnableTLS :: bool
  spec_DockerConfig :: DockerRegistryConfig

section \<open>Observed state\<close>

record VMRayNodeStatus =
  ns_Ip :: string
  ns_Conditions :: "Condition list"
  ns_VmStatus :: VMNodeStatus
  ns_RayStatus :: RayProcessStatus

record VMServiceStatus =
  svc_Ip :: string

record VMRayClusterStatus =
  st_HeadNodeStatus :: VMRayNodeStatus
  st_CurrentWorkers :: "VMRayNodeStatus gomap option"
  st_ClusterState :: VMRayClusterState
  st_Conditions :: "Condition list"
  st_VMServiceStatus :: VMServiceStatus

record VMRayCluster =
  vc_ObjectMeta :: ObjectMeta
  vc_Spec :: VMRayClusterSpec
  vc_Status :: VMRayClusterStatus

text \<open>The zero value \<^verbatim>\<open>VMRayNodeStatus{}\<close>.\<close>

definition zero_VMRayNodeStatus :: VMRayNodeStatus where
  "zero_VMRayNodeStatus = \<lparr>ns_Ip = '''', ns_Conditions = [], ns_VmStatus = EMPTY, ns_RayStatus = ''''\<rparr>"

abbreviation vc_Name :: "VMRayCluster \<Rightarrow> string" where
  "vc_Name c \<equiv> om_Name (vc_ObjectMeta c)"

abbreviation vc_Namespace :: "VMRayCluster \<Rightarrow> string" where
  "vc_Namespace c \<equiv> om_Namespace (vc_ObjectMeta c)"

text \<open>
  A cluster object is well formed when its maps are Go maps, that is when no key occurs
  twice.
\<close>

definition wf_cluster :: "VMRayCluster \<Rightarrow> bool" where
  "wf_cluster c \<longleftrightarrow>
     gomap_wf (nc_NodeTypes (spec_NodeConfig (vc_Spec c))) \<and>
     gomap_wf (entries (spec_AutoscalerDesiredWorkers (vc_Spec c))) \<and>
     gomap_wf (entries (st_CurrentWorkers (vc_Status c))) \<and>
     gomap_wf (entries (om_Labels (vc_ObjectMeta c)))"

end
