(* ===== verification/Go_Runtime.thy ===== *)
theory Go_Runtime
  imports Api_Types
begin

text \<open>
  What a run of the operator takes from Go's runtime and standard library and cannot be
  computed: the order in which a map is ranged over, draws of \<^verbatim>\<open>math/rand\<close>, the clock, and the
  random parts of \<^verbatim>\<open>crypto\<close>. They are operations over the same world as the client's. RSA
  keys are represented by their PKCS#1 encoding.
\<close>

record x509_Certificate =
  x5_SerialNumber :: int
  x5_Organization :: "string list"
  x5_Country :: "string list"
  x5_Province :: "string list"
  x5_Locality :: "string list"
  x5_StreetAddress :: "string list"
  x5_PostalCode :: "string list"
  x5_NotBefore :: string
  x5_NotAfter :: string
  x5_IsCA :: bool
  x5_ExtKeyUsage :: "string list"
  x5_KeyUsage :: "string list"
  x5_BasicConstraintsValid :: bool

record 'w go_runtime =
  rt_range :: "'w \<Rightarrow> nat list \<times> 'w"
  rt_rand :: "'w \<Rightarrow> nat \<times> 'w"
  rt_now :: "'w \<Rightarrow> string \<times> 'w"
  rt_add_date :: "string \<Rightarrow> int \<Rightarrow> int \<Rightarrow> int \<Rightarrow> string"
  rt_rsa_generate :: "nat \<Rightarrow> 'w \<Rightarrow> (go_error + string) \<times> 'w"
  rt_x509_create :: "x509_Certificate \<Rightarrow> string \<Rightarrow> 'w \<Rightarrow> (go_error + string) \<times> 'w"
  rt_pem_encode :: "string \<Rightarrow> string \<Rightarrow> string"

text \<open>\<^verbatim>\<open>rand.Intn(n)\<close> for a positive \<open>n\<close>: a value below \<open>n\<close>.\<close>

definition rand_Intn :: "'w go_runtime \<Rightarrow> nat \<Rightarrow> 'w \<Rightarrow> nat \<times> 'w" where
  "rand_Intn rt n w = (case rt_rand rt w of (x, w') \<Rightarrow> (x mod n, w'))"

lemma rand_Intn_less: "0 < n \<Longrightarrow> rand_Intn rt n w = (x, w') \<Longrightarrow> x < n"
  by (auto simp: rand_Intn_def split: prod.splits)

end
