(* ===== verification/Kube_Client.thy ===== *)
theory Kube_Client
  imports Go_Runtime
begin

text \<open>
  The Kubernetes client the operator calls. The client, the API server behind it and the
  VM operator are not part of the repository: they are a parameter of every definition that
  talks to them, a record of operations over an arbitrary world \<^typ>\<open>'w\<close>. Each
  operation returns what the Go call returns, together with the world after it, so nothing
  is assumed about failures or about what other writers do in between. What the API
  documents about a single kind of object is stated in the locale
  \<^verbatim>\<open>resource_store\<close>, and for all kinds together in \<^verbatim>\<open>kube_api\<close>; both are interpreted on
  an in-memory API server at the end of the theory.
\<close>

section \<open>Objects\<close>

record Secret =
  sec_meta :: ObjectMeta
  sec_Type :: string
  sec_Data :: "string gomap"
  sec_StringData :: "string gomap"

record ServiceAccount =
  sa_meta :: ObjectMeta

record PolicyRule =
  pr_APIGroups :: "string list"
  pr_Resources :: "string list"
  pr_Verbs :: "string list"

record Role =
  role_meta :: ObjectMeta
  role_Rules :: "PolicyRule list"

record RoleRef =
  rr_APIGroup :: string
  rr_Kind :: string
  rr_Name :: string

record Subject =
  sub_Kind :: string
  sub_Name :: string
  sub_Namespace :: string

record RoleBinding =
  rb_meta :: ObjectMeta
  rb_RoleRef :: RoleRef
  rb_Subjects :: "Subject list"

record SecretKeySelector =
  sks_Name :: string
  sks_Key :: string

text \<open>\<^verbatim>\<open>vmopv1.VirtualMachine\<close>: the status network is nil until the VM operator reports one.\<close>

record VirtualMachine =
  vm_meta :: ObjectMeta
  vm_ImageName :: string
  vm_ClassName :: string
  vm_PowerState :: string
  vm_StorageClass :: string
  vm_Network :: "VirtualMachineNetworkSpec option"
  vm_RawCloudConfig :: SecretKeySelector
  vm_StatusNetwork :: "string option"
  vm_StatusConditions :: "Condition list"

record VirtualMachineServicePort =
  sp_Name :: string
  sp_Protocol :: string
  sp_Port :: int32
  sp_TargetPort :: int32

record VirtualMachineService =
  vs_meta :: ObjectMeta
  vs_Selector :: "string gomap"
  vs_Ports :: "VirtualMachineServicePort list"
  vs_Type :: string
  vs_Ingress :: "string list"

text \<open>Images, storage classes and VM classes are only looked up: their metadata suffices. A
  storage class belongs to no namespace, so the server ignores the one in a lookup.\<close>

record NamedObject =
  no_meta :: ObjectMeta

text \<open>The metadata literal \<^verbatim>\<open>metav1.ObjectMeta{Name: name, Namespace: namespace}\<close>.\<close>

definition new_meta :: "string \<Rightarrow> string \<Rightarrow> ObjectMeta" where
  "new_meta ns name = \<lparr>om_Name = name, om_Namespace = ns, om_Labels = None,
     om_Finalizers = [], om_DeletionTimestamp = None\<rparr>"

type_synonym object_key = "string \<times> string"

definition meta_key :: "ObjectMeta \<Rightarrow> object_key" where
  "meta_key m = (om_Namespace m, om_Name m)"

lemma meta_key_new [simp]: "meta_key (new_meta ns name) = (ns, name)"
  by (simp add: meta_key_def new_meta_def)

lemma new_meta_sel [simp]:
  "om_Name (new_meta ns name) = name" "om_Namespace (new_meta ns name) = ns"
  "om_DeletionTimestamp (new_meta ns name) = None"
  by (simp_all add: new_meta_def)

section \<open>The client\<close>

text \<open>
  Get, Create and Delete of one kind. Create decodes the server's answer into its argument and
  returns it here; fields the server does not send back, as the write-only data of a secret,
  keep what the caller put there.
\<close>

record ('w, 'o) resource_api =
  rget :: "string \<Rightarrow> string \<Rightarrow> 'w \<Rightarrow> (go_error + 'o) \<times> 'w"
  rcreate :: "'o \<Rightarrow> 'w \<Rightarrow> (go_error + 'o) \<times> 'w"
  rdelete :: "'o \<Rightarrow> 'w \<Rightarrow> go_error option \<times> 'w"

text \<open>
  The client: one entry per kind the operator uses; \<^verbatim>\<open>Update\<close> and \<^verbatim>\<open>Status().Patch\<close> of the
  cluster resource, which also decode the answer into the object; and the token subresource
  of a service account, given an expiration in seconds.
\<close>

record 'w kube_client =
  kc_secrets :: "('w, Secret) resource_api"
  kc_serviceaccounts :: "('w, ServiceAccount) resource_api"
  kc_roles :: "('w, Role) resource_api"
  kc_rolebindings :: "('w, RoleBinding) resource_api"
  kc_virtualmachines :: "('w, VirtualMachine) resource_api"
  kc_vmservices :: "('w, VirtualMachineService) resource_api"
  kc_vmimages :: "('w, NamedObject) resource_api"
  kc_get_storageclass :: "string \<Rightarrow> string \<Rightarrow> 'w \<Rightarrow> (go_error + NamedObject) \<times> 'w"
  kc_vmclasses :: "('w, NamedObject) resource_api"
  kc_get_cluster :: "string \<Rightarrow> string \<Rightarrow> 'w \<Rightarrow> (go_error + VMRayCluster) \<times> 'w"
  kc_update_cluster :: "VMRayCluster \<Rightarrow> 'w \<Rightarrow> (go_error + VMRayCluster) \<times> 'w"
  kc_patch_status :: "VMRayCluster \<Rightarrow> VMRayCluster \<Rightarrow> 'w \<Rightarrow> (go_error + VMRayCluster) \<times> 'w"
  kc_create_token :: "string \<Rightarrow> string \<Rightarrow> int \<Rightarrow> 'w \<Rightarrow> (go_error + string) \<times> 'w"

section \<open>Decoding an answer into an object\<close>

text \<open>
  \<^verbatim>\<open>encoding/json\<close> as \<^verbatim>\<open>Update\<close> uses it: the answer is decoded into the object that was sent. All
  fields of the status are tagged \<^verbatim>\<open>omitempty\<close>, so an empty string or slice and an empty map are
  absent from the answer, and what the object held there stays; a present string or slice
  replaces it, the fields of a struct are decoded one by one, and a present map is merged
  into the object's, key by key.
\<close>

definition json_onto :: "'a list \<Rightarrow> 'a list \<Rightarrow> 'a list" where
  "json_onto stored local = (if stored = [] then local else stored)"

definition json_map_onto :: "'v gomap option \<Rightarrow> 'v gomap option \<Rightarrow> 'v gomap option" where
  "json_map_onto stored local =
     (if entries stored = [] then local
      else Some (entries stored @ filter (\<lambda>(k, _). k \<notin> gomap_keys (entries stored)) (entries local)))"

definition decode_node :: "VMRayNodeStatus \<Rightarrow> VMRayNodeStatus \<Rightarrow> VMRayNodeStatus" where
  "decode_node stored local =
     \<lparr>ns_Ip = json_onto (ns_Ip stored) (ns_Ip local), ns_Conditions = json_onto (ns_Conditions stored) (ns_Conditions local),
      ns_VmStatus = json_onto (ns_VmStatus stored) (ns_VmStatus local),
      ns_RayStatus = json_onto (ns_RayStatus stored) (ns_RayStatus local)\<rparr>"

definition decode_status :: "VMRayClusterStatus \<Rightarrow> VMRayClusterStatus \<Rightarrow> VMRayClusterStatus" where
  "decode_status stored local =
     \<lparr>st_HeadNodeStatus = decode_node (st_HeadNodeStatus stored) (st_HeadNodeStatus local),
      st_CurrentWorkers = json_map_onto (st_CurrentWorkers stored) (st_CurrentWorkers local),
      st_ClusterState = json_onto (st_ClusterState stored) (st_ClusterState local),
      st_Conditions = json_onto (st_Conditions stored) (st_Conditions local),
      st_VMServiceStatus = \<lparr>svc_Ip = json_onto (svc_Ip (st_VMServiceStatus stored)) (svc_Ip (st_VMServiceStatus local))\<rparr>\<rparr>"

lemma json_onto_same [simp]: "json_onto x x = x" "json_onto x [] = x"
  by (simp_all add: json_onto_def)

lemma json_map_onto_same [simp]: "json_map_onto m m = m"
proof (cases "entries m = []")
  case False
  have "filter (\<lambda>(k, _). k \<notin> gomap_keys (entries m)) (entries m) = []" by (force simp: filter_empty_conv)
  with False show ?thesis by (cases m) (simp_all add: json_map_onto_def)
qed (simp add: json_map_onto_def)

lemma decode_node_same [simp]: "decode_node s s = s"
  by (cases s) (simp add: decode_node_def)

lemma decode_status_nodes [simp]:
  "st_HeadNodeStatus s = st_HeadNodeStatus t \<Longrightarrow> st_HeadNodeStatus (decode_status s t) = st_HeadNodeStatus t"
  "st_CurrentWorkers s = st_CurrentWorkers t \<Longrightarrow> st_CurrentWorkers (decode_status s t) = st_CurrentWorkers t"
  "st_VMServiceStatus s = st_VMServiceStatus t \<Longrightarrow> st_VMServiceStatus (decode_status s t) = st_VMServiceStatus t"
  by (simp_all add: decode_status_def)

lemma decode_status_report:
  "decode_status s (s\<lparr>st_Conditions := cs, st_ClusterState := x\<rparr>) =
   s\<lparr>st_Conditions := json_onto (st_Conditions s) cs, st_ClusterState := json_onto (st_ClusterState s) x\<rparr>"
  by (cases s; cases "st_HeadNodeStatus s"; cases "st_VMServiceStatus s") (simp add: decode_status_def decode_node_def)

section \<open>What the API promises\<close>

text \<open>
  The contents of the API server, by kind. The laws below are those of a run without
  concurrent writers: a read finds what is stored and changes nothing, a write that
  succeeds changes exactly its object, and a write that fails changes at most its object.
  Deleting an object removes it or, if a finalizer holds it, stamps it for deletion.
\<close>

record api_store =
  sto_secrets :: "object_key \<rightharpoonup> Secret"
  sto_serviceaccounts :: "object_key \<rightharpoonup> ServiceAccount"
  sto_roles :: "object_key \<rightharpoonup> Role"
  sto_rolebindings :: "object_key \<rightharpoonup> RoleBinding"
  sto_virtualmachines :: "object_key \<rightharpoonup> VirtualMachine"
  sto_vmservices :: "object_key \<rightharpoonup> VirtualMachineService"
  sto_vmimages :: "object_key \<rightharpoonup> NamedObject"
  sto_storageclasses :: "string \<rightharpoonup> NamedObject"
  sto_vmclasses :: "object_key \<rightharpoonup> NamedObject"
  sto_clusters :: "object_key \<rightharpoonup> VMRayCluster"

definition gone :: "('o \<Rightarrow> ObjectMeta) \<Rightarrow> (object_key \<rightharpoonup> 'o) \<Rightarrow> object_key \<Rightarrow> bool" where
  "gone meta m k \<longleftrightarrow> (case m k of None \<Rightarrow> True | Some x \<Rightarrow> om_DeletionTimestamp (meta x) \<noteq> None)"

lemma gone_upd_other [simp]: "k \<noteq> k' \<Longrightarrow> gone meta (m(k' := x)) k = gone meta m k"
  by (simp add: gone_def)

text \<open>What a deletion may leave at a key: nothing, or an object stamped for deletion.\<close>

definition terminated :: "('o \<Rightarrow> ObjectMeta) \<Rightarrow> 'o option \<Rightarrow> bool" where
  "terminated meta z \<longleftrightarrow> (case z of None \<Rightarrow> True | Some x \<Rightarrow> om_DeletionTimestamp (meta x) \<noteq> None)"

lemma terminated_None [simp]: "terminated meta None"
  by (simp add: terminated_def)

lemma gone_terminated: "gone meta m k \<longleftrightarrow> terminated meta (m k)"
  by (simp add: gone_def terminated_def)

text \<open>
  The two ways the operator uses a kind, as combinators: delete an object if it is there,
  and create one if it is missing.
\<close>

definition delete_if_exists ::
  "('w, 'o) resource_api \<Rightarrow> string \<Rightarrow> string \<Rightarrow> 'w \<Rightarrow> go_error option \<times> 'w" where
  "delete_if_exists api ns n w =
     (case rget api ns n w of
        (Inl e, w1) \<Rightarrow> (IgnoreNotFound e, w1)
      | (Inr x, w1) \<Rightarrow> rdelete api x w1)"

definition get_or_create ::
  "('w, 'o) resource_api \<Rightarrow> string \<Rightarrow> string \<Rightarrow> 'o \<Rightarrow> 'w \<Rightarrow> go_error option \<times> 'w" where
  "get_or_create api ns n x w =
     (case rget api ns n w of
        (Inr y, w1) \<Rightarrow> (None, w1)
      | (Inl e, w1) \<Rightarrow>
          (if IsNotFound e
           then (case rcreate api x w1 of (Inl e', w2) \<Rightarrow> (Some e', w2) | (Inr y, w2) \<Rightarrow> (None, w2))
           else (Some e, w1)))"

locale resource_store =
  fixes api :: "('w, 'o) resource_api"
    and meta :: "'o \<Rightarrow> ObjectMeta"
    and admit :: "'o \<Rightarrow> 'o"
    and store :: "'w \<Rightarrow> 's"
    and sel :: "'s \<Rightarrow> object_key \<rightharpoonup> 'o"
    and put :: "(object_key \<rightharpoonup> 'o) \<Rightarrow> 's \<Rightarrow> 's"
  assumes sel_put: "sel (put m s) = m"
    and put_sel: "put (sel s) s = s"
    and get_found: "rget api ns n w = (Inr x, w') \<Longrightarrow>
      sel (store w) (ns, n) = Some x \<and> meta_key (meta x) = (ns, n) \<and> store w' = store w"
    and get_error: "rget api ns n w = (Inl e, w') \<Longrightarrow>
      store w' = store w \<and> (IsNotFound e \<longrightarrow> sel (store w) (ns, n) = None)"
    and create_ok: "rcreate api x w = (Inr y, w') \<Longrightarrow>
      meta y = meta x \<and> store w' = put ((sel (store w))(meta_key (meta x) \<mapsto> admit x)) (store w)"
    and create_error: "rcreate api x w = (Inl e, w') \<Longrightarrow>
      \<exists>z. store w' = put ((sel (store w))(meta_key (meta x) := z)) (store w)"
    and create_exists: "rcreate api x w = (Inl e, w') \<Longrightarrow> IsAlreadyExists e \<Longrightarrow>
      store w' = store w \<and> sel (store w) (meta_key (meta x)) \<noteq> None"
    and delete_ok: "rdelete api x w = (None, w') \<Longrightarrow>
      \<exists>z. store w' = put ((sel (store w))(meta_key (meta x) := z)) (store w) \<and> terminated meta z"
    and delete_error: "rdelete api x w = (Some e, w') \<Longrightarrow>
      \<exists>z. store w' = put ((sel (store w))(meta_key (meta x) := z)) (store w) \<and>
        (terminated meta z \<or> z = sel (store w) (meta_key (meta x)))"
    and delete_missing: "rdelete api x w = (Some e, w') \<Longrightarrow> IsNotFound e \<Longrightarrow>
      sel (store w) (meta_key (meta x)) = None"
    and admit_meta: "meta (admit x) = meta x"
begin

text \<open>
  Looking an object up and deleting it when it is there: however it ends, only that object
  can have changed; if it returns nil, the object is gone.
\<close>

lemma delete_if_exists_post:
  assumes "delete_if_exists api ns n w = (r, w')"
  shows "\<exists>z. store w' = put ((sel (store w))((ns, n) := z)) (store w) \<and>
    (r = None \<longrightarrow> terminated meta z) \<and> (terminated meta z \<or> z = sel (store w) (ns, n))"
proof (cases "rget api ns n w")
  case (Pair g w1)
  show ?thesis
  proof (cases g)
    case (Inl e)
    with Pair assms have r: "r = IgnoreNotFound e" and w': "w' = w1"
      by (simp_all add: delete_if_exists_def)
    from get_error Pair Inl have s: "store w1 = store w"
      and nf: "IsNotFound e \<longrightarrow> sel (store w) (ns, n) = None" by auto
    have "store w' = put ((sel (store w))((ns, n) := sel (store w) (ns, n))) (store w)"
      by (simp add: w' s put_sel)
    moreover have "r = None \<longrightarrow> terminated meta (sel (store w) (ns, n))"
      using r nf by simp
    ultimately show ?thesis by blast
  next
    case (Inr x)
    with Pair assms have d: "rdelete api x w1 = (r, w')" by (simp add: delete_if_exists_def)
    from get_found Pair Inr have k: "meta_key (meta x) = (ns, n)" and s: "store w1 = store w"
      by auto
    show ?thesis
    proof (cases r)
      case None
      with delete_ok [OF d [unfolded None]] k s show ?thesis by auto
    next
      case (Some e)
      with delete_error [OF d [unfolded Some]] k s show ?thesis by auto
    qed
  qed
qed

lemma delete_if_exists_error:
  assumes "delete_if_exists api ns n w = (Some e, w')"
  shows "\<not> IsNotFound e"
proof (cases "rget api ns n w")
  case (Pair g w1)
  show ?thesis
  proof (cases g)
    case (Inl e')
    with Pair assms have "IgnoreNotFound e' = Some e" by (simp add: delete_if_exists_def)
    then show ?thesis by (cases "IsNotFound e'") (auto simp: IgnoreNotFound_def)
  next
    case (Inr x)
    with Pair assms get_found [of ns n w x w1] delete_missing [of x w1 e w'] show ?thesis
      by (auto simp: delete_if_exists_def)
  qed
qed

text \<open>
  Looking an object up and creating it when it is missing: only that object can have
  changed; if it returns nil, the object that was there, or the one asked for, is there.
\<close>

lemma get_or_create_post:
  assumes "get_or_create api ns n x w = (r, w')" and "meta_key (meta x) = (ns, n)"
  shows "\<exists>z. store w' = put ((sel (store w))((ns, n) := z)) (store w) \<and>
    (r = None \<longrightarrow> z = (case sel (store w) (ns, n) of None \<Rightarrow> Some (admit x) | Some y \<Rightarrow> Some y))"
proof (cases "rget api ns n w")
  case (Pair g w1)
  show ?thesis
  proof (cases g)
    case (Inr y)
    with Pair assms get_found [of ns n w y w1] have "r = None" "w' = w1"
      "sel (store w) (ns, n) = Some y" "store w1 = store w"
      by (simp_all add: get_or_create_def)
    then show ?thesis by (metis fun_upd_triv option.simps(5) put_sel)
  next
    case (Inl e)
    note s = get_error [of ns n w e w1]
    show ?thesis
    proof (cases "IsNotFound e")
      case False
      with Inl Pair assms s have "r = Some e" "store w' = store w"
        by (simp_all add: get_or_create_def)
      then show ?thesis by (metis fun_upd_triv option.distinct(1) put_sel)
    next
      case True
      with Inl Pair s have none: "sel (store w) (ns, n) = None" and s1: "store w1 = store w"
        by simp_all
      show ?thesis
      proof (cases "rcreate api x w1")
        case (Pair c w2)
        show ?thesis
        proof (cases c)
          case (Inl e')
          with True \<open>g = Inl e\<close> Pair \<open>rget api ns n w = (g, w1)\<close> assms(1)
          have "r = Some e'" "w' = w2" by (simp_all add: get_or_create_def)
          with create_error [of x w1 e' w2] Pair Inl assms(2) s1 show ?thesis by auto
        next
          case (Inr y)
          with True \<open>g = Inl e\<close> Pair \<open>rget api ns n w = (g, w1)\<close> assms(1)
          have "r = None" "w' = w2" by (simp_all add: get_or_create_def)
          with create_ok [of x w1 y w2] Pair Inr assms(2) s1 none show ?thesis by auto
        qed
      qed
    qed
  qed
qed

end

text \<open>A server that does what it is asked whenever it can.\<close>

locale reliable_store = resource_store +
  assumes get_present: "sel (store w) (ns, n) = Some x \<Longrightarrow> \<exists>w'. rget api ns n w = (Inr x, w')"
    and get_absent: "sel (store w) (ns, n) = None \<Longrightarrow>
      \<exists>e w'. rget api ns n w = (Inl e, w') \<and> IsNotFound e"
    and create_absent: "sel (store w) (meta_key (meta x)) = None \<Longrightarrow>
      \<exists>y w'. rcreate api x w = (Inr y, w')"
    and delete_present: "sel (store w) (meta_key (meta x)) \<noteq> None \<Longrightarrow>
      \<exists>w'. rdelete api x w = (None, w')"
begin

lemma delete_if_exists_succeeds: "\<exists>w'. delete_if_exists api ns n w = (None, w')"
proof (cases "sel (store w) (ns, n)")
  case None
  with get_absent obtain e w1 where "rget api ns n w = (Inl e, w1)" "IsNotFound e" by blast
  then show ?thesis by (simp add: delete_if_exists_def)
next
  case (Some x)
  with get_present obtain w1 where g: "rget api ns n w = (Inr x, w1)" by blast
  with get_found Some have "sel (store w1) (meta_key (meta x)) \<noteq> None" by fastforce
  with delete_present obtain w2 where "rdelete api x w1 = (None, w2)" by blast
  with g show ?thesis by (simp add: delete_if_exists_def)
qed

lemma get_or_create_succeeds:
  assumes "meta_key (meta x) = (ns, n)"
  shows "\<exists>w'. get_or_create api ns n x w = (None, w')"
proof (cases "sel (store w) (ns, n)")
  case None
  with get_absent obtain e w1 where g: "rget api ns n w = (Inl e, w1)" "IsNotFound e" by blast
  with get_error None assms have "sel (store w1) (meta_key (meta x)) = None" by fastforce
  with create_absent obtain y w2 where "rcreate api x w1 = (Inr y, w2)" by blast
  with g show ?thesis by (simp add: get_or_create_def)
next
  case (Some y)
  with get_present obtain w1 where "rget api ns n w = (Inr y, w1)" by blast
  then show ?thesis by (simp add: get_or_create_def)
qed

end

text \<open>
  The server merges the write-only \<^verbatim>\<open>StringData\<close> of a secret into its \<^verbatim>\<open>Data\<close> and defaults its
  type; the VM operator's webhooks may fill in fields of a machine or a service.
\<close>

fun merge_data :: "string gomap \<Rightarrow> string gomap \<Rightarrow> string gomap" where
  "merge_data d [] = d"
| "merge_data d ((k, v) # kvs) = merge_data (gomap_set d k v) kvs"

definition admit_secret :: "Secret \<Rightarrow> Secret" where
  "admit_secret s = s\<lparr>sec_Type := (if sec_Type s = [] then ''Opaque'' else sec_Type s),
     sec_Data := merge_data (sec_Data s) (sec_StringData s), sec_StringData := []\<rparr>"

lemma admit_secret_meta [simp]: "sec_meta (admit_secret s) = sec_meta s"
  by (simp add: admit_secret_def)

text \<open>All kinds together, over one store, and the cluster resource itself.\<close>

locale kube_api =
  secrets: resource_store "kc_secrets kc" sec_meta admit_secret store
    sto_secrets "\<lambda>m. sto_secrets_update (\<lambda>_. m)" +
  serviceaccounts: resource_store "kc_serviceaccounts kc" sa_meta id store
    sto_serviceaccounts "\<lambda>m. sto_serviceaccounts_update (\<lambda>_. m)" +
  roles: resource_store "kc_roles kc" role_meta id store
    sto_roles "\<lambda>m. sto_roles_update (\<lambda>_. m)" +
  rolebindings: resource_store "kc_rolebindings kc" rb_meta id store
    sto_rolebindings "\<lambda>m. sto_rolebindings_update (\<lambda>_. m)" +
  virtualmachines: resource_store "kc_virtualmachines kc" vm_meta vm_admit store
    sto_virtualmachines "\<lambda>m. sto_virtualmachines_update (\<lambda>_. m)" +
  vmservices: resource_store "kc_vmservices kc" vs_meta vs_admit store
    sto_vmservices "\<lambda>m. sto_vmservices_update (\<lambda>_. m)" +
  vmimages: resource_store "kc_vmimages kc" no_meta id store
    sto_vmimages "\<lambda>m. sto_vmimages_update (\<lambda>_. m)" +
  vmclasses: resource_store "kc_vmclasses kc" no_meta id store
    sto_vmclasses "\<lambda>m. sto_vmclasses_update (\<lambda>_. m)"
  for kc :: "'w kube_client"
    and store :: "'w \<Rightarrow> api_store"
    and vm_admit :: "VirtualMachine \<Rightarrow> VirtualMachine"
    and vs_admit :: "VirtualMachineService \<Rightarrow> VirtualMachineService" +
  assumes get_cluster_found: "kc_get_cluster kc ns n w = (Inr c, w') \<Longrightarrow>
      sto_clusters (store w) (ns, n) = Some c \<and> meta_key (vc_ObjectMeta c) = (ns, n) \<and>
      store w' = store w"
    and get_cluster_error: "kc_get_cluster kc ns n w = (Inl e, w') \<Longrightarrow> store w' = store w"
    and update_cluster_ok: "kc_update_cluster kc c w = (Inr c', w') \<Longrightarrow>
      \<exists>old. sto_clusters (store w) (meta_key (vc_ObjectMeta c)) = Some old \<and>
        c' = c\<lparr>vc_Status := decode_status (vc_Status old) (vc_Status c)\<rparr> \<and>
        store w' = (store w)\<lparr>sto_clusters := (sto_clusters (store w))(meta_key (vc_ObjectMeta c) :=
          (if om_DeletionTimestamp (vc_ObjectMeta c) \<noteq> None \<and> om_Finalizers (vc_ObjectMeta c) = []
           then None else Some (c\<lparr>vc_Status := vc_Status old\<rparr>)))\<rparr>"
    and update_cluster_error: "kc_update_cluster kc c w = (Inl e, w') \<Longrightarrow> store w' = store w"
    and patch_status_ok: "kc_patch_status kc orig c w = (Inr c', w') \<Longrightarrow>
      \<exists>old. sto_clusters (store w) (meta_key (vc_ObjectMeta c)) = Some old \<and>
        (vc_Status old = vc_Status orig \<longrightarrow> store w' = (store w)
          \<lparr>sto_clusters := (sto_clusters (store w))(meta_key (vc_ObjectMeta c) \<mapsto> old\<lparr>vc_Status := vc_Status c\<rparr>)\<rparr>)"
    and patch_status_error: "kc_patch_status kc orig c w = (Inl e, w') \<Longrightarrow> store w' = store w"
    and get_storageclass_found: "kc_get_storageclass kc ns n w = (Inr x, w') \<Longrightarrow>
      sto_storageclasses (store w) n = Some x \<and> store w' = store w"
    and get_storageclass_error: "kc_get_storageclass kc ns n w = (Inl e, w') \<Longrightarrow>
      store w' = store w \<and> (IsNotFound e \<longrightarrow> sto_storageclasses (store w) n = None)"
    and create_token_store: "kc_create_token kc ns n secs w = (r, w') \<Longrightarrow> store w' = store w"

text \<open>The client together with the Go runtime, whose operations leave the server alone.\<close>

locale operator_env = kube_api kc store vm_admit vs_admit
  for kc :: "'w kube_client"
    and store :: "'w \<Rightarrow> api_store"
    and vm_admit :: "VirtualMachine \<Rightarrow> VirtualMachine"
    and vs_admit :: "VirtualMachineService \<Rightarrow> VirtualMachineService" +
  fixes rt :: "'w go_runtime"
  assumes range_store: "rt_range rt w = (cs, w') \<Longrightarrow> store w' = store w"
    and rand_store: "rt_rand rt w = (x, w') \<Longrightarrow> store w' = store w"
    and now_store: "rt_now rt w = (t, w') \<Longrightarrow> store w' = store w"
    and rsa_store: "rt_rsa_generate rt bits w = (r, w') \<Longrightarrow> store w' = store w"
    and x509_store: "rt_x509_create rt c k w = (r, w') \<Longrightarrow> store w' = store w"

text \<open>An environment without faults: the server is reliable and \<^verbatim>\<open>crypto\<close> does not fail.\<close>

locale reliable_env = operator_env kc store vm_admit vs_admit rt +
  rsecrets: reliable_store "kc_secrets kc" sec_meta admit_secret store
    sto_secrets "\<lambda>m. sto_secrets_update (\<lambda>_. m)" +
  rserviceaccounts: reliable_store "kc_serviceaccounts kc" sa_meta id store
    sto_serviceaccounts "\<lambda>m. sto_serviceaccounts_update (\<lambda>_. m)" +
  rroles: reliable_store "kc_roles kc" role_meta id store
    sto_roles "\<lambda>m. sto_roles_update (\<lambda>_. m)" +
  rrolebindings: reliable_store "kc_rolebindings kc" rb_meta id store
    sto_rolebindings "\<lambda>m. sto_rolebindings_update (\<lambda>_. m)" +
  rvirtualmachines: reliable_store "kc_virtualmachines kc" vm_meta vm_admit store
    sto_virtualmachines "\<lambda>m. sto_virtualmachines_update (\<lambda>_. m)" +
  rvmservices: reliable_store "kc_vmservices kc" vs_meta vs_admit store
    sto_vmservices "\<lambda>m. sto_vmservices_update (\<lambda>_. m)"
  for kc :: "'w kube_client"
    and store :: "'w \<Rightarrow> api_store"
    and vm_admit :: "VirtualMachine \<Rightarrow> VirtualMachine"
    and vs_admit :: "VirtualMachineService \<Rightarrow> VirtualMachineService"
    and rt :: "'w go_runtime" +
  assumes token_succeeds: "sto_serviceaccounts (store w) (ns, n) \<noteq> None \<Longrightarrow>
      \<exists>t w'. kc_create_token kc ns n secs w = (Inr t, w')"
    and get_cluster_present: "sto_clusters (store w) (ns, n) = Some c \<Longrightarrow>
      \<exists>w'. kc_get_cluster kc ns n w = (Inr c, w')"
    and update_cluster_present: "sto_clusters (store w) (meta_key (vc_ObjectMeta c)) = Some old \<Longrightarrow>
      vc_Spec c = vc_Spec old \<Longrightarrow> \<exists>c' w'. kc_update_cluster kc c w = (Inr c', w')"
    and rsa_succeeds: "\<exists>k w'. rt_rsa_generate rt bits w = (Inr k, w')"
    and x509_succeeds: "\<exists>c w'. rt_x509_create rt cert key w = (Inr c, w')"

section \<open>An in-memory API server\<close>

text \<open>
  A concrete client: a server that never fails on its own, keeps its objects in maps,
  answers a missing object with "not found" and a taken name with "already exists", and
  holds a deleted object back while it has finalizers. An entry counts only under the key
  its metadata names.
\<close>

record mem_world =
  mw_store :: api_store
  mw_choices :: "nat list"
  mw_clock :: nat

definition keyed :: "('o \<Rightarrow> ObjectMeta) \<Rightarrow> (object_key \<rightharpoonup> 'o) \<Rightarrow> object_key \<rightharpoonup> 'o" where
  "keyed meta m k = (case m k of None \<Rightarrow> None | Some x \<Rightarrow> if meta_key (meta x) = k then Some x else None)"

lemma keyed_key: "keyed meta m k = Some x \<Longrightarrow> meta_key (meta x) = k"
  by (auto simp: keyed_def split: option.splits if_splits)

lemma keyed_idem [simp]: "keyed meta (keyed meta m) = keyed meta m"
  by (rule ext) (auto simp: keyed_def split: option.splits)

lemma keyed_upd_Some [simp]:
  "meta_key (meta x) = k \<Longrightarrow> keyed meta (m(k \<mapsto> x)) = (keyed meta m)(k \<mapsto> x)"
  by (rule ext) (auto simp: keyed_def split: option.splits)

lemma keyed_upd_None [simp]: "keyed meta (m(k := None)) = (keyed meta m)(k := None)"
  by (rule ext) (auto simp: keyed_def split: option.splits)

definition mem_store :: "mem_world \<Rightarrow> api_store" where
  "mem_store w = (let s = mw_store w in
     \<lparr>sto_secrets = keyed sec_meta (sto_secrets s),
      sto_serviceaccounts = keyed sa_meta (sto_serviceaccounts s),
      sto_roles = keyed role_meta (sto_roles s),
      sto_rolebindings = keyed rb_meta (sto_rolebindings s),
      sto_virtualmachines = keyed vm_meta (sto_virtualmachines s),
      sto_vmservices = keyed vs_meta (sto_vmservices s),
      sto_vmimages = keyed no_meta (sto_vmimages s),
      sto_storageclasses = sto_storageclasses s,
      sto_vmclasses = keyed no_meta (sto_vmclasses s),
      sto_clusters = keyed vc_ObjectMeta (sto_clusters s)\<rparr>)"

definition not_found :: "string \<Rightarrow> go_error" where
  "not_found n = StatusError StatusReasonNotFound (n @ '' not found'')"

definition already_exists :: "string \<Rightarrow> go_error" where
  "already_exists n = StatusError StatusReasonAlreadyExists (n @ '' already exists'')"

lemma mem_error_class [simp]:
  "IsNotFound (not_found n)" "\<not> IsAlreadyExists (not_found n)"
  "IsAlreadyExists (already_exists n)" "\<not> IsNotFound (already_exists n)"
  by (simp_all add: not_found_def already_exists_def)

definition mem_api ::
  "('o \<Rightarrow> ObjectMeta) \<Rightarrow> ((ObjectMeta \<Rightarrow> ObjectMeta) \<Rightarrow> 'o \<Rightarrow> 'o) \<Rightarrow> ('o \<Rightarrow> 'o) \<Rightarrow>
   (api_store \<Rightarrow> object_key \<rightharpoonup> 'o) \<Rightarrow> ((object_key \<rightharpoonup> 'o) \<Rightarrow> api_store \<Rightarrow> api_store) \<Rightarrow>
   (mem_world, 'o) resource_api" where
  "mem_api meta meta_upd admit sel put =
     \<lparr>rget = (\<lambda>ns n w.
        ((case sel (mem_store w) (ns, n) of None \<Rightarrow> Inl (not_found n) | Some x \<Rightarrow> Inr x), w)),
      rcreate = (\<lambda>x w.
        (case sel (mem_store w) (meta_key (meta x)) of
           Some _ \<Rightarrow> (Inl (already_exists (om_Name (meta x))), w)
         | None \<Rightarrow> (Inr (admit x),
             w\<lparr>mw_store := put ((sel (mem_store w))(meta_key (meta x) \<mapsto> admit x)) (mem_store w)\<rparr>))),
      rdelete = (\<lambda>x w.
        (case sel (mem_store w) (meta_key (meta x)) of
           None \<Rightarrow> (Some (not_found (om_Name (meta x))), w)
         | Some y \<Rightarrow> (None,
             w\<lparr>mw_store := put ((sel (mem_store w))(meta_key (meta x) :=
                 (if om_Finalizers (meta y) = [] then None
                  else Some (meta_upd (om_DeletionTimestamp_update (\<lambda>_. Some (show_nat (mw_clock w)))) y))))
               (mem_store w)\<rparr>)))\<rparr>"

definition mem_client :: "mem_world kube_client" where
  "mem_client =
     \<lparr>kc_secrets = mem_api sec_meta sec_meta_update admit_secret sto_secrets (\<lambda>m. sto_secrets_update (\<lambda>_. m)),
      kc_serviceaccounts = mem_api sa_meta sa_meta_update id sto_serviceaccounts (\<lambda>m. sto_serviceaccounts_update (\<lambda>_. m)),
      kc_roles = mem_api role_meta role_meta_update id sto_roles (\<lambda>m. sto_roles_update (\<lambda>_. m)),
      kc_rolebindings = mem_api rb_meta rb_meta_update id sto_rolebindings (\<lambda>m. sto_rolebindings_update (\<lambda>_. m)),
      kc_virtualmachines = mem_api vm_meta vm_meta_update id sto_virtualmachines (\<lambda>m. sto_virtualmachines_update (\<lambda>_. m)),
      kc_vmservices = mem_api vs_meta vs_meta_update id sto_vmservices (\<lambda>m. sto_vmservices_update (\<lambda>_. m)),
      kc_vmimages = mem_api no_meta no_meta_update id sto_vmimages (\<lambda>m. sto_vmimages_update (\<lambda>_. m)),
      kc_get_storageclass = (\<lambda>ns n w.
        ((case sto_storageclasses (mem_store w) n of None \<Rightarrow> Inl (not_found n) | Some x \<Rightarrow> Inr x), w)),
      kc_vmclasses = mem_api no_meta no_meta_update id sto_vmclasses (\<lambda>m. sto_vmclasses_update (\<lambda>_. m)),
      kc_get_cluster = (\<lambda>ns n w.
        ((case sto_clusters (mem_store w) (ns, n) of None \<Rightarrow> Inl (not_found n) | Some c \<Rightarrow> Inr c), w)),
      kc_update_cluster = (\<lambda>c w. let k = meta_key (vc_ObjectMeta c) in
        (case sto_clusters (mem_store w) k of
           None \<Rightarrow> (Inl (not_found (vc_Name c)), w)
         | Some old \<Rightarrow> let c' = c\<lparr>vc_Status := vc_Status old\<rparr> in
             (Inr (c\<lparr>vc_Status := decode_status (vc_Status old) (vc_Status c)\<rparr>), w\<lparr>mw_store := (mem_store w)\<lparr>sto_clusters := (sto_clusters (mem_store w))(k :=
               (if om_DeletionTimestamp (vc_ObjectMeta c) \<noteq> None \<and> om_Finalizers (vc_ObjectMeta c) = []
                then None else Some c'))\<rparr>\<rparr>))),
      kc_patch_status = (\<lambda>orig c w. let k = meta_key (vc_ObjectMeta c) in
        (case sto_clusters (mem_store w) k of
           None \<Rightarrow> (Inl (not_found (vc_Name c)), w)
         | Some old \<Rightarrow> let c' = old\<lparr>vc_Status := vc_Status c\<rparr> in
             (Inr c', w\<lparr>mw_store := (mem_store w)\<lparr>sto_clusters := (sto_clusters (mem_store w))(k \<mapsto> c')\<rparr>\<rparr>))),
      kc_create_token = (\<lambda>ns n secs w.
        (case sto_serviceaccounts (mem_store w) (ns, n) of
           None \<Rightarrow> (Inl (not_found n), w)
         | Some _ \<Rightarrow> (Inr (''token-'' @ n), w)))\<rparr>"

lemma mem_store_idem [simp]: "mem_store (w\<lparr>mw_store := mem_store w'\<rparr>) = mem_store w'"
  by (simp add: mem_store_def Let_def)

lemma mem_store_clusters [simp]:
  "meta_key (vc_ObjectMeta c) = k \<Longrightarrow>
   mem_store (w\<lparr>mw_store := (mem_store w')\<lparr>sto_clusters := (sto_clusters (mem_store w'))(k \<mapsto> c)\<rparr>\<rparr>) =
   (mem_store w')\<lparr>sto_clusters := (sto_clusters (mem_store w'))(k \<mapsto> c)\<rparr>"
  "mem_store (w\<lparr>mw_store := (mem_store w')\<lparr>sto_clusters := (sto_clusters (mem_store w'))(k := None)\<rparr>\<rparr>) =
   (mem_store w')\<lparr>sto_clusters := (sto_clusters (mem_store w'))(k := None)\<rparr>"
  by (simp_all add: mem_store_def Let_def)

lemma mem_cluster_key: "sto_clusters (mem_store w) k = Some c \<Longrightarrow> meta_key (vc_ObjectMeta c) = k"
  by (simp add: mem_store_def Let_def keyed_key)

definition mem_runtime :: "mem_world go_runtime" where
  "mem_runtime =
     \<lparr>rt_range = (\<lambda>w. (mw_choices w, w)),
      rt_rand = (\<lambda>w. (mw_clock w, w\<lparr>mw_clock := Suc (mw_clock w)\<rparr>)),
      rt_now = (\<lambda>w. (show_nat (mw_clock w), w)),
      rt_add_date = (\<lambda>t y m d. t @ ''+'' @ show_int y @ ''y''),
      rt_rsa_generate = (\<lambda>bits w. (Inr (''rsa-'' @ show_nat bits), w\<lparr>mw_clock := Suc (mw_clock w)\<rparr>)),
      rt_x509_create = (\<lambda>c k w. (Inr (''cert-of-'' @ k), w)),
      rt_pem_encode = (\<lambda>ty b. ''BEGIN '' @ ty @ '' '' @ b)\<rparr>"

lemma mem_store_clock [simp]: "mem_store (w\<lparr>mw_clock := n\<rparr>) = mem_store w"
  by (simp add: mem_store_def)

lemma mem_resource_store:
  assumes sel_put: "\<And>m s. sel (put m s) = m" and put_sel: "\<And>s. put (sel s) s = s"
    and keyed_sel: "\<And>w k x. sel (mem_store w) k = Some x \<Longrightarrow> meta_key (meta x) = k"
    and norm_Some: "\<And>w w' k x. meta_key (meta x) = k \<Longrightarrow>
      mem_store (w\<lparr>mw_store := put ((sel (mem_store w'))(k \<mapsto> x)) (mem_store w')\<rparr>) =
      put ((sel (mem_store w'))(k \<mapsto> x)) (mem_store w')"
    and norm_None: "\<And>w w' k.
      mem_store (w\<lparr>mw_store := put ((sel (mem_store w'))(k := None)) (mem_store w')\<rparr>) =
      put ((sel (mem_store w'))(k := None)) (mem_store w')"
    and meta_upd: "\<And>f x. meta (meta_upd f x) = f (meta x)"
    and admit: "\<And>x. meta (admit x) = meta x"
  shows "resource_store (mem_api meta meta_upd admit sel put) meta admit mem_store sel put"
proof (unfold_locales, goal_cases)
  case (1 m s)
  show ?case by (rule sel_put)
next
  case (2 s)
  show ?case by (rule put_sel)
next
  case (3 ns n w x w')
  then show ?case by (auto simp: mem_api_def keyed_sel split: option.splits)
next
  case (4 ns n w e w')
  then show ?case by (auto simp: mem_api_def split: option.splits)
next
  case (5 x w y w')
  then show ?case
    by (auto simp: mem_api_def admit split: option.splits intro!: norm_Some)
next
  case (6 x w e w')
  then have "w' = w" by (auto simp: mem_api_def split: option.splits)
  then show ?case by (metis fun_upd_triv put_sel)
next
  case (7 x w e w')
  then show ?case by (auto simp: mem_api_def split: option.splits)
next
  case (8 x w w')
  let ?k = "meta_key (meta x)"
  from 8 obtain y where y: "sel (mem_store w) ?k = Some y"
    by (auto simp: mem_api_def split: option.splits)
  then have ky: "meta_key (meta y) = ?k" by (rule keyed_sel)
  show ?case
  proof (cases "om_Finalizers (meta y) = []")
    case True
    with 8 y show ?thesis
      by (auto simp: mem_api_def norm_None intro!: exI [of _ None])
  next
    case False
    let ?z = "meta_upd (om_DeletionTimestamp_update (\<lambda>_. Some (show_nat (mw_clock w)))) y"
    have "meta_key (meta ?z) = ?k" using ky by (simp add: meta_upd meta_key_def)
    with False 8 y show ?thesis
      by (auto simp: mem_api_def norm_Some terminated_def meta_upd intro!: exI [of _ "Some ?z"])
  qed
next
  case (9 x w e w')
  then have "w' = w" by (auto simp: mem_api_def split: option.splits if_splits)
  then show ?case by (intro exI [of _ "sel (mem_store w) (meta_key (meta x))"]) (simp add: put_sel)
next
  case (10 x w e w')
  then show ?case by (auto simp: mem_api_def split: option.splits)
next
  case (11 x)
  show ?case by (rule admit)
qed

lemma mem_reliable_store:
  assumes "resource_store (mem_api meta meta_upd admit sel put) meta admit mem_store sel put"
  shows "reliable_store (mem_api meta meta_upd admit sel put) meta admit mem_store sel put"
proof (intro reliable_store.intro assms reliable_store_axioms.intro, goal_cases)
  case (1 w ns n x)
  then show ?case by (simp add: mem_api_def)
next
  case (2 w ns n)
  then show ?case by (simp add: mem_api_def)
next
  case (3 w x)
  then show ?case by (simp add: mem_api_def)
next
  case (4 w x)
  then show ?case by (auto simp: mem_api_def)
qed

lemma mem_client_sel [simp]:
  "kc_secrets mem_client = mem_api sec_meta sec_meta_update admit_secret sto_secrets (\<lambda>m. sto_secrets_update (\<lambda>_. m))"
  "kc_serviceaccounts mem_client = mem_api sa_meta sa_meta_update id sto_serviceaccounts (\<lambda>m. sto_serviceaccounts_update (\<lambda>_. m))"
  "kc_roles mem_client = mem_api role_meta role_meta_update id sto_roles (\<lambda>m. sto_roles_update (\<lambda>_. m))"
  "kc_rolebindings mem_client = mem_api rb_meta rb_meta_update id sto_rolebindings (\<lambda>m. sto_rolebindings_update (\<lambda>_. m))"
  "kc_virtualmachines mem_client = mem_api vm_meta vm_meta_update id sto_virtualmachines (\<lambda>m. sto_virtualmachines_update (\<lambda>_. m))"
  "kc_vmservices mem_client = mem_api vs_meta vs_meta_update id sto_vmservices (\<lambda>m. sto_vmservices_update (\<lambda>_. m))"
  "kc_vmimages mem_client = mem_api no_meta no_meta_update id sto_vmimages (\<lambda>m. sto_vmimages_update (\<lambda>_. m))"
  "kc_vmclasses mem_client = mem_api no_meta no_meta_update id sto_vmclasses (\<lambda>m. sto_vmclasses_update (\<lambda>_. m))"
  by (simp_all add: mem_client_def)

lemma mem_kube_api: "kube_api mem_client mem_store id id"
proof (intro kube_api.intro kube_api_axioms.intro, goal_cases)
  case (9 ns n w c w')
  then show ?case by (auto simp: mem_client_def mem_cluster_key split: option.splits)
next
  case (10 ns n w e w')
  then show ?case by (auto simp: mem_client_def split: option.splits)
next
  case (11 c w c' w')
  then show ?case by (auto simp: mem_client_def Let_def split: option.splits)
next
  case (12 c w e w')
  then show ?case by (auto simp: mem_client_def Let_def split: option.splits)
next
  case (13 orig c w c' w')
  then show ?case by (auto simp: mem_client_def Let_def mem_cluster_key split: option.splits)
next
  case (14 orig c w e w')
  then show ?case by (auto simp: mem_client_def Let_def split: option.splits)
next
  case (15 ns n w x w')
  then show ?case by (auto simp: mem_client_def split: option.splits)
next
  case (16 ns n w e w')
  then show ?case by (auto simp: mem_client_def split: option.splits)
next
  case (17 ns n secs w r w')
  then show ?case by (auto simp: mem_client_def split: option.splits)
qed (unfold mem_client_sel; rule mem_resource_store; simp add: mem_store_def Let_def keyed_key)+

interpretation mem: kube_api mem_client mem_store id id
  by (rule mem_kube_api)

lemma mem_operator_env: "operator_env mem_client mem_store id id mem_runtime"
  by (intro operator_env.intro mem_kube_api operator_env_axioms.intro) (auto simp: mem_runtime_def)

interpretation mem: operator_env mem_client mem_store id id mem_runtime
  by (rule mem_operator_env)

lemma mem_reliable_env: "reliable_env mem_client mem_store id id mem_runtime"
proof (intro reliable_env.intro mem_operator_env reliable_env_axioms.intro, goal_cases)
  case (7 w ns n secs)
  then show ?case by (auto simp: mem_client_def)
next
  case (8 w ns n c)
  then show ?case by (simp add: mem_client_def)
next
  case (9 w c old)
  then show ?case by (simp add: mem_client_def Let_def)
next
  case (10 bits w)
  then show ?case by (simp add: mem_runtime_def)
next
  case (11 cert k w)
  then show ?case by (simp add: mem_runtime_def)
qed (unfold mem_client_sel; rule mem_reliable_store; fold mem_client_sel;
     rule mem.secrets.resource_store_axioms mem.serviceaccounts.resource_store_axioms
       mem.roles.resource_store_axioms mem.rolebindings.resource_store_axioms
       mem.virtualmachines.resource_store_axioms mem.vmservices.resource_store_axioms)+

interpretation mem: reliable_env mem_client mem_store id id mem_runtime
  by (rule mem_reliable_env)

end
