(* ===== verification/Vm_Provider.thy ===== *)
theory Vm_Provider
  imports Kube_Client
begin

text \<open>
  The interface between the controller and whatever deploys machines,
  \<^verbatim>\<open>pkg/provider/vm.go\<close>: the deployment request, the five methods of \<^verbatim>\<open>VmProvider\<close>, and the
  name of a cluster's head machine. The locale \<^verbatim>\<open>vm_provider\<close> states what the controller
  relies on; \<^verbatim>\<open>Vmop_Provider\<close> shows that the provider built on the VM operator keeps it.
\<close>

section \<open>Requests\<close>

definition headsuffix :: string where "headsuffix = ''-h''"

definition RayClusterRequestorLabel :: string where
  "RayClusterRequestorLabel = ''vmray.io/created-by''"

definition RayClusterRequestorRayCLI :: string where
  "RayClusterRequestorRayCLI = ''ray-cli''"

datatype RayClusterRequestor = RayCLI | K8S

definition IsRayCli :: "RayClusterRequestor \<Rightarrow> bool" where
  "IsRayCli r \<longleftrightarrow> r = RayCLI"

record VmDeploymentRequest =
  vdr_ClusterName :: string
  vdr_DockerImage :: string
  vdr_Namespace :: string
  vdr_Nounce :: string
  vdr_VmName :: string
  vdr_NodeType :: string
  vdr_ApiServer :: ApiServerInfo
  vdr_EnableTLS :: bool
  vdr_HeadNodeConfig :: HeadNodeConfig
  vdr_WorkerNodeConfig :: WorkerNodeConfig
  vdr_NodeConfig :: CommonNodeConfig
  vdr_DockerConfig :: DockerRegistryConfig
  vdr_HeadNodeStatus :: "VMRayNodeStatus option"
  vdr_RayClusterRequestor :: RayClusterRequestor
  vdr_VmService :: string

abbreviation vdr_key :: "VmDeploymentRequest \<Rightarrow> object_key" where
  "vdr_key req \<equiv> (vdr_Namespace req, vdr_VmName req)"

section \<open>The provider\<close>

text \<open>
  A value of the Go interface: its methods, over a world. A Go call with several results
  gives a tuple; \<^verbatim>\<open>FetchVmStatus\<close> returns a pointer, which may be nil.
\<close>

record 'w VmProvider =
  pv_Deploy :: "VmDeploymentRequest \<Rightarrow> 'w \<Rightarrow> go_error option \<times> 'w"
  pv_DeployVmService :: "VmDeploymentRequest \<Rightarrow> 'w \<Rightarrow> (string \<times> go_error option) \<times> 'w"
  pv_Delete :: "string \<Rightarrow> string \<Rightarrow> 'w \<Rightarrow> go_error option \<times> 'w"
  pv_FetchVmStatus :: "string \<Rightarrow> string \<Rightarrow> 'w \<Rightarrow> (VMRayNodeStatus option \<times> go_error option) \<times> 'w"
  pv_DeleteAuxiliaryResources :: "string \<Rightarrow> string \<Rightarrow> 'w \<Rightarrow> go_error option \<times> 'w"

text \<open>
  The contract, over the set of machines that exist and are not being deleted: a
  successful deployment adds its machine, a successful deletion removes its machine, no
  call touches the machine of another name, and fetching a status neither changes anything
  nor returns nil without an error.
\<close>

locale vm_provider =
  fixes pv :: "'w VmProvider"
    and vms :: "'w \<Rightarrow> object_key set"
  assumes deploy_ok: "pv_Deploy pv req w = (None, w') \<Longrightarrow> vms w' = insert (vdr_key req) (vms w)"
    and deploy_error: "pv_Deploy pv req w = (Some e, w') \<Longrightarrow>
      vms w' - {vdr_key req} = vms w - {vdr_key req}"
    and deploy_service: "pv_DeployVmService pv req w = (sr, w') \<Longrightarrow> vms w' = vms w"
    and delete_ok: "pv_Delete pv ns n w = (None, w') \<Longrightarrow> vms w' = vms w - {(ns, n)}"
    and delete_error: "pv_Delete pv ns n w = (Some e, w') \<Longrightarrow>
      vms w' = vms w \<or> vms w' = vms w - {(ns, n)}"
    and fetch_frame: "pv_FetchVmStatus pv ns n w = (fr, w') \<Longrightarrow> vms w' = vms w"
    and fetch_ok: "pv_FetchVmStatus pv ns n w = ((st, None), w') \<Longrightarrow> st \<noteq> None"
    and fetch_not_found: "pv_FetchVmStatus pv ns n w = ((st, Some e), w') \<Longrightarrow> IsNotFound e \<Longrightarrow>
      (ns, n) \<notin> vms w"
    and delete_aux: "pv_DeleteAuxiliaryResources pv ns c w = (r, w') \<Longrightarrow> vms w' = vms w"
begin

lemma delete_frame:
  assumes "pv_Delete pv ns n w = (r, w')"
  shows "vms w' - {(ns, n)} = vms w - {(ns, n)} \<and> vms w' \<subseteq> vms w"
  using assms by (cases r) (auto dest!: delete_ok delete_error)

lemma deploy_frame:
  assumes "pv_Deploy pv req w = (r, w')"
  shows "vms w' - {vdr_key req} = vms w - {vdr_key req}"
  using assms deploy_error by (cases r) (auto dest: deploy_ok)

end

section \<open>Names\<close>

definition GetHeadNodeName :: "string \<Rightarrow> string \<Rightarrow> string" where
  "GetHeadNodeName clustername nounce =
     (let res = clustername @ headsuffix
      in if length nounce > 0 then res @ ''-'' @ nounce else res)"

lemma split_at_last:
  assumes "xs @ c # ys = xs' @ c # ys'" and "c \<notin> set ys" and "c \<notin> set ys'"
  shows "xs = xs' \<and> ys = ys'"
proof -
  from assms(1) have "rev ys @ c # rev xs = rev ys' @ c # rev xs'"
    by (metis append.assoc append_Cons append_Nil rev.simps(2) rev_append)
  moreover have "takeWhile (\<lambda>d. d \<noteq> c) (rev zs @ c # us) = rev zs" if "c \<notin> set zs" for zs us
    using that by (subst takeWhile_append2) auto
  ultimately show ?thesis using assms(2,3)
    by (metis append_same_eq list.inject rev_is_rev_conv same_append_eq)
qed

text \<open>
  C37: two clusters never share a head machine name, as long as their nounces are not empty
  and contain no hyphen, which is what the controller generates: the name determines both
  the cluster and the nounce.
\<close>

theorem GetHeadNodeName_inject:
  assumes "n \<noteq> ''''" and "m \<noteq> ''''" and "CHR ''-'' \<notin> set n" and "CHR ''-'' \<notin> set m"
  shows "GetHeadNodeName c n = GetHeadNodeName d m \<longleftrightarrow> c = d \<and> n = m"
proof
  assume "GetHeadNodeName c n = GetHeadNodeName d m"
  then have "(c @ ''-h'') @ CHR ''-'' # n = (d @ ''-h'') @ CHR ''-'' # m"
    using assms(1,2) by (simp add: GetHeadNodeName_def headsuffix_def)
  from split_at_last [OF this assms(3,4)] show "c = d \<and> n = m" by simp
qed simp

theorem GetHeadNodeName_inject_witness:
  "(GetHeadNodeName ''ray'' ''ab1cd'' = GetHeadNodeName ''ray-h'' ''ab1cd'') =
   (''ray'' = ''ray-h'' \<and> ''ab1cd'' = ''ab1cd'')"
  by (rule GetHeadNodeName_inject) simp_all

end
