(* ===== verification/Mock_Provider.thy ===== *)
theory Mock_Provider
  imports Vm_Provider
begin

text \<open>
  The provider the unit tests use, \<^verbatim>\<open>pkg/provider/mock/mock_vmprovider.go\<close>: it numbers the
  calls of each method from 1, records what every call was given and answers with the
  response set for that number. It is an implementation of the \<^verbatim>\<open>VmProvider\<close> interface whose
  world is the mock itself. The Go maps with integer keys are maps from \<^typ>\<open>int\<close>; where Go
  returns the zero value for a call that was never made, the accessors of the recorded
  requests return \<^const>\<open>None\<close>.
\<close>

record MockNamedNamespaceRequest =
  mnr_Namespace :: string
  mnr_Name :: string

record mockFetchVmStatusResponse =
  mfr_Status :: "VMRayNodeStatus option"
  mfr_Error :: "go_error option"

record mockDeployVmServiceResponse =
  mdr_Ip :: string
  mdr_Error :: "go_error option"

record MockVmProvider =
  deployFuncResponse :: "int \<rightharpoonup> go_error option"
  deployFuncRequest :: "int \<rightharpoonup> VmDeploymentRequest"
  deployFuncCallCount :: int
  deleteFuncResponse :: "int \<rightharpoonup> go_error option"
  deleteFuncRequest :: "int \<rightharpoonup> MockNamedNamespaceRequest"
  deleteFuncCallCount :: int
  fetchVmStatusFuncResponse :: "int \<rightharpoonup> mockFetchVmStatusResponse"
  fetchVmStatusFuncRequest :: "int \<rightharpoonup> MockNamedNamespaceRequest"
  fetchVmStatusFuncCallCount :: int
  deleteAuxiliaryResourcesFuncResponse :: "int \<rightharpoonup> go_error option"
  deleteAuxiliaryResourcesFuncRequest :: "int \<rightharpoonup> MockNamedNamespaceRequest"
  deleteAuxiliaryResourcesFuncCallCount :: int
  deployVmServiceFuncResponse :: "int \<rightharpoonup> mockDeployVmServiceResponse"
  deployVmServiceFuncRequest :: "int \<rightharpoonup> VmDeploymentRequest"
  deployVmServiceFuncCallCount :: int

definition NewMockVmProvider :: MockVmProvider where
  "NewMockVmProvider =
     \<lparr>deployFuncResponse = Map.empty, deployFuncRequest = Map.empty, deployFuncCallCount = 0,
      deleteFuncResponse = Map.empty, deleteFuncRequest = Map.empty, deleteFuncCallCount = 0,
      fetchVmStatusFuncResponse = Map.empty, fetchVmStatusFuncRequest = Map.empty,
      fetchVmStatusFuncCallCount = 0,
      deleteAuxiliaryResourcesFuncResponse = Map.empty,
      deleteAuxiliaryResourcesFuncRequest = Map.empty, deleteAuxiliaryResourcesFuncCallCount = 0,
      deployVmServiceFuncResponse = Map.empty, deployVmServiceFuncRequest = Map.empty,
      deployVmServiceFuncCallCount = 0\<rparr>"

section \<open>The methods of the interface\<close>

definition no_response :: "string \<Rightarrow> go_error" where
  "no_response f = ErrorString (''no response set for function `'' @ f @ ''`'')"

definition mock_Deploy :: "VmDeploymentRequest \<Rightarrow> MockVmProvider \<Rightarrow> go_error option \<times> MockVmProvider" where
  "mock_Deploy req m =
     (let n = deployFuncCallCount m + 1;
          m' = m\<lparr>deployFuncCallCount := n, deployFuncRequest := (deployFuncRequest m)(n \<mapsto> req)\<rparr>
      in (case deployFuncResponse m' n of Some err \<Rightarrow> err | None \<Rightarrow> Some (no_response ''Deploy''), m'))"

definition mock_Delete :: "string \<Rightarrow> string \<Rightarrow> MockVmProvider \<Rightarrow> go_error option \<times> MockVmProvider" where
  "mock_Delete ns name m =
     (let n = deleteFuncCallCount m + 1;
          m' = m\<lparr>deleteFuncCallCount := n,
                 deleteFuncRequest := (deleteFuncRequest m)(n \<mapsto> \<lparr>mnr_Namespace = ns, mnr_Name = name\<rparr>)\<rparr>
      in (case deleteFuncResponse m' n of Some err \<Rightarrow> err | None \<Rightarrow> Some (no_response ''Delete''), m'))"

definition mock_FetchVmStatus ::
  "string \<Rightarrow> string \<Rightarrow> MockVmProvider \<Rightarrow> (VMRayNodeStatus option \<times> go_error option) \<times> MockVmProvider" where
  "mock_FetchVmStatus ns name m =
     (let n = fetchVmStatusFuncCallCount m + 1;
          m' = m\<lparr>fetchVmStatusFuncCallCount := n,
                 fetchVmStatusFuncRequest :=
                   (fetchVmStatusFuncRequest m)(n \<mapsto> \<lparr>mnr_Namespace = ns, mnr_Name = name\<rparr>)\<rparr>
      in (case fetchVmStatusFuncResponse m' n of
            Some resp \<Rightarrow> (mfr_Status resp, mfr_Error resp)
          | None \<Rightarrow> (None, Some (no_response ''FetchVmStatus'')), m'))"

definition mock_DeleteAuxiliaryResources ::
  "string \<Rightarrow> string \<Rightarrow> MockVmProvider \<Rightarrow> go_error option \<times> MockVmProvider" where
  "mock_DeleteAuxiliaryResources ns clustername m =
     (let n = deleteAuxiliaryResourcesFuncCallCount m + 1;
          m' = m\<lparr>deleteAuxiliaryResourcesFuncCallCount := n,
                 deleteAuxiliaryResourcesFuncRequest :=
                   (deleteAuxiliaryResourcesFuncRequest m)(n \<mapsto> \<lparr>mnr_Namespace = ns, mnr_Name = clustername\<rparr>)\<rparr>
      in (case deleteAuxiliaryResourcesFuncResponse m' n of
            Some err \<Rightarrow> err | None \<Rightarrow> Some (no_response ''DeleteAuxiliaryResources''), m'))"

definition mock_DeployVmService ::
  "VmDeploymentRequest \<Rightarrow> MockVmProvider \<Rightarrow> (string \<times> go_error option) \<times> MockVmProvider" where
  "mock_DeployVmService req m =
     (let n = deployVmServiceFuncCallCount m + 1;
          m' = m\<lparr>deployVmServiceFuncCallCount := n,
                 deployVmServiceFuncRequest := (deployVmServiceFuncRequest m)(n \<mapsto> req)\<rparr>
      in (case deployVmServiceFuncResponse m' n of
            Some resp \<Rightarrow> (mdr_Ip resp, mdr_Error resp)
          | None \<Rightarrow> ('''', Some (no_response ''DeployVmService'')), m'))"

definition mock_provider :: "MockVmProvider VmProvider" where
  "mock_provider =
     \<lparr>pv_Deploy = mock_Deploy, pv_DeployVmService = mock_DeployVmService, pv_Delete = mock_Delete,
      pv_FetchVmStatus = mock_FetchVmStatus,
      pv_DeleteAuxiliaryResources = mock_DeleteAuxiliaryResources\<rparr>"

section \<open>Setting responses and reading requests\<close>

definition DeploySetResponse :: "int \<Rightarrow> go_error option \<Rightarrow> MockVmProvider \<Rightarrow> MockVmProvider" where
  "DeploySetResponse n err m = m\<lparr>deployFuncResponse := (deployFuncResponse m)(n \<mapsto> err)\<rparr>"

definition DeployGetRequest :: "int \<Rightarrow> MockVmProvider \<Rightarrow> VmDeploymentRequest option" where
  "DeployGetRequest n m = deployFuncRequest m n"

definition DeleteSetResponse :: "int \<Rightarrow> go_error option \<Rightarrow> MockVmProvider \<Rightarrow> MockVmProvider" where
  "DeleteSetResponse n err m = m\<lparr>deleteFuncResponse := (deleteFuncResponse m)(n \<mapsto> err)\<rparr>"

definition DeleteGetRequest :: "int \<Rightarrow> MockVmProvider \<Rightarrow> MockNamedNamespaceRequest option" where
  "DeleteGetRequest n m = deleteFuncRequest m n"

definition FetchVmStatusSetResponse ::
  "int \<Rightarrow> VMRayNodeStatus option \<Rightarrow> go_error option \<Rightarrow> MockVmProvider \<Rightarrow> MockVmProvider" where
  "FetchVmStatusSetResponse n st err m =
     m\<lparr>fetchVmStatusFuncResponse :=
         (fetchVmStatusFuncResponse m)(n \<mapsto> \<lparr>mfr_Status = st, mfr_Error = err\<rparr>)\<rparr>"

definition FetchVmStatusGetRequest :: "int \<Rightarrow> MockVmProvider \<Rightarrow> MockNamedNamespaceRequest option" where
  "FetchVmStatusGetRequest n m = fetchVmStatusFuncRequest m n"

definition DeleteAuxiliaryResourcesSetResponse ::
  "int \<Rightarrow> go_error option \<Rightarrow> MockVmProvider \<Rightarrow> MockVmProvider" where
  "DeleteAuxiliaryResourcesSetResponse n err m =
     m\<lparr>deleteAuxiliaryResourcesFuncResponse := (deleteAuxiliaryResourcesFuncResponse m)(n \<mapsto> err)\<rparr>"

definition DeleteAuxiliaryResourcesGetRequest ::
  "int \<Rightarrow> MockVmProvider \<Rightarrow> MockNamedNamespaceRequest option" where
  "DeleteAuxiliaryResourcesGetRequest n m = deleteAuxiliaryResourcesFuncRequest m n"

definition DeployVmServiceSetResponse ::
  "int \<Rightarrow> string \<Rightarrow> go_error option \<Rightarrow> MockVmProvider \<Rightarrow> MockVmProvider" where
  "DeployVmServiceSetResponse n ip err m =
     m\<lparr>deployVmServiceFuncResponse :=
         (deployVmServiceFuncResponse m)(n \<mapsto> \<lparr>mdr_Ip = ip, mdr_Error = err\<rparr>)\<rparr>"

text \<open>Unlike its siblings this one hands back the response, not the recorded request.\<close>

definition DeployVmServiceGetRequest :: "int \<Rightarrow> MockVmProvider \<Rightarrow> string \<times> go_error option" where
  "DeployVmServiceGetRequest n m =
     (case deployVmServiceFuncResponse m n of
        Some resp \<Rightarrow> (mdr_Ip resp, mdr_Error resp) | None \<Rightarrow> ('''', None))"

lemmas mock_call_defs = mock_Deploy_def mock_Delete_def mock_FetchVmStatus_def
  mock_DeleteAuxiliaryResources_def mock_DeployVmService_def
lemmas mock_set_defs = DeploySetResponse_def DeleteSetResponse_def FetchVmStatusSetResponse_def
  DeleteAuxiliaryResourcesSetResponse_def DeployVmServiceSetResponse_def
lemmas mock_get_defs = DeployGetRequest_def DeleteGetRequest_def FetchVmStatusGetRequest_def
  DeleteAuxiliaryResourcesGetRequest_def DeployVmServiceGetRequest_def

lemma mock_provider_sel [simp]:
  "pv_Deploy mock_provider = mock_Deploy"
  "pv_DeployVmService mock_provider = mock_DeployVmService"
  "pv_Delete mock_provider = mock_Delete"
  "pv_FetchVmStatus mock_provider = mock_FetchVmStatus"
  "pv_DeleteAuxiliaryResources mock_provider = mock_DeleteAuxiliaryResources"
  by (simp_all add: mock_provider_def)

end
