(* ===== verification/Node_Lcm.thy ===== *)
theory Node_Lcm
  imports Mock_Provider
begin

text \<open>
  The node lifecycle manager, \<^verbatim>\<open>internal/controller/lcm/node_lcm.go\<close>: one call looks at the
  recorded status of a node, asks the provider for one thing and moves the status on. The
  Go function writes through the pointers of its request, so the model returns the
  request with those targets updated. Both callers pass the address of a status, so
  \<^verbatim>\<open>NodeStatus\<close> is never nil; \<^verbatim>\<open>HeadNodeStatus\<close> and \<^verbatim>\<open>VMServiceStatus\<close> may be.
\<close>

section \<open>The request and the four states\<close>

definition ErrorInvalidNodestatus :: go_error where
  "ErrorInvalidNodestatus = ErrorString ''lcm detected invalid node status''"

record 'w NodeLifecycleManager =
  nlm_pvdr :: "'w VmProvider"

definition NewNodeLifecycleManager :: "'w VmProvider \<Rightarrow> 'w NodeLifecycleManager" where
  "NewNodeLifecycleManager pvdr = \<lparr>nlm_pvdr = pvdr\<rparr>"

record NodeLcmRequest =
  lr_Namespace :: string
  lr_Clustername :: string
  lr_Nounce :: string
  lr_Name :: string
  lr_NodeType :: string
  lr_DockerImage :: string
  lr_ApiServer :: ApiServerInfo
  lr_EnableTLS :: bool
  lr_HeadNodeConfig :: HeadNodeConfig
  lr_WorkerNodeConfig :: WorkerNodeConfig
  lr_NodeConfig :: CommonNodeConfig
  lr_DockerConfig :: DockerRegistryConfig
  lr_NodeStatus :: VMRayNodeStatus
  lr_HeadNodeStatus :: "VMRayNodeStatus option"
  lr_VMServiceStatus :: "VMServiceStatus option"
  lr_RayClusterRequestor :: RayClusterRequestor

abbreviation lr_key :: "NodeLcmRequest \<Rightarrow> object_key" where
  "lr_key req \<equiv> (lr_Namespace req, lr_Name req)"

abbreviation lr_VmStatus :: "NodeLcmRequest \<Rightarrow> VMNodeStatus" where
  "lr_VmStatus req \<equiv> ns_VmStatus (lr_NodeStatus req)"

definition set_status :: "(VMRayNodeStatus \<Rightarrow> VMRayNodeStatus) \<Rightarrow> NodeLcmRequest \<Rightarrow> NodeLcmRequest" where
  "set_status f req = req\<lparr>lr_NodeStatus := f (lr_NodeStatus req)\<rparr>"

abbreviation set_VmStatus :: "VMNodeStatus \<Rightarrow> NodeLcmRequest \<Rightarrow> NodeLcmRequest" where
  "set_VmStatus s \<equiv> set_status (ns_VmStatus_update (\<lambda>_. s))"

text \<open>The \<^verbatim>\<open>VmDeploymentRequest\<close> literal of the first case.\<close>

definition deploymentRequest :: "NodeLcmRequest \<Rightarrow> VmDeploymentRequest" where
  "deploymentRequest req =
     \<lparr>vdr_ClusterName = lr_Clustername req,
      vdr_DockerImage = lr_DockerImage req,
      vdr_Namespace = lr_Namespace req,
      vdr_Nounce = lr_Nounce req,
      vdr_VmName = lr_Name req,
      vdr_NodeType = lr_NodeType req,
      vdr_ApiServer = lr_ApiServer req,
      vdr_EnableTLS = lr_EnableTLS req,
      vdr_HeadNodeConfig = lr_HeadNodeConfig req,
      vdr_WorkerNodeConfig = lr_WorkerNodeConfig req,
      vdr_NodeConfig = lr_NodeConfig req,
      vdr_DockerConfig = lr_DockerConfig req,
      vdr_HeadNodeStatus = lr_HeadNodeStatus req,
      vdr_RayClusterRequestor = lr_RayClusterRequestor req,
      vdr_VmService = ''''\<rparr>"

type_synonym 'w lcm_result = "NodeLcmRequest \<times> go_error option outcome \<times> 'w"

text \<open>Deploying the machine: an existing machine of that name counts as deployed.\<close>

definition deploy_node ::
  "'w VmProvider \<Rightarrow> VmDeploymentRequest \<Rightarrow> NodeLcmRequest \<Rightarrow> 'w \<Rightarrow> 'w lcm_result" where
  "deploy_node pvdr dr req w =
     (case pv_Deploy pvdr dr w of
        (Some err, w') \<Rightarrow>
          (if IgnoreAlreadyExists err \<noteq> None
           then (set_VmStatus FAIL req, Returns (Some err), w')
           else (set_VmStatus INITIALIZED req, Returns None, w'))
      | (None, w') \<Rightarrow> (set_VmStatus INITIALIZED req, Returns None, w'))"

text \<open>
  The state \<^verbatim>\<open>EMPTY\<close>: for the head node (no head status given) the VM service comes first,
  and its address goes into the cluster status and the deployment.
\<close>

definition process_EMPTY :: "'w VmProvider \<Rightarrow> NodeLcmRequest \<Rightarrow> 'w \<Rightarrow> 'w lcm_result" where
  "process_EMPTY pvdr req w =
     (case lr_HeadNodeStatus req of
        Some _ \<Rightarrow> deploy_node pvdr (deploymentRequest req) req w
      | None \<Rightarrow>
          (case pv_DeployVmService pvdr (deploymentRequest req) w of
             ((ip, Some err), w1) \<Rightarrow> (req, Returns (Some err), w1)
           | ((ip, None), w1) \<Rightarrow>
               (if ip = '''' then (req, Returns None, w1)
                else (case lr_VMServiceStatus req of
                        None \<Rightarrow> (req, Panics ''nil pointer: VMServiceStatus'', w1)
                      | Some s \<Rightarrow>
                          deploy_node pvdr ((deploymentRequest req)\<lparr>vdr_VmService := ip\<rparr>)
                            (req\<lparr>lr_VMServiceStatus := Some (s\<lparr>svc_Ip := ip\<rparr>)\<rparr>) w1))))"

text \<open>The state \<^verbatim>\<open>INITIALIZED\<close>: wait for an address, then move to \<^verbatim>\<open>RUNNING\<close>.\<close>

definition process_INITIALIZED :: "'w VmProvider \<Rightarrow> NodeLcmRequest \<Rightarrow> 'w \<Rightarrow> 'w lcm_result" where
  "process_INITIALIZED pvdr req w =
     (case pv_FetchVmStatus pvdr (lr_Namespace req) (lr_Name req) w of
        ((newStatus, Some err), w1) \<Rightarrow> (set_VmStatus FAIL req, Returns (Some err), w1)
      | ((None, None), w1) \<Rightarrow> (req, Panics ''nil pointer: newStatus'', w1)
      | ((Some s, None), w1) \<Rightarrow>
          (let req1 = set_status (\<lambda>st. st\<lparr>ns_Ip := ns_Ip s, ns_Conditions := ns_Conditions s\<rparr>) req
           in if ns_Ip (lr_NodeStatus req1) = '''' then (req1, Returns None, w1)
              else (set_status (\<lambda>st. st\<lparr>ns_VmStatus := RUNNING, ns_RayStatus := RAY_INITIALIZED\<rparr>) req1,
                    Returns None, w1)))"

text \<open>The state \<^verbatim>\<open>RUNNING\<close>: a node that lost its machine or its address fails.\<close>

definition mark_failed :: "NodeLcmRequest \<Rightarrow> NodeLcmRequest" where
  "mark_failed = set_status (\<lambda>st. st\<lparr>ns_VmStatus := FAIL, ns_RayStatus := RAY_FAIL\<rparr>)"

definition process_RUNNING :: "'w VmProvider \<Rightarrow> NodeLcmRequest \<Rightarrow> 'w \<Rightarrow> 'w lcm_result" where
  "process_RUNNING pvdr req w =
     (case pv_FetchVmStatus pvdr (lr_Namespace req) (lr_Name req) w of
        ((newStatus, Some err), w1) \<Rightarrow> (mark_failed req, Returns (Some err), w1)
      | ((None, None), w1) \<Rightarrow> (req, Panics ''nil pointer: newStatus'', w1)
      | ((Some s, None), w1) \<Rightarrow>
          (if ns_Ip s \<noteq> ''''
           then (set_status (\<lambda>st. st\<lparr>ns_RayStatus := RAY_RUNNING, ns_Ip := ns_Ip s,
                   ns_Conditions := ns_Conditions s\<rparr>) req, Returns None, w1)
           else (mark_failed req,
                 Returns (Some (ErrorString (''primary IPv4 not found for '' @ lr_Name req @ '' Node''))),
                 w1)))"

text \<open>
  The state \<^verbatim>\<open>FAIL\<close>: if the machine is there again go back to \<^verbatim>\<open>INITIALIZED\<close>, if it is not found
  start over, and otherwise stay; the error is not reported.
\<close>

definition process_FAIL :: "'w VmProvider \<Rightarrow> NodeLcmRequest \<Rightarrow> 'w \<Rightarrow> 'w lcm_result" where
  "process_FAIL pvdr req w =
     (case pv_FetchVmStatus pvdr (lr_Namespace req) (lr_Name req) w of
        ((_, None), w1) \<Rightarrow> (set_VmStatus INITIALIZED req, Returns None, w1)
      | ((_, Some err), w1) \<Rightarrow>
          (if IgnoreNotFound err = None then (set_VmStatus EMPTY req, Returns None, w1)
           else (req, Returns None, w1)))"

definition ProcessNodeVmState :: "'w VmProvider \<Rightarrow> NodeLcmRequest \<Rightarrow> 'w \<Rightarrow> 'w lcm_result" where
  "ProcessNodeVmState pvdr req w =
     (let s = lr_VmStatus req in
      if s = EMPTY then process_EMPTY pvdr req w
      else if s = INITIALIZED then process_INITIALIZED pvdr req w
      else if s = RUNNING then process_RUNNING pvdr req w
      else if s = FAIL then process_FAIL pvdr req w
      else (req, Returns (Some ErrorInvalidNodestatus), w))"

lemmas process_defs = deploy_node_def process_EMPTY_def process_INITIALIZED_def
  process_RUNNING_def process_FAIL_def mark_failed_def set_status_def

section \<open>The state machine\<close>

text \<open>
  The steps a node's status can take, read off the process flow described beside the API
  types: one rule per way a call can change the status.
\<close>

inductive lcm_step :: "VMRayNodeStatus \<Rightarrow> VMRayNodeStatus \<Rightarrow> bool" where
  wait_service: "ns_VmStatus st = EMPTY \<Longrightarrow> lcm_step st st"
| deployed: "ns_VmStatus st = EMPTY \<Longrightarrow> lcm_step st (st\<lparr>ns_VmStatus := INITIALIZED\<rparr>)"
| deploy_failed: "ns_VmStatus st = EMPTY \<Longrightarrow> lcm_step st (st\<lparr>ns_VmStatus := FAIL\<rparr>)"
| no_address: "ns_VmStatus st = INITIALIZED \<Longrightarrow>
    lcm_step st (st\<lparr>ns_Ip := '''', ns_Conditions := cs\<rparr>)"
| address: "ns_VmStatus st = INITIALIZED \<Longrightarrow> ip \<noteq> '''' \<Longrightarrow>
    lcm_step st (st\<lparr>ns_Ip := ip, ns_Conditions := cs, ns_VmStatus := RUNNING,
      ns_RayStatus := RAY_INITIALIZED\<rparr>)"
| lookup_failed: "ns_VmStatus st = INITIALIZED \<Longrightarrow> lcm_step st (st\<lparr>ns_VmStatus := FAIL\<rparr>)"
| alive: "ns_VmStatus st = RUNNING \<Longrightarrow> ip \<noteq> '''' \<Longrightarrow>
    lcm_step st (st\<lparr>ns_RayStatus := RAY_RUNNING, ns_Ip := ip, ns_Conditions := cs\<rparr>)"
| lost: "ns_VmStatus st = RUNNING \<Longrightarrow>
    lcm_step st (st\<lparr>ns_VmStatus := FAIL, ns_RayStatus := RAY_FAIL\<rparr>)"
| found_again: "ns_VmStatus st = FAIL \<Longrightarrow> lcm_step st (st\<lparr>ns_VmStatus := INITIALIZED\<rparr>)"
| vanished: "ns_VmStatus st = FAIL \<Longrightarrow> lcm_step st (st\<lparr>ns_VmStatus := EMPTY\<rparr>)"
| still_failing: "ns_VmStatus st = FAIL \<Longrightarrow> lcm_step st st"

inductive lcm_reachable :: "VMRayNodeStatus \<Rightarrow> bool" where
  fresh: "lcm_reachable zero_VMRayNodeStatus"
| step: "lcm_reachable st \<Longrightarrow> lcm_step st st' \<Longrightarrow> lcm_reachable st'"

definition valid_VmStatus :: "VMNodeStatus \<Rightarrow> bool" where
  "valid_VmStatus s \<longleftrightarrow> s = EMPTY \<or> s = INITIALIZED \<or> s = RUNNING \<or> s = FAIL"

text \<open>
  What the status of a node always satisfies: a running machine has an address and its Ray
  process is starting or up, and the Ray process is only recorded as up on a running machine.
\<close>

definition node_inv :: "VMRayNodeStatus \<Rightarrow> bool" where
  "node_inv st \<longleftrightarrow>
     valid_VmStatus (ns_VmStatus st) \<and>
     (ns_VmStatus st = RUNNING \<longrightarrow>
        ns_Ip st \<noteq> '''' \<and> (ns_RayStatus st = RAY_INITIALIZED \<or> ns_RayStatus st = RAY_RUNNING)) \<and>
     (ns_RayStatus st = RAY_RUNNING \<longrightarrow> ns_VmStatus st = RUNNING)"

lemma node_inv_zero: "node_inv zero_VMRayNodeStatus"
  by (simp add: node_inv_def valid_VmStatus_def zero_VMRayNodeStatus_def EMPTY_def RUNNING_def
      RAY_RUNNING_def)

lemma lcm_step_inv: "lcm_step st st' \<Longrightarrow> node_inv st \<Longrightarrow> node_inv st'"
  by (induction rule: lcm_step.induct) (auto simp: node_inv_def valid_VmStatus_def)

lemma lcm_reachable_inv: "lcm_reachable st \<Longrightarrow> node_inv st"
  by (induction rule: lcm_reachable.induct) (auto intro: node_inv_zero lcm_step_inv)

section \<open>What a call does\<close>

text \<open>A case rule for a call of the manager: one case per state.\<close>

lemma ProcessNodeVmState_cases:
  assumes "ProcessNodeVmState pvdr req w = r"
  obtains "lr_VmStatus req = EMPTY" "process_EMPTY pvdr req w = r"
  | "lr_VmStatus req = INITIALIZED" "process_INITIALIZED pvdr req w = r"
  | "lr_VmStatus req = RUNNING" "process_RUNNING pvdr req w = r"
  | "lr_VmStatus req = FAIL" "process_FAIL pvdr req w = r"
  | "\<not> valid_VmStatus (lr_VmStatus req)" "r = (req, Returns (Some ErrorInvalidNodestatus), w)"
  using assms that
  by (auto simp: ProcessNodeVmState_def valid_VmStatus_def Let_def split: if_splits)

lemma deploy_node_status:
  assumes "deploy_node pvdr dr req w = (req', res, w')"
  shows "(\<exists>r. pv_Deploy pvdr dr w = (r, w')) \<and>
     (req' = set_VmStatus INITIALIZED req \<and> res = Returns None \<or>
      req' = set_VmStatus FAIL req \<and> (\<exists>e. res = Returns (Some e) \<and> \<not> IsAlreadyExists e))"
  using assms by (auto simp: deploy_node_def split: prod.splits option.splits if_splits)

lemma deploymentRequest_sel [simp]:
  "vdr_Namespace (deploymentRequest req) = lr_Namespace req" "vdr_ClusterName (deploymentRequest req) = lr_Clustername req"
  "vdr_VmName (deploymentRequest req) = lr_Name req" "vdr_Nounce (deploymentRequest req) = lr_Nounce req"
  "vdr_NodeType (deploymentRequest req) = lr_NodeType req" "vdr_NodeConfig (deploymentRequest req) = lr_NodeConfig req"
  "vdr_DockerConfig (deploymentRequest req) = lr_DockerConfig req"
  "vdr_HeadNodeStatus (deploymentRequest req) = lr_HeadNodeStatus req"
  by (simp_all add: deploymentRequest_def)

text \<open>In the state \<^verbatim>\<open>EMPTY\<close> a call ends with the VM service or deploys the node's machine.\<close>

lemma process_EMPTY_cases:
  assumes "process_EMPTY pvdr req w = (req', res, w')"
  obtains (service) r where "pv_DeployVmService pvdr (deploymentRequest req) w = (r, w')"
    and "req' = req"
  | (deploy) dr r w0 where "vdr_key dr = lr_key req" and "lr_NodeStatus r = lr_NodeStatus req"
    and "w0 = w \<or> (\<exists>s. pv_DeployVmService pvdr (deploymentRequest req) w = (s, w0))"
    and "deploy_node pvdr dr r w0 = (req', res, w')"
proof (cases "lr_HeadNodeStatus req")
  case (Some h)
  with assms show thesis
    by (intro deploy [of "deploymentRequest req" req w]) (simp_all add: process_EMPTY_def)
next
  case None
  obtain ip e w1 where svc: "pv_DeployVmService pvdr (deploymentRequest req) w = ((ip, e), w1)"
    by (metis prod.exhaust)
  show thesis
  proof (cases "e = None \<and> ip \<noteq> '''' \<and> lr_VMServiceStatus req \<noteq> None")
    case True
    then obtain s where "e = None" "ip \<noteq> ''''" "lr_VMServiceStatus req = Some s" by auto
    with assms None svc show thesis
      by (intro deploy [of "deploymentRequest req\<lparr>vdr_VmService := ip\<rparr>"
            "req\<lparr>lr_VMServiceStatus := Some (s\<lparr>svc_Ip := ip\<rparr>)\<rparr>" w1])
         (auto simp: process_EMPTY_def)
  next
    case False
    with assms None svc show thesis
      by (intro service [of "(ip, e)"]) (auto simp: process_EMPTY_def split: option.splits if_splits)
  qed
qed

lemma process_EMPTY_step:
  assumes "process_EMPTY pvdr req w = (req', res, w')" and "lr_VmStatus req = EMPTY"
  shows "lcm_step (lr_NodeStatus req) (lr_NodeStatus req')"
  using assms(1)
proof (cases rule: process_EMPTY_cases)
  case service
  with assms(2) show ?thesis by (simp add: lcm_step.wait_service)
next
  case (deploy dr r w0)
  from deploy_node_status [OF deploy(4)] deploy(2) assms(2) show ?thesis
    by (auto simp: set_status_def intro: lcm_step.deployed lcm_step.deploy_failed)
qed

lemma process_other_step:
  "process_INITIALIZED pvdr req w = (req', Returns e, w') \<Longrightarrow> lr_VmStatus req = INITIALIZED \<Longrightarrow>
     lcm_step (lr_NodeStatus req) (lr_NodeStatus req')"
  "process_RUNNING pvdr req w = (req', Returns e, w') \<Longrightarrow> lr_VmStatus req = RUNNING \<Longrightarrow>
     lcm_step (lr_NodeStatus req) (lr_NodeStatus req')"
  "process_FAIL pvdr req w = (req', Returns e, w') \<Longrightarrow> lr_VmStatus req = FAIL \<Longrightarrow>
     lcm_step (lr_NodeStatus req) (lr_NodeStatus req')"
  by (auto simp: process_INITIALIZED_def process_RUNNING_def process_FAIL_def mark_failed_def
        set_status_def Let_def intro: lcm_step.intros
      split: option.splits prod.splits if_splits)

lemma ProcessNodeVmState_step:
  assumes "ProcessNodeVmState pvdr req w = (req', Returns err, w')"
    and "valid_VmStatus (lr_VmStatus req)"
  shows "lcm_step (lr_NodeStatus req) (lr_NodeStatus req')"
  using assms
  by (cases rule: ProcessNodeVmState_cases) (auto intro: process_EMPTY_step process_other_step)

text \<open>Two requests of the test suite, for the head node and for a worker.\<close>

definition example_request :: "VMRayNodeStatus option \<Rightarrow> VMNodeStatus \<Rightarrow> NodeLcmRequest" where
  "example_request head s =
     \<lparr>lr_Namespace = ''lcm-namespace'', lr_Clustername = ''lcm-cn'', lr_Nounce = ''ab1cd'',
      lr_Name = ''vm-name'', lr_NodeType = ''ray.head'', lr_DockerImage = ''docker-img'',
      lr_ApiServer = \<lparr>as_CaCert = '''', as_Location = ''''\<rparr>, lr_EnableTLS = True,
      lr_HeadNodeConfig = \<lparr>hn_SetupCommands = [], hn_Port = None, hn_NodeType = ''ray.head''\<rparr>,
      lr_WorkerNodeConfig = \<lparr>wn_SetupCommands = []\<rparr>,
      lr_NodeConfig = \<lparr>nc_VMImage = ''vmi'', nc_StorageClass = ''sc'', nc_VMUser = ''ray'',
        nc_VMPasswordSaltHash = ''hash'', nc_Network = None, nc_NodeTypes = [], nc_MaxWorkers = 1,
        nc_IdleTimeoutMinutes = 0, nc_SetupCommands = [], nc_InitializationCommands = []\<rparr>,
      lr_DockerConfig = \<lparr>dr_AuthSecretName = ''''\<rparr>,
      lr_NodeStatus = zero_VMRayNodeStatus\<lparr>ns_VmStatus := s\<rparr>,
      lr_HeadNodeStatus = head,
      lr_VMServiceStatus = (case head of None \<Rightarrow> Some \<lparr>svc_Ip = ''''\<rparr> | Some _ \<Rightarrow> None),
      lr_RayClusterRequestor = K8S\<rparr>"

definition example_mock :: MockVmProvider where
  "example_mock =
     FetchVmStatusSetResponse 2 (Some (zero_VMRayNodeStatus\<lparr>ns_Ip := ''10.10.10.10''\<rparr>)) None
    (FetchVmStatusSetResponse 1 (Some (zero_VMRayNodeStatus\<lparr>ns_Ip := ''10.10.10.10''\<rparr>)) None
    (DeploySetResponse 1 None (DeployVmServiceSetResponse 1 ''192.10.10.1'' None NewMockVmProvider)))"

lemmas example_defs = example_request_def example_mock_def mock_set_defs mock_call_defs
  NewMockVmProvider_def zero_VMRayNodeStatus_def

text \<open>
  C5: a call of the lifecycle manager that returns moves the node's status along one of the
  steps of the state machine, whatever the provider answers; a status outside the four
  states is left as it is, without asking the provider, and reported as invalid.
\<close>

theorem ProcessNodeVmState_refines:
  assumes "ProcessNodeVmState pvdr req w = (req', Returns err, w')"
  shows "if valid_VmStatus (lr_VmStatus req)
     then lcm_step (lr_NodeStatus req) (lr_NodeStatus req')
     else req' = req \<and> w' = w \<and> err = Some ErrorInvalidNodestatus"
proof (cases "valid_VmStatus (lr_VmStatus req)")
  case True
  with ProcessNodeVmState_step [OF assms] show ?thesis by simp
next
  case False
  with assms show ?thesis by (auto simp: ProcessNodeVmState_def valid_VmStatus_def Let_def)
qed

theorem ProcessNodeVmState_refines_witness:
  "lcm_step (zero_VMRayNodeStatus\<lparr>ns_VmStatus := FAIL\<rparr>) (zero_VMRayNodeStatus\<lparr>ns_VmStatus := INITIALIZED\<rparr>)"
proof -
  let ?req = "example_request None FAIL"
  have "ProcessNodeVmState mock_provider ?req example_mock =
      (set_VmStatus INITIALIZED ?req, Returns None, snd (mock_FetchVmStatus ''lcm-namespace'' ''vm-name'' example_mock))"
    by (simp add: ProcessNodeVmState_def process_FAIL_def example_defs)
  from ProcessNodeVmState_refines [OF this] show ?thesis
    by (simp add: valid_VmStatus_def example_request_def set_status_def)
qed

text \<open>
  A provider that gives the same answers on every call, over the trivial world; it shows
  that no step of the machine is idle.
\<close>

definition constant_provider ::
  "go_error option \<Rightarrow> string \<times> go_error option \<Rightarrow> VMRayNodeStatus option \<times> go_error option \<Rightarrow> unit VmProvider" where
  "constant_provider d s f =
     \<lparr>pv_Deploy = (\<lambda>_ w. (d, w)), pv_DeployVmService = (\<lambda>_ w. (s, w)), pv_Delete = (\<lambda>_ _ w. (None, w)),
      pv_FetchVmStatus = (\<lambda>_ _ w. (f, w)), pv_DeleteAuxiliaryResources = (\<lambda>_ _ w. (None, w))\<rparr>"

text \<open>
  The state machine promises nothing the code cannot do: every step of it is taken by a
  call of the lifecycle manager on some node, for some answer of the provider.
\<close>

theorem lcm_step_realised:
  assumes "lcm_step st st'"
  shows "\<exists>pvdr req req' err. lr_NodeStatus req = st \<and> lr_NodeStatus req' = st' \<and>
    ProcessNodeVmState (pvdr :: unit VmProvider) req () = (req', Returns err, ())"
proof -
  define req where "req = (example_request None EMPTY)\<lparr>lr_NodeStatus := st\<rparr>"
  have run: ?thesis
    if "case ProcessNodeVmState pvdr req () of (r, Returns e, _) \<Rightarrow> lr_NodeStatus r = st' | _ \<Rightarrow> False"
    for pvdr
  proof -
    from that obtain r e where "ProcessNodeVmState pvdr req () = (r, Returns e, ())"
      and "lr_NodeStatus r = st'"
      by (auto split: prod.splits outcome.splits)
    moreover have "lr_NodeStatus req = st" by (simp add: req_def)
    ultimately show ?thesis by blast
  qed
  define boom where "boom = ErrorString ''boom''"
  define ok where "ok ip cs = (Some (zero_VMRayNodeStatus\<lparr>ns_Ip := ip, ns_Conditions := cs\<rparr>), None :: go_error option)" for ip cs
  note reds = ProcessNodeVmState_def process_defs Let_def constant_provider_def boom_def ok_def
    not_found_def example_request_def req_def zero_VMRayNodeStatus_def
  from assms show ?thesis
  proof (cases rule: lcm_step.cases)
    case wait_service
    then show ?thesis by (intro run [of "constant_provider None ('''', None) (ok '''' [])"]) (simp add: reds)
  next
    case deployed
    then show ?thesis by (intro run [of "constant_provider None (''ip'', None) (ok '''' [])"]) (simp add: reds)
  next
    case deploy_failed
    then show ?thesis by (intro run [of "constant_provider (Some boom) (''ip'', None) (ok '''' [])"]) (simp add: reds)
  next
    case (no_address cs)
    then show ?thesis by (intro run [of "constant_provider None ('''', None) (ok '''' cs)"]) (simp add: reds)
  next
    case (address ip cs)
    then show ?thesis by (intro run [of "constant_provider None ('''', None) (ok ip cs)"]) (simp add: reds)
  next
    case lookup_failed
    then show ?thesis by (intro run [of "constant_provider None ('''', None) (None, Some boom)"]) (simp add: reds)
  next
    case (alive ip cs)
    then show ?thesis by (intro run [of "constant_provider None ('''', None) (ok ip cs)"]) (simp add: reds)
  next
    case lost
    then show ?thesis by (intro run [of "constant_provider None ('''', None) (None, Some boom)"]) (simp add: reds)
  next
    case found_again
    then show ?thesis by (intro run [of "constant_provider None ('''', None) (ok '''' [])"]) (simp add: reds)
  next
    case vanished
    then show ?thesis by (intro run [of "constant_provider None ('''', None) (None, Some (not_found ''vm''))"]) (simp add: reds)
  next
    case still_failing
    then show ?thesis by (intro run [of "constant_provider None ('''', None) (None, Some boom)"]) (simp add: reds)
  qed
qed

theorem lcm_step_realised_witness:
  "\<exists>pvdr req req' err. lr_NodeStatus req = zero_VMRayNodeStatus \<and>
    lr_NodeStatus req' = zero_VMRayNodeStatus\<lparr>ns_VmStatus := INITIALIZED\<rparr> \<and>
    ProcessNodeVmState (pvdr :: unit VmProvider) req () = (req', Returns err, ())"
  by (rule lcm_step_realised [OF lcm_step.deployed]) (simp add: zero_VMRayNodeStatus_def)

section \<open>Sequences of calls\<close>

text \<open>
  The reconcile loop calls the manager again and again on the same node, each time with the
  status the previous call left; a panic ends the sequence.
\<close>

fun lcm_run :: "'w VmProvider \<Rightarrow> nat \<Rightarrow> NodeLcmRequest \<Rightarrow> 'w \<Rightarrow> (NodeLcmRequest \<times> 'w) option" where
  "lcm_run pvdr 0 req w = Some (req, w)"
| "lcm_run pvdr (Suc n) req w =
     (case ProcessNodeVmState pvdr req w of
        (req', Returns _, w') \<Rightarrow> lcm_run pvdr n req' w'
      | (_, Panics _, _) \<Rightarrow> None)"

lemma lcm_reachable_run:
  assumes "lcm_run pvdr n req w = Some (req', w')" and "lcm_reachable (lr_NodeStatus req)"
  shows "lcm_reachable (lr_NodeStatus req')"
  using assms
proof (induction n arbitrary: req w)
  case (Suc n)
  from Suc.prems(1) obtain r e v where step: "ProcessNodeVmState pvdr req w = (r, Returns e, v)"
    and rest: "lcm_run pvdr n r v = Some (req', w')"
    by (auto split: prod.splits outcome.splits)
  have "valid_VmStatus (lr_VmStatus req)"
    using lcm_reachable_inv [OF Suc.prems(2)] by (simp add: node_inv_def)
  with ProcessNodeVmState_step [OF step] Suc.prems(2) have "lcm_reachable (lr_NodeStatus r)"
    by (auto intro: lcm_reachable.step)
  with rest show ?case by (rule Suc.IH)
qed simp

text \<open>
  C11: start from a fresh status and let the manager run any number of times against any
  provider. Whenever the status says that Ray runs on the node, the machine is recorded as
  running and has an address; and a running machine always has one. Worker deployment
  depends on this, since it starts when the head's Ray status is running.
\<close>

theorem ray_running_needs_machine:
  assumes "lr_NodeStatus req = zero_VMRayNodeStatus"
    and "lcm_run pvdr n req w = Some (req', w')"
  shows "(ns_RayStatus (lr_NodeStatus req') = RAY_RUNNING \<longrightarrow> lr_VmStatus req' = RUNNING) \<and>
    (lr_VmStatus req' = RUNNING \<longrightarrow> ns_Ip (lr_NodeStatus req') \<noteq> '''')"
proof -
  have "lcm_reachable (lr_NodeStatus req)" using assms(1) lcm_reachable.fresh by simp
  with assms(2) have "lcm_reachable (lr_NodeStatus req')" by (rule lcm_reachable_run)
  then have "node_inv (lr_NodeStatus req')" by (rule lcm_reachable_inv)
  then show ?thesis by (simp add: node_inv_def)
qed

text \<open>The run of the test "happy run", call by call.\<close>

lemma example_run:
  "\<exists>req' w'. lcm_run mock_provider 3 (example_request None EMPTY) example_mock = Some (req', w') \<and>
     ns_RayStatus (lr_NodeStatus req') = RAY_RUNNING"
  by (simp add: numeral_3_eq_3 ProcessNodeVmState_def process_defs Let_def example_defs
      deploymentRequest_def)

theorem ray_running_needs_machine_witness:
  "\<exists>req' w'. lcm_run mock_provider 3 (example_request None EMPTY) example_mock = Some (req', w') \<and>
     lr_VmStatus req' = RUNNING \<and> ns_Ip (lr_NodeStatus req') \<noteq> ''''"
proof -
  from example_run obtain req' w' where
    run: "lcm_run mock_provider 3 (example_request None EMPTY) example_mock = Some (req', w')"
    and ray: "ns_RayStatus (lr_NodeStatus req') = RAY_RUNNING" by blast
  have "lr_NodeStatus (example_request None EMPTY) = zero_VMRayNodeStatus"
    by (simp add: example_request_def zero_VMRayNodeStatus_def)
  from ray_running_needs_machine [OF this run] ray run show ?thesis by blast
qed

text \<open>
  A provider that works: it deploys, its VM service has an address, and the machine it
  reports has one too.
\<close>

definition healthy_provider :: "'w VmProvider \<Rightarrow> bool" where
  "healthy_provider pvdr \<longleftrightarrow>
     (\<forall>req w. fst (pv_Deploy pvdr req w) = None) \<and>
     (\<forall>req w. \<exists>ip w'. pv_DeployVmService pvdr req w = ((ip, None), w') \<and> ip \<noteq> '''') \<and>
     (\<forall>ns n w. \<exists>st w'. pv_FetchVmStatus pvdr ns n w = ((Some st, None), w') \<and> ns_Ip st \<noteq> '''')"

text \<open>How far a node is from a running Ray process, in calls.\<close>

definition lcm_distance :: "VMRayNodeStatus \<Rightarrow> nat" where
  "lcm_distance st =
     (if ns_VmStatus st = RUNNING then (if ns_RayStatus st = RAY_RUNNING then 0 else 1)
      else if ns_VmStatus st = INITIALIZED then 2 else 3)"

lemma healthy_call:
  assumes healthy: "healthy_provider pvdr" and valid: "valid_VmStatus (lr_VmStatus req)"
    and svc: "lr_HeadNodeStatus req = None \<longrightarrow> lr_VMServiceStatus req \<noteq> None"
  shows "\<exists>req' w'. ProcessNodeVmState pvdr req w = (req', Returns None, w') \<and>
    valid_VmStatus (lr_VmStatus req') \<and>
    (lr_HeadNodeStatus req' = None \<longrightarrow> lr_VMServiceStatus req' \<noteq> None) \<and>
    lcm_distance (lr_NodeStatus req') = lcm_distance (lr_NodeStatus req) - 1"
proof -
  obtain st v where fetch: "pv_FetchVmStatus pvdr (lr_Namespace req) (lr_Name req) w = ((Some st, None), v)"
    and ip: "ns_Ip st \<noteq> ''''"
    using healthy unfolding healthy_provider_def by blast
  obtain sip u where service: "pv_DeployVmService pvdr (deploymentRequest req) w = ((sip, None), u)"
    and sip: "sip \<noteq> ''''"
    using healthy unfolding healthy_provider_def by blast
  have deploy: "\<exists>v'. pv_Deploy pvdr dr v = (None, v')" for dr v
    using healthy by (metis healthy_provider_def prod.collapse)
  obtain u1 where d1: "pv_Deploy pvdr (deploymentRequest req) w = (None, u1)" using deploy by blast
  obtain u2 where d2: "pv_Deploy pvdr (deploymentRequest req\<lparr>vdr_VmService := sip\<rparr>) u = (None, u2)"
    using deploy by blast
  note facts = fetch ip service sip d1 d2
  from valid svc show ?thesis
    unfolding valid_VmStatus_def
    by (elim disjE; cases "lr_HeadNodeStatus req"; cases "lr_VMServiceStatus req")
       (auto simp: ProcessNodeVmState_def process_defs Let_def facts lcm_distance_def)
qed

lemma healthy_run:
  assumes "healthy_provider pvdr" and "valid_VmStatus (lr_VmStatus req)"
    and "lr_HeadNodeStatus req = None \<longrightarrow> lr_VMServiceStatus req \<noteq> None"
  shows "\<exists>req' w'. lcm_run pvdr n req w = Some (req', w') \<and>
    valid_VmStatus (lr_VmStatus req') \<and>
    lcm_distance (lr_NodeStatus req') = lcm_distance (lr_NodeStatus req) - n"
  using assms(2,3)
proof (induction n arbitrary: req w)
  case (Suc n)
  from healthy_call [OF assms(1) Suc.prems, of w] obtain r v where
    step: "ProcessNodeVmState pvdr req w = (r, Returns None, v)"
    and r: "valid_VmStatus (lr_VmStatus r)" "lr_HeadNodeStatus r = None \<longrightarrow> lr_VMServiceStatus r \<noteq> None"
    and d: "lcm_distance (lr_NodeStatus r) = lcm_distance (lr_NodeStatus req) - 1"
    by (elim exE conjE) (rule that)
  from Suc.IH [OF r, of v] step d show ?case by auto
qed simp

text \<open>
  C12: with a working provider a node in any of the four states, failed ones included, is
  up after three calls and stays up: for every number of calls from three on, the machine
  and Ray are recorded as running. The head node's request has to carry a place for the
  service address, as the controller's request does.
\<close>

theorem node_comes_up:
  assumes "healthy_provider pvdr" and "valid_VmStatus (lr_VmStatus req)"
    and "lr_HeadNodeStatus req = None \<longrightarrow> lr_VMServiceStatus req \<noteq> None"
    and "3 \<le> n"
  shows "\<exists>req' w'. lcm_run pvdr n req w = Some (req', w') \<and>
    lr_VmStatus req' = RUNNING \<and> ns_RayStatus (lr_NodeStatus req') = RAY_RUNNING"
proof -
  from healthy_run [OF assms(1-3), of n w] obtain req' w' where
    run: "lcm_run pvdr n req w = Some (req', w')"
    and d: "lcm_distance (lr_NodeStatus req') = lcm_distance (lr_NodeStatus req) - n"
    by blast
  have "lcm_distance (lr_NodeStatus req) \<le> 3" by (simp add: lcm_distance_def)
  with d assms(4) have "lcm_distance (lr_NodeStatus req') = 0" by simp
  then have "lr_VmStatus req' = RUNNING \<and> ns_RayStatus (lr_NodeStatus req') = RAY_RUNNING"
    by (simp add: lcm_distance_def split: if_splits)
  with run show ?thesis by blast
qed

theorem node_comes_up_witness:
  "\<exists>req' w'. lcm_run (constant_provider None (''192.10.10.1'', None)
      (Some (zero_VMRayNodeStatus\<lparr>ns_Ip := ''10.10.10.10''\<rparr>), None)) 5 (example_request None FAIL) () =
      Some (req', w') \<and> lr_VmStatus req' = RUNNING \<and> ns_RayStatus (lr_NodeStatus req') = RAY_RUNNING"
  by (rule node_comes_up)
     (simp_all add: healthy_provider_def constant_provider_def valid_VmStatus_def example_request_def)

section \<open>Errors and calls to the provider\<close>

text \<open>
  C23: an error reported for a node in one of the four states leaves the node failed, with
  one exception: when the head's VM service cannot be deployed or has no address yet, the
  error is passed on and the node stays as it is, to be tried again.
\<close>

theorem ProcessNodeVmState_error:
  assumes "ProcessNodeVmState pvdr req w = (req', Returns (Some e), w')"
    and "valid_VmStatus (lr_VmStatus req)"
  shows "lr_VmStatus req' = FAIL \<or>
    (lr_VmStatus req = EMPTY \<and> lr_HeadNodeStatus req = None \<and> req' = req \<and>
     (\<exists>ip. pv_DeployVmService pvdr (deploymentRequest req) w = ((ip, Some e), w')))"
  using assms
  by (cases rule: ProcessNodeVmState_cases)
     (auto simp: process_defs Let_def split: prod.splits option.splits if_splits)

theorem ProcessNodeVmState_error_witness:
  "\<exists>req' e m'. ProcessNodeVmState mock_provider (example_request None INITIALIZED) NewMockVmProvider =
      (req', Returns (Some e), m') \<and> lr_VmStatus req' = FAIL"
proof -
  obtain req' e m' where call: "ProcessNodeVmState mock_provider (example_request None INITIALIZED) NewMockVmProvider =
      (req', Returns (Some e), m')"
    by (simp add: ProcessNodeVmState_def process_defs example_defs)
  have "valid_VmStatus (lr_VmStatus (example_request None INITIALIZED))"
    and "lr_VmStatus (example_request None INITIALIZED) = INITIALIZED"
    by (simp_all add: example_request_def valid_VmStatus_def)
  with ProcessNodeVmState_error [OF call] call show ?thesis by auto
qed

text \<open>
  C24: seen from the mock provider, a call asks for at most one deployment, and only for a
  node in the state EMPTY; a node in any other state costs exactly one status lookup and no
  deployment; nothing is ever deleted. A head machine is deployed only once its VM service
  has an address, and the same address ends up in the cluster's status.
\<close>

theorem ProcessNodeVmState_calls:
  assumes "ProcessNodeVmState mock_provider req m = (req', res, m')"
    and "valid_VmStatus (lr_VmStatus req)"
  shows "(if lr_VmStatus req = EMPTY
     then fetchVmStatusFuncCallCount m' = fetchVmStatusFuncCallCount m
     else fetchVmStatusFuncCallCount m' = fetchVmStatusFuncCallCount m + 1 \<and>
          deployFuncCallCount m' = deployFuncCallCount m) \<and>
    deleteFuncCallCount m' = deleteFuncCallCount m \<and>
    deleteAuxiliaryResourcesFuncCallCount m' = deleteAuxiliaryResourcesFuncCallCount m \<and>
    (deployFuncCallCount m' = deployFuncCallCount m \<or>
     deployFuncCallCount m' = deployFuncCallCount m + 1 \<and>
     (\<exists>dr. DeployGetRequest (deployFuncCallCount m') m' = Some dr \<and> vdr_key dr = lr_key req \<and>
       (lr_HeadNodeStatus req = None \<longrightarrow>
          vdr_VmService dr \<noteq> '''' \<and> lr_VMServiceStatus req' = Some \<lparr>svc_Ip = vdr_VmService dr\<rparr>)))"
  using assms
  by (cases rule: ProcessNodeVmState_cases)
     (auto simp: process_defs mock_call_defs Let_def DeployGetRequest_def deploymentRequest_def
       split: prod.splits option.splits if_splits)

theorem ProcessNodeVmState_calls_witness:
  "\<exists>req' res m'. ProcessNodeVmState mock_provider (example_request None EMPTY) example_mock = (req', res, m') \<and>
     deployFuncCallCount m' = 1 \<and>
     (\<exists>dr. DeployGetRequest 1 m' = Some dr \<and> vdr_VmService dr \<noteq> '''')"
proof -
  obtain req' res m' where call:
    "ProcessNodeVmState mock_provider (example_request None EMPTY) example_mock = (req', res, m')"
    by (cases "ProcessNodeVmState mock_provider (example_request None EMPTY) example_mock") auto
  have "valid_VmStatus (lr_VmStatus (example_request None EMPTY))"
    and head: "lr_HeadNodeStatus (example_request None EMPTY) = None"
    by (simp_all add: example_request_def valid_VmStatus_def)
  note calls = ProcessNodeVmState_calls [OF call this(1)]
  have "deployFuncCallCount m' = 1" and "deployFuncCallCount example_mock = 0"
    using call
    by (auto simp: ProcessNodeVmState_def process_defs example_defs Let_def deploymentRequest_def)
  with calls head call show ?thesis by auto
qed

section \<open>What the contract of the provider gives\<close>

text \<open>What the three calls it makes of the provider leave alone, the manager leaves alone.\<close>

lemma ProcessNodeVmState_keeps:
  assumes "ProcessNodeVmState pvdr req w = (req', res, w')"
    and "\<And>dr r w w'. pv_Deploy pvdr dr w = (r, w') \<Longrightarrow> f w' = f w"
    and "\<And>dr r w w'. pv_DeployVmService pvdr dr w = (r, w') \<Longrightarrow> f w' = f w"
    and "\<And>ns n r w w'. pv_FetchVmStatus pvdr ns n w = (r, w') \<Longrightarrow> f w' = f w"
  shows "f w' = f w"
  using assms(1)
  by (cases rule: ProcessNodeVmState_cases)
     (auto simp: process_defs Let_def dest!: assms(2-4) split: prod.splits option.splits if_splits)

context vm_provider
begin

text \<open>
  The manager never panics: the provider returns a status whenever it returns no error, and
  the head's request carries a place for the service address.
\<close>

lemma ProcessNodeVmState_returns:
  assumes "ProcessNodeVmState pv req w = (req', res, w')"
    and "lr_HeadNodeStatus req = None \<longrightarrow> lr_VMServiceStatus req \<noteq> None"
  shows "returns res"
  using assms
  by (cases rule: ProcessNodeVmState_cases)
     (auto simp: process_defs Let_def dest: fetch_ok split: prod.splits option.splits if_splits)

text \<open>It touches no machine but the node's own.\<close>

lemma process_EMPTY_frame:
  assumes "process_EMPTY pv req w = (req', res, w')"
  shows "vms w' - {lr_key req} = vms w - {lr_key req}"
  using assms
proof (cases rule: process_EMPTY_cases)
  case service
  then show ?thesis by (simp add: deploy_service)
next
  case (deploy dr r w0)
  from deploy(3) have "vms w0 = vms w" by (auto dest: deploy_service)
  with deploy_node_status [OF deploy(4)] deploy(1) show ?thesis by (auto dest!: deploy_frame)
qed

lemma ProcessNodeVmState_frame:
  assumes "ProcessNodeVmState pv req w = (req', res, w')"
  shows "vms w' - {lr_key req} = vms w - {lr_key req}"
  using assms
  by (cases rule: ProcessNodeVmState_cases)
     (auto simp: process_EMPTY_frame process_INITIALIZED_def process_RUNNING_def process_FAIL_def
       Let_def dest!: fetch_frame split: prod.splits option.splits if_splits)

text \<open>A failed node starts over only when its machine does not exist.\<close>

lemma restart_only_if_gone:
  assumes "ProcessNodeVmState pv req w = (req', res, w')"
    and "lr_VmStatus req = FAIL" and "lr_VmStatus req' = EMPTY"
  shows "lr_key req \<notin> vms w"
  using assms
  by (auto simp: ProcessNodeVmState_def process_FAIL_def set_status_def
      dest: fetch_not_found split: prod.splits option.splits if_splits)

text \<open>A node that reports a deployment has its machine, or had one of that name before.\<close>

lemma deployed_exists:
  assumes "ProcessNodeVmState pv req w = (req', res, w')"
    and "lr_VmStatus req = EMPTY" and "lr_VmStatus req' = INITIALIZED"
  shows "lr_key req \<in> vms w' \<or>
    (\<exists>dr w0 e w1. vdr_key dr = lr_key req \<and> pv_Deploy pv dr w0 = (Some e, w1) \<and> IsAlreadyExists e)"
proof -
  from assms(1,2) have "process_EMPTY pv req w = (req', res, w')"
    by (simp add: ProcessNodeVmState_def)
  then show ?thesis
  proof (cases rule: process_EMPTY_cases)
    case service
    with assms(2,3) show ?thesis by simp
  next
    case (deploy dr r w0)
    from deploy(4) assms(3) consider "pv_Deploy pv dr w0 = (None, w')"
      | e where "pv_Deploy pv dr w0 = (Some e, w')" "IsAlreadyExists e"
      by (auto simp: deploy_node_def set_status_def split: prod.splits option.splits if_splits)
    then show ?thesis
    proof cases
      case 1
      with deploy_ok deploy(1) show ?thesis by auto
    next
      case 2
      with deploy(1) show ?thesis by blast
    qed
  qed
qed

end

end
