(* ===== verification/Tls_Utils.thy ===== *)
theory Tls_Utils
  imports Kube_Client
begin

text \<open>
  \<^verbatim>\<open>pkg/provider/vmop/tls/tls_utils.go\<close>: the self-signed root certificate of a cluster, kept
  in a secret, and the script that issues a node's certificate from it.
\<close>

definition TLSSecretSuffix :: string where "TLSSecretSuffix = ''-tls''"
definition RootCaSecretSuffix :: string where "RootCaSecretSuffix = ''-root-cert''"
definition rootCaCertKey :: string where "rootCaCertKey = ''ca.cert''"
definition rootCaKeyKey :: string where "rootCaKeyKey = ''ca.key''"

text \<open>The formats \<^verbatim>\<open>error_tmpl_ca_cert\<close> and \<^verbatim>\<open>error_tmpl_ca_key\<close>, applied.\<close>

definition error_tmpl_ca_cert :: "string \<Rightarrow> string \<Rightarrow> string \<Rightarrow> string" where
  "error_tmpl_ca_cert ns name k = ''failure to read ca certificate: secret '' @ ns @ '':'' @ name @
     '' doesn'' @ [CHR 0x27] @ ''t contain `'' @ k @ ''` key''"

definition error_tmpl_ca_key :: "string \<Rightarrow> string \<Rightarrow> string \<Rightarrow> string" where
  "error_tmpl_ca_key ns name k = ''failure to read ca key: secret '' @ ns @ '':'' @ name @
     '' doesn'' @ [CHR 0x27] @ ''t contain `'' @ k @ ''` key''"

definition root_certificate :: "string \<Rightarrow> string \<Rightarrow> x509_Certificate" where
  "root_certificate notBefore notAfter =
     \<lparr>x5_SerialNumber = 2019, x5_Organization = [''Broadcom, INC.''], x5_Country = [''US''],
      x5_Province = [''''], x5_Locality = [''San Jose''], x5_StreetAddress = [''Hillview Avenue''],
      x5_PostalCode = [''94304''], x5_NotBefore = notBefore, x5_NotAfter = notAfter, x5_IsCA = True,
      x5_ExtKeyUsage = [''ExtKeyUsageClientAuth'', ''ExtKeyUsageServerAuth''],
      x5_KeyUsage = [''KeyUsageDigitalSignature'', ''KeyUsageCertSign''],
      x5_BasicConstraintsValid = True\<rparr>"

definition root_secret :: "string \<Rightarrow> string \<Rightarrow> string \<Rightarrow> string \<Rightarrow> Secret" where
  "root_secret ns secretName caPEM keyPEM =
     \<lparr>sec_meta = new_meta ns secretName, sec_Type = '''',
      sec_Data = [(rootCaCertKey, caPEM), (rootCaKeyKey, keyPEM)], sec_StringData = []\<rparr>"

text \<open>Making a key and its self-signed certificate and storing both.\<close>

definition generate_root_secret ::
  "'w go_runtime \<Rightarrow> 'w kube_client \<Rightarrow> string \<Rightarrow> string \<Rightarrow> 'w \<Rightarrow> go_error option \<times> 'w" where
  "generate_root_secret rt kc ns secretName w1 =
     (case rt_now rt w1 of (notBefore, w2) \<Rightarrow>
      (case rt_now rt w2 of (now, w3) \<Rightarrow>
       (let ca = root_certificate notBefore (rt_add_date rt now 10 0 0) in
        (case rt_rsa_generate rt 4096 w3 of
           (Inl err, w4) \<Rightarrow> (Some err, w4)
         | (Inr ca_key, w4) \<Rightarrow>
             (case rt_x509_create rt ca ca_key w4 of
                (Inl err, w5) \<Rightarrow> (Some err, w5)
              | (Inr ca_cert, w5) \<Rightarrow>
                  (case rcreate (kc_secrets kc)
                       (root_secret ns secretName (rt_pem_encode rt ''CERTIFICATE'' ca_cert)
                          (rt_pem_encode rt ''RSA PRIVATE KEY'' ca_key)) w5 of
                     (Inl err, w6) \<Rightarrow> (Some err, w6)
                   | (Inr _, w6) \<Rightarrow> (None, w6)))))))"

definition CreateVMRayClusterRootSecret ::
  "'w go_runtime \<Rightarrow> 'w kube_client \<Rightarrow> string \<Rightarrow> string \<Rightarrow> 'w \<Rightarrow> go_error option \<times> 'w" where
  "CreateVMRayClusterRootSecret rt kc ns clusterName w =
     (let secretName = clusterName @ RootCaSecretSuffix in
      (case rget (kc_secrets kc) ns secretName w of
         (Inr _, w1) \<Rightarrow> (None, w1)
       | (Inl err, w1) \<Rightarrow>
           (if IgnoreNotFound err \<noteq> None then (Some err, w1)
            else generate_root_secret rt kc ns secretName w1)))"

text \<open>Returns key, certificate and error, in the order of the Go function.\<close>

definition ReadCaCrtAndCaKeyFromSecret ::
  "'w kube_client \<Rightarrow> string \<Rightarrow> string \<Rightarrow> 'w \<Rightarrow> (string \<times> string \<times> go_error option) \<times> 'w" where
  "ReadCaCrtAndCaKeyFromSecret kc ns name w =
     (case rget (kc_secrets kc) ns name w of
        (Inl err, w1) \<Rightarrow> (('''', '''', Some err), w1)
      | (Inr secret, w1) \<Rightarrow>
          (case map_of (sec_Data secret) rootCaCertKey of
             None \<Rightarrow> (('''', '''', Some (ErrorString (error_tmpl_ca_cert ns name rootCaCertKey))), w1)
           | Some ca_crt \<Rightarrow>
               (case map_of (sec_Data secret) rootCaKeyKey of
                  None \<Rightarrow> (('''', '''', Some (ErrorString (error_tmpl_ca_cert ns name rootCaKeyKey))), w1)
                | Some ca_key \<Rightarrow> ((ca_key, ca_crt, None), w1))))"

definition GetRayTLSConfigString :: string where
  "GetRayTLSConfigString = join_lines
     [''#!/bin/sh'',
      '''',
      ''## Create tls.key'',
      ''openssl genrsa -out /home/ray/tls.key 2048'',
      '''',
      ''IP_3='' @ [CHR 0x22] @ [CHR 0x22],
      ''if [ '' @ [CHR 0x22] @ ''${RAY_VMSERVICE_IP}'' @ [CHR 0x22] @ '' ]; then'',
      ''IP_3='' @ [CHR 0x22] @ ''IP.3 = $RAY_VMSERVICE_IP'' @ [CHR 0x22],
      ''fi'',
      '''',
      ''## Write CSR Config'',
      ''cat > /home/ray/csr.conf <<EOF'',
      [CHR 0x09] @ ''[ req ]'',
      [CHR 0x09] @ ''default_bits = 2048'',
      [CHR 0x09] @ ''prompt = no'',
      [CHR 0x09] @ ''default_md = sha256'',
      [CHR 0x09] @ ''req_extensions = req_ext'',
      [CHR 0x09] @ ''distinguished_name = dn'',
      '''',
      [CHR 0x09] @ ''[ dn ]'',
      [CHR 0x09] @ ''C = US'',
      [CHR 0x09] @ ''ST = California'',
      [CHR 0x09] @ ''L = San Fransisco'',
      [CHR 0x09] @ ''O = ray'',
      [CHR 0x09] @ ''OU = ray'',
      [CHR 0x09] @ ''CN = *.ray.io'',
      '''',
      [CHR 0x09] @ ''[ req_ext ]'',
      [CHR 0x09] @ ''subjectAltName = @alt_names'',
      '''',
      [CHR 0x09] @ ''[ alt_names ]'',
      [CHR 0x09] @ ''DNS.1 = localhost'',
      [CHR 0x09] @ ''IP.1 = 127.0.0.1'',
      [CHR 0x09] @ ''IP.2 = $(hostname -I | awk '' @ [CHR 0x27] @ ''{print $1}'' @ [CHR 0x27] @ '')'',
      [CHR 0x09] @ ''$IP_3'',
      ''EOF'',
      '''',
      ''## Create CSR using tls.key'',
      ''openssl req -new -key /home/ray/tls.key -out /home/ray/ca.csr -config /home/ray/csr.conf'',
      '''',
      ''## Write cert config'',
      ''cat > /home/ray/cert.conf <<EOF'',
      [CHR 0x09] @ ''authorityKeyIdentifier=keyid,issuer'',
      [CHR 0x09] @ ''basicConstraints=CA:FALSE'',
      [CHR 0x09] @ ''keyUsage = digitalSignature, nonRepudiation, keyEncipherment, dataEncipherment'',
      [CHR 0x09] @ ''subjectAltName = @alt_names'',
      '''',
      [CHR 0x09] @ ''[alt_names]'',
      [CHR 0x09] @ ''DNS.1 = localhost'',
      [CHR 0x09] @ ''IP.1 = 127.0.0.1'',
      [CHR 0x09] @ ''IP.2 = $(hostname -I | awk '' @ [CHR 0x27] @ ''{print $1}'' @ [CHR 0x27] @ '')'',
      [CHR 0x09] @ ''$IP_3'',
      ''EOF'',
      '''',
      ''## Generate tls.cert'',
      ''openssl x509 -req '' @ [CHR 0x5C],
      [CHR 0x09] @ ''-in /home/ray/ca.csr '' @ [CHR 0x5C],
      [CHR 0x09] @ ''-CA /home/ray/ca.crt -CAkey /home/ray/ca.key '' @ [CHR 0x5C],
      [CHR 0x09] @ ''-CAcreateserial -out /home/ray/tls.crt '' @ [CHR 0x5C],
      [CHR 0x09] @ ''-days 365 '' @ [CHR 0x5C],
      [CHR 0x09] @ ''-sha256 -extfile /home/ray/cert.conf'']"

section \<open>What the operations do\<close>

text \<open>The secret that holds the root certificate of a cluster.\<close>

abbreviation root_key :: "string \<Rightarrow> string \<Rightarrow> object_key" where
  "root_key ns c \<equiv> (ns, c @ RootCaSecretSuffix)"

lemma root_secret_admit [simp]:
  "map_of (sec_Data (admit_secret (root_secret ns n ca k))) rootCaCertKey = Some ca"
  "map_of (sec_Data (admit_secret (root_secret ns n ca k))) rootCaKeyKey = Some k"
  "sec_meta (root_secret ns n ca k) = new_meta ns n"
  by (simp_all add: admit_secret_def root_secret_def rootCaCertKey_def rootCaKeyKey_def)

text \<open>
  A root certificate and its key as the code means them, made from the world \<open>w\<close> on: the runtime
  generates a key of 4096 bits, and with it the self-signed certificate of the template, valid
  for ten years from that moment.
\<close>

definition generated_pair :: "'w go_runtime \<Rightarrow> 'w \<Rightarrow> string \<Rightarrow> string \<Rightarrow> bool" where
  "generated_pair rt w crt key \<longleftrightarrow> (\<exists>t0 t1 w1 w2 w3 w4. rt_now rt w = (t0, w1) \<and> rt_now rt w1 = (t1, w2) \<and>
     rt_rsa_generate rt 4096 w2 = (Inr key, w3) \<and>
     rt_x509_create rt (root_certificate t0 (rt_add_date rt t1 10 0 0)) key w3 = (Inr crt, w4))"

context operator_env
begin

lemma generate_root_secret_post:
  assumes "generate_root_secret rt kc ns n w = (r, w')"
  shows "\<exists>z. store w' = (store w)\<lparr>sto_secrets := (sto_secrets (store w))((ns, n) := z)\<rparr> \<and>
    (r = None \<longrightarrow> (\<exists>cert k. generated_pair rt w cert k \<and> z = Some (admit_secret (root_secret ns n
       (rt_pem_encode rt ''CERTIFICATE'' cert) (rt_pem_encode rt ''RSA PRIVATE KEY'' k)))))"
proof -
  have unchanged: ?thesis if "store w' = store w" "r \<noteq> None"
    using that by (intro exI [of _ "sto_secrets (store w) (ns, n)"]) auto
  obtain t2 w2 t3 w3 where now: "rt_now rt w = (t2, w2)" "rt_now rt w2 = (t3, w3)" by fastforce
  obtain k w4 where rsa: "rt_rsa_generate rt 4096 w3 = (k, w4)" by fastforce
  from now rsa have s4: "store w4 = store w" by (simp add: now_store rsa_store)
  show ?thesis
  proof (cases k)
    case (Inl err)
    with assms now rsa s4 show ?thesis by (intro unchanged) (auto simp: generate_root_secret_def)
  next
    case (Inr kk)
    obtain x w5 where x5: "rt_x509_create rt (root_certificate t2 (rt_add_date rt t3 10 0 0)) kk w4 = (x, w5)"
      by fastforce
    with s4 have s5: "store w5 = store w" by (simp add: x509_store)
    show ?thesis
    proof (cases x)
      case (Inl err)
      with assms now rsa Inr x5 s5 show ?thesis
        by (intro unchanged) (auto simp: generate_root_secret_def Let_def)
    next
      case (Inr cert)
      let ?s = "root_secret ns n (rt_pem_encode rt ''CERTIFICATE'' cert) (rt_pem_encode rt ''RSA PRIVATE KEY'' kk)"
      obtain y w6 where cr: "rcreate (kc_secrets kc) ?s w5 = (y, w6)" by fastforce
      have made: "generated_pair rt w cert kk"
        using now rsa \<open>k = Inr kk\<close> x5 Inr unfolding generated_pair_def by blast
      have w': "w' = w6" and r: "r = (case y of Inl e \<Rightarrow> Some e | Inr _ \<Rightarrow> None)"
        using assms now rsa \<open>k = Inr kk\<close> x5 Inr cr by (auto simp: generate_root_secret_def Let_def split: sum.splits)
      show ?thesis
      proof (cases y)
        case (Inl e)
        with secrets.create_error [of ?s w5 e w6] cr s5 w' r show ?thesis by auto
      next
        case (Inr s)
        with secrets.create_ok [of ?s w5 s w6] cr s5 w' r made show ?thesis by auto
      qed
    qed
  qed
qed

text \<open>
  Creating the root certificate touches at most its secret; if it returns nil, a secret that
  was there is kept and a missing one now holds a fresh pair.
\<close>

lemma CreateVMRayClusterRootSecret_post:
  assumes "CreateVMRayClusterRootSecret rt kc ns c w = (r, w')"
  shows "\<exists>z. store w' = (store w)\<lparr>sto_secrets := (sto_secrets (store w))(root_key ns c := z)\<rparr> \<and>
    (r = None \<longrightarrow> (case sto_secrets (store w) (root_key ns c) of
       Some y \<Rightarrow> z = Some y
     | None \<Rightarrow> \<exists>cert k. generated_pair rt (snd (rget (kc_secrets kc) ns (c @ RootCaSecretSuffix) w)) cert k \<and>
         z = Some (admit_secret (root_secret ns (c @ RootCaSecretSuffix)
         (rt_pem_encode rt ''CERTIFICATE'' cert) (rt_pem_encode rt ''RSA PRIVATE KEY'' k)))))"
proof -
  let ?n = "c @ RootCaSecretSuffix"
  have unchanged: ?thesis
    if "store w' = store w" "r = None \<longrightarrow> sto_secrets (store w) (root_key ns c) \<noteq> None"
    using that by (intro exI [of _ "sto_secrets (store w) (root_key ns c)"]) auto
  obtain g w1 where get: "rget (kc_secrets kc) ns ?n w = (g, w1)" by fastforce
  show ?thesis
  proof (cases g)
    case (Inr y)
    with assms get secrets.get_found [of ns ?n w y w1] show ?thesis
      by (intro unchanged) (auto simp: CreateVMRayClusterRootSecret_def)
  next
    case (Inl e)
    with get secrets.get_error have s1: "store w1 = store w"
      and nf: "IsNotFound e \<longrightarrow> sto_secrets (store w) (root_key ns c) = None" by auto
    show ?thesis
    proof (cases "IsNotFound e")
      case False
      with assms get Inl s1 show ?thesis
        by (intro unchanged) (auto simp: CreateVMRayClusterRootSecret_def)
    next
      case True
      with assms get Inl have "generate_root_secret rt kc ns ?n w1 = (r, w')"
        by (simp add: CreateVMRayClusterRootSecret_def)
      from generate_root_secret_post [OF this] s1 nf True get show ?thesis by simp
    qed
  qed
qed

lemma ReadCaCrtAndCaKeyFromSecret_store:
  "ReadCaCrtAndCaKeyFromSecret kc ns n w = (r, w') \<Longrightarrow> store w' = store w"
  by (auto simp: ReadCaCrtAndCaKeyFromSecret_def dest: secrets.get_found secrets.get_error
      split: prod.splits sum.splits option.splits)

end

context reliable_env
begin

lemma CreateVMRayClusterRootSecret_succeeds:
  "\<exists>w'. CreateVMRayClusterRootSecret rt kc ns c w = (None, w')"
proof (cases "sto_secrets (store w) (root_key ns c)")
  case (Some y)
  with rsecrets.get_present obtain w1 where "rget (kc_secrets kc) ns (c @ RootCaSecretSuffix) w = (Inr y, w1)"
    by blast
  then show ?thesis by (simp add: CreateVMRayClusterRootSecret_def)
next
  case None
  with rsecrets.get_absent obtain e w1 where
    get: "rget (kc_secrets kc) ns (c @ RootCaSecretSuffix) w = (Inl e, w1)" "IsNotFound e" by blast
  with secrets.get_error have s1: "store w1 = store w" by blast
  obtain t2 w2 t3 w3 where now: "rt_now rt w1 = (t2, w2)" "rt_now rt w2 = (t3, w3)" by fastforce
  obtain k w4 where rsa: "rt_rsa_generate rt 4096 w3 = (Inr k, w4)" using rsa_succeeds by blast
  obtain x w5 where x5: "rt_x509_create rt (root_certificate t2 (rt_add_date rt t3 10 0 0)) k w4 = (Inr x, w5)"
    using x509_succeeds by blast
  let ?s = "root_secret ns (c @ RootCaSecretSuffix) (rt_pem_encode rt ''CERTIFICATE'' x)
    (rt_pem_encode rt ''RSA PRIVATE KEY'' k)"
  from now rsa x5 s1 None have "sto_secrets (store w5) (meta_key (sec_meta ?s)) = None"
    by (simp add: now_store rsa_store x509_store)
  with rsecrets.create_absent obtain y w6 where "rcreate (kc_secrets kc) ?s w5 = (Inr y, w6)" by blast
  with get now rsa x5 show ?thesis
    by (simp add: CreateVMRayClusterRootSecret_def generate_root_secret_def)
qed

lemma ReadCaCrtAndCaKeyFromSecret_present:
  assumes "sto_secrets (store w) (ns, n) = Some s"
    and "map_of (sec_Data s) rootCaCertKey = Some crt" and "map_of (sec_Data s) rootCaKeyKey = Some k"
  shows "\<exists>w'. ReadCaCrtAndCaKeyFromSecret kc ns n w = ((k, crt, None), w')"
proof -
  from rsecrets.get_present [OF assms(1)] obtain w' where "rget (kc_secrets kc) ns n w = (Inr s, w')" by blast
  with assms(2,3) show ?thesis by (simp add: ReadCaCrtAndCaKeyFromSecret_def)
qed

end

text \<open>
  C35: in an environment without faults the root certificate of a cluster that has none is
  created and read back: the reader gets the encoded key the runtime generates with 4096 bits,
  once the lookup of the secret has failed, and the encoded certificate it makes with that key.
  A later reconcile that asks for it again changes nothing, so the cluster keeps one root for
  its whole life.
\<close>

theorem root_certificate_roundtrip:
  assumes "reliable_env kc store vm_admit vs_admit rt"
    and "sto_secrets (store w) (root_key ns c) = None"
  shows "\<exists>w1 k crt w2 w3. CreateVMRayClusterRootSecret rt kc ns c w = (None, w1) \<and>
    generated_pair rt (snd (rget (kc_secrets kc) ns (c @ RootCaSecretSuffix) w)) crt k \<and>
    ReadCaCrtAndCaKeyFromSecret kc ns (c @ RootCaSecretSuffix) w1 =
      ((rt_pem_encode rt ''RSA PRIVATE KEY'' k, rt_pem_encode rt ''CERTIFICATE'' crt, None), w2) \<and>
    CreateVMRayClusterRootSecret rt kc ns c w2 = (None, w3) \<and> store w3 = store w1"
proof -
  note env = assms(1) and op = reliable_env.axioms(1) [OF assms(1)]
  obtain w1 where c1: "CreateVMRayClusterRootSecret rt kc ns c w = (None, w1)"
    using reliable_env.CreateVMRayClusterRootSecret_succeeds [OF env] by blast
  from operator_env.CreateVMRayClusterRootSecret_post [OF op c1] assms(2) obtain crt k where
    made: "generated_pair rt (snd (rget (kc_secrets kc) ns (c @ RootCaSecretSuffix) w)) crt k" and
    s1: "sto_secrets (store w1) (root_key ns c) = Some (admit_secret (root_secret ns (c @ RootCaSecretSuffix)
      (rt_pem_encode rt ''CERTIFICATE'' crt) (rt_pem_encode rt ''RSA PRIVATE KEY'' k)))"
    by auto
  from reliable_env.ReadCaCrtAndCaKeyFromSecret_present [OF env s1] obtain w2 where
    rd: "ReadCaCrtAndCaKeyFromSecret kc ns (c @ RootCaSecretSuffix) w1 =
      ((rt_pem_encode rt ''RSA PRIVATE KEY'' k, rt_pem_encode rt ''CERTIFICATE'' crt, None), w2)"
    by auto
  from operator_env.ReadCaCrtAndCaKeyFromSecret_store [OF op rd] have s2: "store w2 = store w1" .
  obtain w3 where c3: "CreateVMRayClusterRootSecret rt kc ns c w2 = (None, w3)"
    using reliable_env.CreateVMRayClusterRootSecret_succeeds [OF env] by blast
  from operator_env.CreateVMRayClusterRootSecret_post [OF op c3] s1 s2 have "store w3 = store w1"
    by (auto simp: fun_upd_idem)
  with c1 made rd c3 show ?thesis by blast
qed

definition empty_store :: api_store where
  "empty_store = \<lparr>sto_secrets = Map.empty, sto_serviceaccounts = Map.empty, sto_roles = Map.empty,
     sto_rolebindings = Map.empty, sto_virtualmachines = Map.empty, sto_vmservices = Map.empty,
     sto_vmimages = Map.empty, sto_storageclasses = Map.empty, sto_vmclasses = Map.empty,
     sto_clusters = Map.empty\<rparr>"

definition empty_world :: mem_world where
  "empty_world = \<lparr>mw_store = empty_store, mw_choices = [], mw_clock = 7\<rparr>"

theorem root_certificate_roundtrip_witness:
  "\<exists>w1 k crt w2 w3. CreateVMRayClusterRootSecret mem_runtime mem_client ''ns'' ''ray'' empty_world = (None, w1) \<and>
    generated_pair mem_runtime (snd (rget (kc_secrets mem_client) ''ns'' (''ray'' @ RootCaSecretSuffix) empty_world)) crt k \<and>
    ReadCaCrtAndCaKeyFromSecret mem_client ''ns'' (''ray'' @ RootCaSecretSuffix) w1 =
      ((rt_pem_encode mem_runtime ''RSA PRIVATE KEY'' k, rt_pem_encode mem_runtime ''CERTIFICATE'' crt, None), w2) \<and>
    CreateVMRayClusterRootSecret mem_runtime mem_client ''ns'' ''ray'' w2 = (None, w3) \<and>
    mem_store w3 = mem_store w1"
  by (rule root_certificate_roundtrip [OF mem_reliable_env])
     (simp add: mem_store_def empty_world_def empty_store_def keyed_def Let_def)

text \<open>
  the two ways a stored root secret can be incomplete are reported, with nothing
  returned; both messages speak of the certificate, the one for a missing key too, and the
  message meant for the key is never produced.
\<close>

theorem ReadCaCrtAndCaKeyFromSecret_missing:
  assumes "rget (kc_secrets kc) ns n w = (Inr s, w')"
    and "map_of (sec_Data s) rootCaKeyKey = None \<or> map_of (sec_Data s) rootCaCertKey = None"
  shows "\<exists>k. ReadCaCrtAndCaKeyFromSecret kc ns n w =
      (('''', '''', Some (ErrorString (error_tmpl_ca_cert ns n k))), w') \<and>
    k = (if map_of (sec_Data s) rootCaCertKey = None then rootCaCertKey else rootCaKeyKey) \<and>
    error_tmpl_ca_cert ns n k \<noteq> error_tmpl_ca_key ns n k"
  using assms
  by (auto simp: ReadCaCrtAndCaKeyFromSecret_def error_tmpl_ca_cert_def error_tmpl_ca_key_def
      split: option.splits)

definition half_secret :: Secret where
  "half_secret = \<lparr>sec_meta = new_meta ''ns'' ''ray-root-cert'', sec_Type = ''Opaque'',
     sec_Data = [(rootCaCertKey, ''pem'')], sec_StringData = []\<rparr>"

theorem ReadCaCrtAndCaKeyFromSecret_missing_witness:
  "let w = empty_world\<lparr>mw_store := empty_store\<lparr>sto_secrets := [(''ns'', ''ray-root-cert'') \<mapsto> half_secret]\<rparr>\<rparr> in
   \<exists>k. ReadCaCrtAndCaKeyFromSecret mem_client ''ns'' ''ray-root-cert'' w =
      (('''', '''', Some (ErrorString (error_tmpl_ca_cert ''ns'' ''ray-root-cert'' k))), w) \<and> k = rootCaKeyKey"
proof -
  let ?w = "empty_world\<lparr>mw_store := empty_store\<lparr>sto_secrets := [(''ns'', ''ray-root-cert'') \<mapsto> half_secret]\<rparr>\<rparr>"
  have g: "rget (kc_secrets mem_client) ''ns'' ''ray-root-cert'' ?w = (Inr half_secret, ?w)"
    by (simp add: mem_api_def mem_store_def keyed_def half_secret_def Let_def)
  have m: "map_of (sec_Data half_secret) rootCaKeyKey = None \<or> map_of (sec_Data half_secret) rootCaCertKey = None"
    and "map_of (sec_Data half_secret) rootCaCertKey \<noteq> None"
    by (simp_all add: half_secret_def rootCaCertKey_def rootCaKeyKey_def)
  then show ?thesis using ReadCaCrtAndCaKeyFromSecret_missing [OF g m] by (auto simp: Let_def)
qed

end
