(* ===== verification/Controller.thy ===== *)
theory Controller
  imports Node_Lcm Tls_Utils
begin

text \<open>
  The reconciler, \<^verbatim>\<open>internal/controller\<close>: one call of \<open>Reconcile\<close> fetches the cluster, and either
  tears it down or moves its head and then its workers one step on, and writes the observed
  state back. The Go code mutates the fetched instance in place; the model returns it. The
  helpers for finalizers come from a library and are the parameter \<open>cu\<close>, with their
  documented behaviour stated in the locale \<^verbatim>\<open>finalizer_util\<close>. Logging is left out.
\<close>

section \<open>Constants and helpers\<close>

definition finalizerName :: string where "finalizerName = ''vmraycluster.vmray.broadcom.com''"
definition HeadNodeNounceLabel :: string where "HeadNodeNounceLabel = ''vmray.kubernetes.io/head-nounce''"
definition nouceLength :: nat where "nouceLength = 5"

text \<open>Durations in seconds.\<close>

definition defaultRequeueDuration :: nat where "defaultRequeueDuration = 60"
definition headRequeueDuration :: nat where "headRequeueDuration = 15"

definition alphanumeric :: string where "alphanumeric = ''abcdefghijlkmnopqrstuvwxyz0123456789''"

record controllerutil =
  cu_ContainsFinalizer :: "ObjectMeta \<Rightarrow> string \<Rightarrow> bool"
  cu_AddFinalizer :: "ObjectMeta \<Rightarrow> string \<Rightarrow> ObjectMeta"
  cu_RemoveFinalizer :: "ObjectMeta \<Rightarrow> string \<Rightarrow> ObjectMeta"

locale finalizer_util =
  fixes cu :: controllerutil
  assumes contains: "cu_ContainsFinalizer cu m f \<longleftrightarrow> f \<in> set (om_Finalizers m)"
    and add: "cu_AddFinalizer cu m f =
      (if f \<in> set (om_Finalizers m) then m else m\<lparr>om_Finalizers := om_Finalizers m @ [f]\<rparr>)"
    and remove: "cu_RemoveFinalizer cu m f = m\<lparr>om_Finalizers := filter (\<lambda>g. g \<noteq> f) (om_Finalizers m)\<rparr>"

definition list_finalizers :: controllerutil where
  "list_finalizers = \<lparr>cu_ContainsFinalizer = (\<lambda>m f. f \<in> set (om_Finalizers m)),
     cu_AddFinalizer = (\<lambda>m f. if f \<in> set (om_Finalizers m) then m else m\<lparr>om_Finalizers := om_Finalizers m @ [f]\<rparr>),
     cu_RemoveFinalizer = (\<lambda>m f. m\<lparr>om_Finalizers := filter (\<lambda>g. g \<noteq> f) (om_Finalizers m)\<rparr>)\<rparr>"

lemma list_finalizer_util: "finalizer_util list_finalizers"
  by unfold_locales (simp_all add: list_finalizers_def)

interpretation list_finalizers: finalizer_util list_finalizers
  by (rule list_finalizer_util)

text \<open>Reading a label: a missing one, or a nil map, gives the empty string.\<close>

definition label_of :: "ObjectMeta \<Rightarrow> string \<Rightarrow> string" where
  "label_of m k = (case map_of (entries (om_Labels m)) k of None \<Rightarrow> '''' | Some v \<Rightarrow> v)"

abbreviation cluster_nounce :: "VMRayCluster \<Rightarrow> string" where
  "cluster_nounce c \<equiv> label_of (vc_ObjectMeta c) HeadNodeNounceLabel"

abbreviation head_name :: "VMRayCluster \<Rightarrow> string" where
  "head_name c \<equiv> GetHeadNodeName (vc_Name c) (cluster_nounce c)"

abbreviation upd_status :: "(VMRayClusterStatus \<Rightarrow> VMRayClusterStatus) \<Rightarrow> VMRayCluster \<Rightarrow> VMRayCluster" where
  "upd_status f c \<equiv> c\<lparr>vc_Status := f (vc_Status c)\<rparr>"

fun createRandomNounce :: "'w go_runtime \<Rightarrow> nat \<Rightarrow> 'w \<Rightarrow> string \<times> 'w" where
  "createRandomNounce rt 0 w = ('''', w)"
| "createRandomNounce rt (Suc n) w =
     (case rand_Intn rt (length alphanumeric) w of (i, w1) \<Rightarrow>
      (case createRandomNounce rt n w1 of (rest, w2) \<Rightarrow> ((alphanumeric ! i) # rest, w2)))"

definition fetchRayClusterRequestor :: "VMRayCluster \<Rightarrow> RayClusterRequestor" where
  "fetchRayClusterRequestor c =
     (if map_of (entries (om_Labels (vc_ObjectMeta c))) RayClusterRequestorLabel = Some RayClusterRequestorRayCLI
      then RayCLI else K8S)"

definition getMinWorkerNodes :: "nat list \<Rightarrow> VMRayCluster \<Rightarrow> uint" where
  "getMinWorkerNodes cs c =
     foldl (\<lambda>worker_count nt. worker_count + nt_MinWorkers (snd nt)) 0
       (go_range cs (nc_NodeTypes (spec_NodeConfig (vc_Spec c))))"

definition addErrorCondition ::
  "'w go_runtime \<Rightarrow> go_error \<Rightarrow> VMRayCluster \<Rightarrow> string \<Rightarrow> string \<Rightarrow> 'w \<Rightarrow> VMRayCluster \<times> 'w" where
  "addErrorCondition rt err c ty reason w =
     (case rt_now rt w of (now, w1) \<Rightarrow>
       (upd_status (\<lambda>st. st\<lparr>st_Conditions := st_Conditions st @
          [\<lparr>cond_Type = ty, cond_Status = ConditionFalse, cond_LastTransitionTime = now,
            cond_Reason = reason, cond_Message = Error err\<rparr>]\<rparr>) c, w1))"

section \<open>Head and workers\<close>

definition head_request :: "VMRayCluster \<Rightarrow> NodeLcmRequest" where
  "head_request c = (let spec = vc_Spec c in
     \<lparr>lr_Namespace = vc_Namespace c, lr_Clustername = vc_Name c, lr_Nounce = cluster_nounce c,
      lr_Name = head_name c, lr_NodeType = hn_NodeType (spec_HeadNode spec),
      lr_DockerImage = spec_Image spec, lr_ApiServer = spec_ApiServer spec, lr_EnableTLS = spec_EnableTLS spec,
      lr_HeadNodeConfig = spec_HeadNode spec, lr_WorkerNodeConfig = spec_WorkerNode spec,
      lr_NodeConfig = spec_NodeConfig spec, lr_DockerConfig = spec_DockerConfig spec,
      lr_NodeStatus = st_HeadNodeStatus (vc_Status c), lr_HeadNodeStatus = None,
      lr_VMServiceStatus = Some (st_VMServiceStatus (vc_Status c)),
      lr_RayClusterRequestor = fetchRayClusterRequestor c\<rparr>)"

definition worker_request :: "VMRayCluster \<Rightarrow> string \<Rightarrow> string \<Rightarrow> VMRayNodeStatus \<Rightarrow> NodeLcmRequest" where
  "worker_request c name nodeTypeName status = (let spec = vc_Spec c in
     \<lparr>lr_Namespace = vc_Namespace c, lr_Clustername = vc_Name c, lr_Nounce = cluster_nounce c,
      lr_Name = name, lr_NodeType = nodeTypeName,
      lr_DockerImage = spec_Image spec, lr_ApiServer = spec_ApiServer spec, lr_EnableTLS = spec_EnableTLS spec,
      lr_HeadNodeConfig = spec_HeadNode spec, lr_WorkerNodeConfig = spec_WorkerNode spec,
      lr_NodeConfig = spec_NodeConfig spec, lr_DockerConfig = spec_DockerConfig spec,
      lr_NodeStatus = status, lr_HeadNodeStatus = Some (st_HeadNodeStatus (vc_Status c)),
      lr_VMServiceStatus = None,
      lr_RayClusterRequestor = fetchRayClusterRequestor c\<rparr>)"

type_synonym 'w step_result = "VMRayCluster \<times> go_error option outcome \<times> 'w"

text \<open>The manager writes through the pointers to the head's status and the service status.\<close>

definition reconcileHeadNode :: "'w VmProvider \<Rightarrow> VMRayCluster \<Rightarrow> 'w \<Rightarrow> 'w step_result" where
  "reconcileHeadNode pvdr c w =
     (case ProcessNodeVmState pvdr (head_request c) w of (req, res, w1) \<Rightarrow>
       (upd_status (\<lambda>st. st\<lparr>st_HeadNodeStatus := lr_NodeStatus req,
          st_VMServiceStatus := (case lr_VMServiceStatus req of None \<Rightarrow> st_VMServiceStatus st | Some s \<Rightarrow> s)\<rparr>) c,
        res, w1))"

fun deleteNodes :: "'w VmProvider \<Rightarrow> string list \<Rightarrow> VMRayCluster \<Rightarrow> 'w \<Rightarrow> VMRayCluster \<times> go_error option \<times> 'w" where
  "deleteNodes pvdr [] c w = (c, None, w)"
| "deleteNodes pvdr (name # names) c w =
     (case pv_Delete pvdr (vc_Namespace c) name w of
        (Some err, w1) \<Rightarrow> (c, Some err, w1)
      | (None, w1) \<Rightarrow>
          deleteNodes pvdr names
            (upd_status (\<lambda>st. st\<lparr>st_CurrentWorkers := map_option (\<lambda>m. gomap_delete m name) (st_CurrentWorkers st)\<rparr>) c) w1)"

definition deleteWorkerNodes ::
  "'w go_runtime \<Rightarrow> 'w VmProvider \<Rightarrow> VMRayCluster \<Rightarrow> bool \<Rightarrow> 'w \<Rightarrow> VMRayCluster \<times> go_error option \<times> 'w" where
  "deleteWorkerNodes rt pvdr c all w =
     (case rt_range rt w of (cs, w1) \<Rightarrow>
      let nodesToDelete = filter (\<lambda>name. all \<or> map_of (entries (spec_AutoscalerDesiredWorkers (vc_Spec c))) name = None)
            (map fst (go_range cs (entries (st_CurrentWorkers (vc_Status c)))))
      in deleteNodes pvdr nodesToDelete c w1)"

fun desired_workers_steps ::
  "'w VmProvider \<Rightarrow> (string \<times> string) list \<Rightarrow> VMRayCluster \<Rightarrow> 'w \<Rightarrow> 'w step_result" where
  "desired_workers_steps pvdr [] c w = (c, Returns None, w)"
| "desired_workers_steps pvdr ((name, nodeTypeName) # rest) c w =
     (let status = (case map_of (entries (st_CurrentWorkers (vc_Status c))) name of
                      None \<Rightarrow> zero_VMRayNodeStatus | Some s \<Rightarrow> s)
      in (case ProcessNodeVmState pvdr (worker_request c name nodeTypeName status) w of
            (req, Panics msg, w1) \<Rightarrow> (c, Panics msg, w1)
          | (req, Returns err, w1) \<Rightarrow>
              (case st_CurrentWorkers (vc_Status c) of
                 None \<Rightarrow> (c, Panics ''assignment to entry in nil map'', w1)
               | Some m \<Rightarrow>
                   let c1 = upd_status (\<lambda>st. st\<lparr>st_CurrentWorkers := Some (gomap_set m name (lr_NodeStatus req))\<rparr>) c
                   in (case err of
                         Some e \<Rightarrow> (c1, Returns (Some e), w1)
                       | None \<Rightarrow> desired_workers_steps pvdr rest c1 w1))))"

definition reconcileDesiredWorkers ::
  "'w go_runtime \<Rightarrow> 'w VmProvider \<Rightarrow> VMRayCluster \<Rightarrow> 'w \<Rightarrow> 'w step_result" where
  "reconcileDesiredWorkers rt pvdr c w =
     (case rt_range rt w of (cs, w1) \<Rightarrow>
       desired_workers_steps pvdr (go_range cs (entries (spec_AutoscalerDesiredWorkers (vc_Spec c)))) c w1)"

text \<open>Nil maps are replaced by empty ones first.\<close>

definition init_workers :: "VMRayCluster \<Rightarrow> VMRayCluster" where
  "init_workers c =
     c\<lparr>vc_Status := (vc_Status c)\<lparr>st_CurrentWorkers := Some (entries (st_CurrentWorkers (vc_Status c)))\<rparr>,
       vc_Spec := (vc_Spec c)\<lparr>spec_AutoscalerDesiredWorkers := Some (entries (spec_AutoscalerDesiredWorkers (vc_Spec c)))\<rparr>\<rparr>"

definition reconcileWorkerNodes ::
  "'w go_runtime \<Rightarrow> 'w VmProvider \<Rightarrow> VMRayCluster \<Rightarrow> 'w \<Rightarrow> 'w step_result" where
  "reconcileWorkerNodes rt pvdr c w =
     (case deleteWorkerNodes rt pvdr (init_workers c) False w of
        (c1, Some err, w1) \<Rightarrow> (c1, Returns (Some err), w1)
      | (c1, None, w1) \<Rightarrow> reconcileDesiredWorkers rt pvdr c1 w1)"

section \<open>Dependencies\<close>

text \<open>\<^verbatim>\<open>slices.Compact\<close> replaces runs of equal elements by one.\<close>

fun slices_Compact :: "string list \<Rightarrow> string list" where
  "slices_Compact (x # y # xs) = (if x = y then slices_Compact (y # xs) else x # slices_Compact (y # xs))"
| "slices_Compact xs = xs"

text \<open>
  One lookup: a missing object is a condition and makes the state invalid, any other error
  ends the validation.
\<close>

definition check_dependency ::
  "'w go_runtime \<Rightarrow> ('w \<Rightarrow> (go_error + NamedObject) \<times> 'w) \<Rightarrow> string \<Rightarrow> VMRayCluster \<Rightarrow> 'w \<Rightarrow>
   (VMRayCluster \<times> (go_error + bool)) \<times> 'w" where
  "check_dependency rt get ty c w =
     (case get w of
        (Inr _, w1) \<Rightarrow> ((c, Inr False), w1)
      | (Inl err, w1) \<Rightarrow>
          (if IsNotFound err
           then (case addErrorCondition rt err c ty ResourceNotFoundReason w1 of (c1, w2) \<Rightarrow> ((c1, Inr True), w2))
           else ((c, Inl err), w1)))"

fun check_vmclasses ::
  "'w go_runtime \<Rightarrow> 'w kube_client \<Rightarrow> string list \<Rightarrow> bool \<Rightarrow> VMRayCluster \<Rightarrow> 'w \<Rightarrow>
   (VMRayCluster \<times> bool \<times> go_error option) \<times> 'w" where
  "check_vmclasses rt kc [] invalidState c w = ((c, invalidState, None), w)"
| "check_vmclasses rt kc (cls # rest) invalidState c w =
     (case check_dependency rt (rget (kc_vmclasses kc) (vc_Namespace c) cls) NodeConfigInvalidVMClass c w of
        ((c1, Inl err), w1) \<Rightarrow> ((c1, True, Some err), w1)
      | ((c1, Inr bad), w1) \<Rightarrow> check_vmclasses rt kc rest (invalidState \<or> bad) c1 w1)"

definition ValidateAuxiliaryDependencies ::
  "'w go_runtime \<Rightarrow> 'w kube_client \<Rightarrow> VMRayCluster \<Rightarrow> 'w \<Rightarrow> (VMRayCluster \<times> bool \<times> go_error option) \<times> 'w" where
  "ValidateAuxiliaryDependencies rt kc c w = (let nc = spec_NodeConfig (vc_Spec c) in
     (case check_dependency rt (rget (kc_vmimages kc) (vc_Namespace c) (nc_VMImage nc)) NodeConfigInvalidVMI c w of
        ((c1, Inl err), w1) \<Rightarrow> ((c1, True, Some err), w1)
      | ((c1, Inr bad1), w1) \<Rightarrow>
     (case check_dependency rt (kc_get_storageclass kc (vc_Namespace c) (nc_StorageClass nc)) NodeConfigInvalidStorageClass c1 w1 of
        ((c2, Inl err), w2) \<Rightarrow> ((c2, True, Some err), w2)
      | ((c2, Inr bad2), w2) \<Rightarrow>
     (case rt_range rt w2 of (cs, w3) \<Rightarrow>
        check_vmclasses rt kc (slices_Compact (map (nt_VMClass \<circ> snd) (go_range cs (nc_NodeTypes nc)))) (bad1 \<or> bad2) c2 w3))))"

section \<open>Finalizer, nounce and status\<close>

definition addFinalizerAndNounce ::
  "'w go_runtime \<Rightarrow> 'w kube_client \<Rightarrow> controllerutil \<Rightarrow> VMRayCluster \<Rightarrow> 'w \<Rightarrow> (go_error + VMRayCluster) \<times> 'w" where
  "addFinalizerAndNounce rt kc cu c w =
     (if om_DeletionTimestamp (vc_ObjectMeta c) = None \<and> \<not> cu_ContainsFinalizer cu (vc_ObjectMeta c) finalizerName
      then (let meta = cu_AddFinalizer cu (vc_ObjectMeta c) finalizerName;
                labels = entries (om_Labels meta)
            in (case map_of labels HeadNodeNounceLabel of
                  Some _ \<Rightarrow> kc_update_cluster kc (c\<lparr>vc_ObjectMeta := meta\<lparr>om_Labels := Some labels\<rparr>\<rparr>) w
                | None \<Rightarrow>
                    (case createRandomNounce rt nouceLength w of (nounce, w1) \<Rightarrow>
                      kc_update_cluster kc (c\<lparr>vc_ObjectMeta := meta\<lparr>om_Labels :=
                        Some (gomap_set labels HeadNodeNounceLabel nounce)\<rparr>\<rparr>) w1)))
      else (Inr c, w))"

definition removeFinalizer ::
  "'w kube_client \<Rightarrow> controllerutil \<Rightarrow> VMRayCluster \<Rightarrow> 'w \<Rightarrow> go_error option \<times> 'w" where
  "removeFinalizer kc cu c w =
     (if om_DeletionTimestamp (vc_ObjectMeta c) \<noteq> None \<and> cu_ContainsFinalizer cu (vc_ObjectMeta c) finalizerName
      then (case kc_update_cluster kc
              (c\<lparr>vc_ObjectMeta := cu_RemoveFinalizer cu (vc_ObjectMeta c) finalizerName\<rparr>) w of
              (Inl err, w1) \<Rightarrow> (Some err, w1)
            | (Inr _, w1) \<Rightarrow> (None, w1))
      else (None, w))"

text \<open>A result of the reconciler: when to come back (0 for never by itself) and the error.\<close>

type_synonym ctrl_result = "nat \<times> go_error option"

definition updateStatus ::
  "'w kube_client \<Rightarrow> VMRayCluster \<Rightarrow> VMRayCluster \<Rightarrow> nat \<Rightarrow> 'w \<Rightarrow> ctrl_result \<times> 'w" where
  "updateStatus kc orig cur duration w =
     (case kc_patch_status kc orig cur w of
        (Inl err, w1) \<Rightarrow> ((0, Some err), w1)
      | (Inr _, w1) \<Rightarrow> ((duration, None), w1))"

definition fetchVMRayCluster ::
  "'w kube_client \<Rightarrow> string \<Rightarrow> string \<Rightarrow> 'w \<Rightarrow> (go_error + VMRayCluster) \<times> 'w" where
  "fetchVMRayCluster kc ns name w = kc_get_cluster kc ns name w"

section \<open>Reconciliation\<close>

text \<open>
  How \<^verbatim>\<open>VMRayClusterReconcile\<close> ends: with an error and no status update, with a status update
  and a time to come back, or in a panic.
\<close>

datatype reconcile_exit = ExitError go_error | ExitUpdate nat | ExitPanic string

abbreviation set_state :: "VMRayClusterState \<Rightarrow> VMRayCluster \<Rightarrow> VMRayCluster" where
  "set_state s \<equiv> upd_status (st_ClusterState_update (\<lambda>_. s))"

text \<open>Step 4 and the end: workers only when the head's Ray process runs.\<close>

definition reconcile_workers_step ::
  "'w go_runtime \<Rightarrow> 'w VmProvider \<Rightarrow> VMRayCluster \<Rightarrow> 'w \<Rightarrow> VMRayCluster \<times> reconcile_exit \<times> 'w" where
  "reconcile_workers_step rt pvdr c w =
     (if ns_RayStatus (st_HeadNodeStatus (vc_Status c)) = RAY_RUNNING
      then (case reconcileWorkerNodes rt pvdr c w of
              (c1, Panics msg, w1) \<Rightarrow> (c1, ExitPanic msg, w1)
            | (c1, Returns None, w1) \<Rightarrow> (c1, ExitUpdate defaultRequeueDuration, w1)
            | (c1, Returns (Some err), w1) \<Rightarrow>
                (case rt_range rt w1 of (cs, w2) \<Rightarrow>
                  if of_nat (length (entries (st_CurrentWorkers (vc_Status c1)))) \<le> getMinWorkerNodes cs c1
                  then (case addErrorCondition rt err (set_state UNHEALTHY c1) VMRayClusterConditionWorkerNodeReady
                               FailureToDeployNodeReason w2 of
                          (c2, w3) \<Rightarrow> (c2, ExitUpdate defaultRequeueDuration, w3))
                  else (c1, ExitUpdate defaultRequeueDuration, w2)))
      else (c, ExitUpdate defaultRequeueDuration, w))"

definition reconcile_head_step ::
  "'w go_runtime \<Rightarrow> 'w VmProvider \<Rightarrow> VMRayCluster \<Rightarrow> 'w \<Rightarrow> VMRayCluster \<times> reconcile_exit \<times> 'w" where
  "reconcile_head_step rt pvdr c w =
     (case reconcileHeadNode pvdr c w of
        (c1, Panics msg, w1) \<Rightarrow> (c1, ExitPanic msg, w1)
      | (c1, Returns (Some err), w1) \<Rightarrow>
          (case addErrorCondition rt err (set_state UNHEALTHY c1) VMRayClusterConditionHeadNodeReady
                  FailureToDeployNodeReason w1 of
             (c2, w2) \<Rightarrow> (c2, ExitUpdate headRequeueDuration, w2))
      | (c1, Returns None, w1) \<Rightarrow> reconcile_workers_step rt pvdr c1 w1)"

definition reconcile_steps ::
  "'w go_runtime \<Rightarrow> 'w kube_client \<Rightarrow> controllerutil \<Rightarrow> 'w VmProvider \<Rightarrow> VMRayCluster \<Rightarrow> 'w \<Rightarrow>
   VMRayCluster \<times> reconcile_exit \<times> 'w" where
  "reconcile_steps rt kc cu pvdr c0 w =
     (let c = upd_status (\<lambda>st. st\<lparr>st_Conditions := [], st_ClusterState := HEALTHY\<rparr>) c0 in
      (case addFinalizerAndNounce rt kc cu c w of
         (Inl err, w1) \<Rightarrow> (c, ExitError err, w1)
       | (Inr c1, w1) \<Rightarrow>
      (case CreateVMRayClusterRootSecret rt kc (vc_Namespace c1) (vc_Name c1) w1 of
         (Some err, w2) \<Rightarrow> (c1, ExitError err, w2)
       | (None, w2) \<Rightarrow>
      (case ValidateAuxiliaryDependencies rt kc c1 w2 of
         ((c2, invalid, err), w3) \<Rightarrow>
           if invalid \<or> err \<noteq> None then (set_state UNHEALTHY c2, ExitUpdate defaultRequeueDuration, w3)
           else reconcile_head_step rt pvdr c2 w3))))"

definition VMRayClusterReconcile ::
  "'w go_runtime \<Rightarrow> 'w kube_client \<Rightarrow> controllerutil \<Rightarrow> 'w VmProvider \<Rightarrow> VMRayCluster \<Rightarrow> VMRayCluster \<Rightarrow> 'w \<Rightarrow>
   ctrl_result outcome \<times> 'w" where
  "VMRayClusterReconcile rt kc cu pvdr orig c w =
     (case reconcile_steps rt kc cu pvdr c w of
        (c1, ExitError err, w1) \<Rightarrow> (Returns (0, Some err), w1)
      | (c1, ExitPanic msg, w1) \<Rightarrow> (Panics msg, w1)
      | (c1, ExitUpdate duration, w1) \<Rightarrow>
          (case updateStatus kc orig c1 duration w1 of (res, w2) \<Rightarrow> (Returns res, w2)))"

definition VMRayClusterDelete ::
  "'w go_runtime \<Rightarrow> 'w VmProvider \<Rightarrow> VMRayCluster \<Rightarrow> 'w \<Rightarrow> VMRayCluster \<times> go_error option \<times> 'w" where
  "VMRayClusterDelete rt pvdr c w =
     (case pv_DeleteAuxiliaryResources pvdr (vc_Namespace c) (vc_Name c) w of
        (Some err, w1) \<Rightarrow>
          (case addErrorCondition rt err c VMRayClusterConditionClusterDelete FailureToDeleteAuxiliaryResourcesReason w1 of
             (c1, w2) \<Rightarrow> (c1, Some err, w2))
      | (None, w1) \<Rightarrow>
     (case pv_Delete pvdr (vc_Namespace c) (head_name c) w1 of
        (Some err, w2) \<Rightarrow>
          (case addErrorCondition rt err c VMRayClusterConditionClusterDelete FailureToDeleteHeadNodeReason w2 of
             (c1, w3) \<Rightarrow> (c1, Some err, w3))
      | (None, w2) \<Rightarrow>
     (case deleteWorkerNodes rt pvdr c True w2 of
        (c1, Some err, w3) \<Rightarrow>
          (case addErrorCondition rt err c1 VMRayClusterConditionClusterDelete FailureToDeleteWorkerNodeReason w3 of
             (c2, w4) \<Rightarrow> (c2, Some err, w4))
      | (c1, None, w3) \<Rightarrow> (c1, None, w3))))"

definition Reconcile ::
  "'w go_runtime \<Rightarrow> 'w kube_client \<Rightarrow> controllerutil \<Rightarrow> 'w VmProvider \<Rightarrow> string \<Rightarrow> string \<Rightarrow> 'w \<Rightarrow>
   ctrl_result outcome \<times> 'w" where
  "Reconcile rt kc cu pvdr ns name w =
     (case fetchVMRayCluster kc ns name w of
        (Inl err, w1) \<Rightarrow> (Returns (0, IgnoreNotFound err), w1)
      | (Inr instance, w1) \<Rightarrow>
          (if om_DeletionTimestamp (vc_ObjectMeta instance) \<noteq> None
           then (case VMRayClusterDelete rt pvdr instance w1 of
                   (c1, Some err, w2) \<Rightarrow>
                     (case updateStatus kc instance c1 defaultRequeueDuration w2 of (res, w3) \<Rightarrow> (Returns res, w3))
                 | (c1, None, w2) \<Rightarrow>
                     (case removeFinalizer kc cu c1 w2 of (err, w3) \<Rightarrow> (Returns (0, err), w3)))
           else VMRayClusterReconcile rt kc cu pvdr instance instance w1))"

section \<open>Invariant of the recorded status\<close>

abbreviation worker_status :: "VMRayCluster \<Rightarrow> string \<rightharpoonup> VMRayNodeStatus" where
  "worker_status c \<equiv> map_of (entries (st_CurrentWorkers (vc_Status c)))"

abbreviation worker_keys :: "VMRayCluster \<Rightarrow> string set" where
  "worker_keys c \<equiv> gomap_keys (entries (st_CurrentWorkers (vc_Status c)))"

abbreviation desired_keys :: "VMRayCluster \<Rightarrow> string set" where
  "desired_keys c \<equiv> gomap_keys (entries (spec_AutoscalerDesiredWorkers (vc_Spec c)))"

text \<open>Every recorded node status satisfies the invariant of the lifecycle manager.\<close>

definition workers_inv :: "VMRayNodeStatus gomap \<Rightarrow> bool" where
  "workers_inv m \<longleftrightarrow> (\<forall>n s. map_of m n = Some s \<longrightarrow> node_inv s)"

definition status_inv :: "VMRayClusterStatus \<Rightarrow> bool" where
  "status_inv st \<longleftrightarrow> node_inv (st_HeadNodeStatus st) \<and> workers_inv (entries (st_CurrentWorkers st))"

lemma workers_inv_Nil [simp]: "workers_inv []"
  by (simp add: workers_inv_def)

lemma workers_inv_set: "workers_inv m \<Longrightarrow> node_inv s \<Longrightarrow> workers_inv (gomap_set m n s)"
  by (simp add: workers_inv_def)

lemma workers_inv_restrict: "workers_inv m \<Longrightarrow> map_of m' = map_of m |` A \<Longrightarrow> workers_inv m'"
  by (auto simp: workers_inv_def restrict_map_def split: if_splits)

lemma ProcessNodeVmState_inv:
  assumes "ProcessNodeVmState pvdr req w = (req', Returns err, w')" and "node_inv (lr_NodeStatus req)"
  shows "node_inv (lr_NodeStatus req')"
  using ProcessNodeVmState_step [OF assms(1)] assms(2) lcm_step_inv by (auto simp: node_inv_def)

lemma addErrorCondition_result:
  assumes "addErrorCondition rt err c ty reason w = (c', w')"
  shows "vc_ObjectMeta c' = vc_ObjectMeta c \<and> vc_Spec c' = vc_Spec c \<and>
    (\<exists>t. vc_Status c' = (vc_Status c)\<lparr>st_Conditions := st_Conditions (vc_Status c) @
       [\<lparr>cond_Type = ty, cond_Status = ConditionFalse, cond_LastTransitionTime = t, cond_Reason = reason,
         cond_Message = Error err\<rparr>]\<rparr> \<and> rt_now rt w = (t, w'))"
  using assms by (auto simp: addErrorCondition_def split: prod.splits)

lemma reconcileHeadNode_inv:
  assumes "reconcileHeadNode pvdr c w = (c', Returns err, w')" and "status_inv (vc_Status c)"
  shows "status_inv (vc_Status c')"
proof -
  obtain req where "ProcessNodeVmState pvdr (head_request c) w = (req, Returns err, w')"
    and c': "c' = upd_status (\<lambda>st. st\<lparr>st_HeadNodeStatus := lr_NodeStatus req,
      st_VMServiceStatus := (case lr_VMServiceStatus req of None \<Rightarrow> st_VMServiceStatus st | Some s \<Rightarrow> s)\<rparr>) c"
    using assms(1) by (auto simp: reconcileHeadNode_def split: prod.splits)
  from ProcessNodeVmState_inv [OF this(1)] assms(2) have "node_inv (lr_NodeStatus req)"
    by (simp add: status_inv_def head_request_def Let_def)
  with assms(2) show ?thesis by (simp add: c' status_inv_def)
qed

text \<open>The instance with other current workers, and with some of them dropped.\<close>

abbreviation set_workers :: "VMRayNodeStatus gomap option \<Rightarrow> VMRayCluster \<Rightarrow> VMRayCluster" where
  "set_workers m c \<equiv> upd_status (\<lambda>st. st\<lparr>st_CurrentWorkers := m\<rparr>) c"

definition drop_workers :: "string list \<Rightarrow> VMRayCluster \<Rightarrow> VMRayCluster" where
  "drop_workers names c = set_workers (map_option (\<lambda>m. foldl gomap_delete m names) (st_CurrentWorkers (vc_Status c))) c"

lemma map_of_drop: "map_of (foldl gomap_delete m names) = map_of m |` (- set names)"
proof (induction names arbitrary: m)
  case (Cons n names)
  then show ?case by (auto simp: restrict_map_def fun_eq_iff)
qed (simp add: restrict_map_def)

lemma drop_workers_sel [simp]:
  "vc_ObjectMeta (drop_workers names c) = vc_ObjectMeta c" "vc_Spec (drop_workers names c) = vc_Spec c"
  "st_HeadNodeStatus (vc_Status (drop_workers names c)) = st_HeadNodeStatus (vc_Status c)"
  "st_CurrentWorkers (vc_Status (drop_workers names c)) = None \<longleftrightarrow> st_CurrentWorkers (vc_Status c) = None"
  by (simp_all add: drop_workers_def)

lemma drop_workers_status [simp]: "worker_status (drop_workers names c) = worker_status c |` (- set names)"
  by (cases "st_CurrentWorkers (vc_Status c)") (simp_all add: drop_workers_def map_of_drop)

lemma drop_workers_keys [simp]: "worker_keys (drop_workers names c) = worker_keys c - set names"
  using arg_cong [OF drop_workers_status, of dom] by (auto simp: gomap_keys_dom)

lemma drop_workers_Nil [simp]: "drop_workers [] c = c"
  by (simp add: drop_workers_def option.map_ident)

lemma drop_workers_Cons: "drop_workers names (drop_workers [n] c) = drop_workers (n # names) c"
  by (simp add: drop_workers_def option.map_comp o_def)

lemma deleteNodes_Cons:
  "deleteNodes pvdr (n # names) c w =
     (case pv_Delete pvdr (vc_Namespace c) n w of
        (Some err, w1) \<Rightarrow> (c, Some err, w1)
      | (None, w1) \<Rightarrow> deleteNodes pvdr names (drop_workers [n] c) w1)"
  by (simp add: drop_workers_def split: prod.splits option.splits)

lemma deleteNodes_result:
  assumes "deleteNodes pvdr names c w = (c', r, w')"
  shows "\<exists>ds rest. names = ds @ rest \<and> c' = drop_workers ds c \<and> (r = None \<longrightarrow> rest = [])"
  using assms
proof (induction names arbitrary: c w)
  case (Cons n names)
  obtain e w1 where d: "pv_Delete pvdr (vc_Namespace c) n w = (e, w1)" by fastforce
  show ?case
  proof (cases e)
    case (Some a)
    with Cons.prems d show ?thesis by (intro exI [of _ "[]"] exI [of _ "n # names"]) auto
  next
    case None
    with Cons.prems d have "deleteNodes pvdr names (drop_workers [n] c) w1 = (c', r, w')"
      by (simp add: deleteNodes_Cons del: deleteNodes.simps)
    from Cons.IH [OF this] obtain ds rest where
      "names = ds @ rest" "c' = drop_workers (n # ds) c" "r = None \<longrightarrow> rest = []"
      by (auto simp: drop_workers_Cons)
    then show ?thesis by (intro exI [of _ "n # ds"] exI [of _ rest]) simp
  qed
qed auto

text \<open>The workers a call of \<^const>\<open>deleteWorkerNodes\<close> sets out to delete.\<close>

definition deletable :: "VMRayCluster \<Rightarrow> bool \<Rightarrow> string set" where
  "deletable c all = {n \<in> worker_keys c. all \<or> n \<notin> desired_keys c}"

lemma deleteWorkerNodes_names:
  assumes "deleteWorkerNodes rt pvdr c all w = (c', r, w')"
  obtains names cs w1 where "rt_range rt w = (cs, w1)" "deleteNodes pvdr names c w1 = (c', r, w')"
    "set names = deletable c all"
proof -
  obtain cs w1 where r: "rt_range rt w = (cs, w1)" by fastforce
  let ?names = "filter (\<lambda>name. all \<or> map_of (entries (spec_AutoscalerDesiredWorkers (vc_Spec c))) name = None)
    (map fst (go_range cs (entries (st_CurrentWorkers (vc_Status c)))))"
  have "set ?names = deletable c all" by (auto simp: map_of_eq_None_iff deletable_def)
  with that r assms show thesis by (simp add: deleteWorkerNodes_def)
qed

lemma deleteWorkerNodes_result:
  assumes "deleteWorkerNodes rt pvdr c all w = (c', r, w')"
  shows "\<exists>ds. c' = drop_workers ds c \<and> set ds \<subseteq> deletable c all \<and> (r = None \<longrightarrow> set ds = deletable c all)"
proof -
  from assms obtain names cs w1 where d: "deleteNodes pvdr names c w1 = (c', r, w')" and n: "set names = deletable c all"
    by (rule deleteWorkerNodes_names)
  from deleteNodes_result [OF d] obtain ds rest where "names = ds @ rest" "c' = drop_workers ds c" "r = None \<longrightarrow> rest = []"
    by blast
  with n show ?thesis by (intro exI [of _ ds]) auto
qed

lemma desired_workers_steps_result:
  assumes "desired_workers_steps pvdr xs c w = (c', Returns r, w')" and "st_CurrentWorkers (vc_Status c) = Some m"
  shows "\<exists>m'. c' = set_workers (Some m') c \<and> (workers_inv m \<longrightarrow> workers_inv m') \<and>
    gomap_keys m \<subseteq> gomap_keys m' \<and> gomap_keys m' \<subseteq> gomap_keys m \<union> fst ` set xs \<and>
    (r = None \<longrightarrow> gomap_keys m' = gomap_keys m \<union> fst ` set xs)"
  using assms
proof (induction xs arbitrary: c w m)
  case Nil
  then show ?case by (intro exI [of _ m]) auto
next
  case (Cons x xs)
  obtain name ty where x: "x = (name, ty)" by fastforce
  let ?s = "case worker_status c name of None \<Rightarrow> zero_VMRayNodeStatus | Some s \<Rightarrow> s"
  obtain req res w1 where p: "ProcessNodeVmState pvdr (worker_request c name ty ?s) w = (req, res, w1)"
    by (metis surj_pair)
  from Cons.prems(1) x p obtain err where res: "res = Returns err"
    by (auto simp: Let_def split: outcome.splits option.splits)
  let ?m = "gomap_set m name (lr_NodeStatus req)" and ?c = "set_workers (Some (gomap_set m name (lr_NodeStatus req))) c"
  from Cons.prems(1,2) x p res
  have result: "(case err of Some e \<Rightarrow> (?c, Returns (Some e), w1) | None \<Rightarrow> desired_workers_steps pvdr xs ?c w1) = (c', Returns r, w')"
    by (simp add: Let_def)
  have inv: "workers_inv m \<longrightarrow> workers_inv ?m"
  proof
    assume m: "workers_inv m"
    then have "node_inv ?s" using Cons.prems(2) node_inv_zero by (auto simp: workers_inv_def split: option.splits)
    then have "node_inv (lr_NodeStatus req)"
      using ProcessNodeVmState_inv [OF p [unfolded res]] by (simp add: worker_request_def Let_def)
    with m show "workers_inv ?m" by (rule workers_inv_set)
  qed
  show ?case
  proof (cases err)
    case (Some e)
    with result inv x show ?thesis by (intro exI [of _ ?m]) auto
  next
    case None
    with result have "desired_workers_steps pvdr xs ?c w1 = (c', Returns r, w')" by simp
    from Cons.IH [OF this] obtain m' where "c' = set_workers (Some m') c"
      "workers_inv ?m \<longrightarrow> workers_inv m'" "gomap_keys ?m \<subseteq> gomap_keys m'"
      "gomap_keys m' \<subseteq> gomap_keys ?m \<union> fst ` set xs" "r = None \<longrightarrow> gomap_keys m' = gomap_keys ?m \<union> fst ` set xs" by auto
    with x inv show ?thesis by (intro exI [of _ m']) simp
  qed
qed

lemma reconcileWorkerNodes_result:
  assumes "reconcileWorkerNodes rt pvdr c w = (c', Returns r, w')"
  shows "(status_inv (vc_Status c) \<longrightarrow> status_inv (vc_Status c')) \<and> vc_ObjectMeta c' = vc_ObjectMeta c \<and>
    desired_keys c' = desired_keys c \<and> st_HeadNodeStatus (vc_Status c') = st_HeadNodeStatus (vc_Status c) \<and>
    worker_keys c \<inter> desired_keys c \<subseteq> worker_keys c' \<and> worker_keys c' \<subseteq> worker_keys c \<union> desired_keys c \<and>
    (r = None \<longrightarrow> worker_keys c' = desired_keys c)"
proof -
  let ?c = "init_workers c"
  have init: "worker_status ?c = worker_status c" "desired_keys ?c = desired_keys c"
    "vc_ObjectMeta ?c = vc_ObjectMeta c" "st_HeadNodeStatus (vc_Status ?c) = st_HeadNodeStatus (vc_Status c)"
    "worker_keys ?c = worker_keys c" "st_CurrentWorkers (vc_Status ?c) \<noteq> None"
    by (simp_all add: init_workers_def)
  obtain c1 r1 w1 where d: "deleteWorkerNodes rt pvdr ?c False w = (c1, r1, w1)" by (metis surj_pair)
  from deleteWorkerNodes_result [OF d] obtain ds where
    c1: "c1 = drop_workers ds ?c" and ds: "set ds \<subseteq> deletable ?c False" "r1 = None \<longrightarrow> set ds = deletable ?c False" by blast
  have del: "deletable ?c False = worker_keys c - desired_keys c" by (auto simp: deletable_def init)
  have inv1: "workers_inv (entries (st_CurrentWorkers (vc_Status c1)))" if "status_inv (vc_Status c)"
    using that drop_workers_status [of ds ?c] unfolding c1 init(1) status_inv_def
    by (blast intro: workers_inv_restrict)
  have head: "st_HeadNodeStatus (vc_Status c1) = st_HeadNodeStatus (vc_Status c)" by (simp add: c1 init)
  show ?thesis
  proof (cases r1)
    case (Some e)
    with assms(1) d have "c' = c1" "r = Some e" by (simp_all add: reconcileWorkerNodes_def)
    moreover have "worker_keys c1 = worker_keys c - set ds" by (simp add: c1 init)
    moreover have "status_inv (vc_Status c) \<longrightarrow> status_inv (vc_Status c1)"
      using inv1 head unfolding status_inv_def by simp
    ultimately show ?thesis using ds(1) del head by (auto simp: c1 init)
  next
    case None
    obtain m where m: "st_CurrentWorkers (vc_Status c1) = Some m" using init(6) by (auto simp: c1 drop_workers_def)
    from None d assms(1) have rd: "reconcileDesiredWorkers rt pvdr c1 w1 = (c', Returns r, w')"
      by (simp add: reconcileWorkerNodes_def)
    obtain cs w2 where "rt_range rt w1 = (cs, w2)" by fastforce
    with rd have steps: "desired_workers_steps pvdr (go_range cs (entries (spec_AutoscalerDesiredWorkers (vc_Spec c1)))) c1 w2 =
        (c', Returns r, w')" by (simp add: reconcileDesiredWorkers_def)
    from desired_workers_steps_result [OF steps m] obtain m' where
      c': "c' = set_workers (Some m') c1" and m': "workers_inv m \<longrightarrow> workers_inv m'"
      "gomap_keys m \<subseteq> gomap_keys m'" "gomap_keys m' \<subseteq> gomap_keys m \<union> desired_keys c1"
      "r = None \<longrightarrow> gomap_keys m' = gomap_keys m \<union> desired_keys c1" by auto
    have "gomap_keys m = worker_keys c1" using m by simp
    also have "\<dots> = worker_keys c \<inter> desired_keys c" using ds None del by (auto simp: c1 init)
    finally have km: "gomap_keys m = worker_keys c \<inter> desired_keys c" .
    have "desired_keys c1 = desired_keys c" by (simp add: c1 init)
    with km m' have "worker_keys c \<inter> desired_keys c \<subseteq> worker_keys c'" "worker_keys c' \<subseteq> worker_keys c \<union> desired_keys c"
      "r = None \<longrightarrow> worker_keys c' = desired_keys c" by (auto simp: c')
    moreover have "status_inv (vc_Status c) \<longrightarrow> status_inv (vc_Status c')"
      using m'(1) inv1 head m unfolding status_inv_def by (simp add: c')
    ultimately show ?thesis using head by (simp add: c' c1 init)
  qed
qed

section \<open>Under the provider's contract\<close>

context vm_provider
begin

text \<open>No call of the manager made by the controller panics.\<close>

lemma reconcileHeadNode_returns:
  assumes "reconcileHeadNode pv c w = (c', res, w')"
  shows "returns res"
proof -
  obtain req where "ProcessNodeVmState pv (head_request c) w = (req, res, w')"
    using assms by (auto simp: reconcileHeadNode_def split: prod.splits)
  then show ?thesis by (rule ProcessNodeVmState_returns) (simp add: head_request_def Let_def)
qed

lemma desired_workers_steps_returns:
  assumes "desired_workers_steps pv xs c w = (c', res, w')" and "st_CurrentWorkers (vc_Status c) \<noteq> None"
  shows "returns res"
  using assms
proof (induction xs arbitrary: c w)
  case (Cons x xs)
  obtain name ty where x: "x = (name, ty)" by fastforce
  let ?s = "case worker_status c name of None \<Rightarrow> zero_VMRayNodeStatus | Some s \<Rightarrow> s"
  obtain req r w1 where p: "ProcessNodeVmState pv (worker_request c name ty ?s) w = (req, r, w1)"
    by (metis surj_pair)
  have "returns r" by (rule ProcessNodeVmState_returns [OF p]) (simp add: worker_request_def Let_def)
  then obtain err where r: "r = Returns err" by (auto simp: returns_iff)
  from Cons.prems(2) obtain m where m: "st_CurrentWorkers (vc_Status c) = Some m" by blast
  show ?case
  proof (cases err)
    case (Some e)
    with Cons.prems(1) x p r m show ?thesis by (auto simp: Let_def)
  next
    case None
    with Cons.prems(1) x p r m have "desired_workers_steps pv xs
        (set_workers (Some (gomap_set m name (lr_NodeStatus req))) c) w1 = (c', res, w')" by (simp add: Let_def)
    then show ?thesis by (rule Cons.IH) simp
  qed
qed auto

lemma reconcileWorkerNodes_returns:
  assumes "reconcileWorkerNodes rt pv c w = (c', res, w')"
  shows "returns res"
proof -
  obtain c1 r1 w1 where d: "deleteWorkerNodes rt pv (init_workers c) False w = (c1, r1, w1)" by (metis surj_pair)
  from deleteWorkerNodes_result [OF d] have "st_CurrentWorkers (vc_Status c1) \<noteq> None"
    by (auto simp: init_workers_def drop_workers_def)
  with assms d show ?thesis
    by (cases r1) (auto simp: reconcileWorkerNodes_def reconcileDesiredWorkers_def
        dest!: desired_workers_steps_returns split: prod.splits)
qed

lemma reconcile_head_step_returns:
  assumes "reconcile_head_step rt pv c w = (c', ex, w')"
  shows "ex \<noteq> ExitPanic msg"
proof -
  obtain c1 res w1 where h: "reconcileHeadNode pv c w = (c1, res, w1)" by (metis surj_pair)
  from reconcileHeadNode_returns [OF h] obtain err where res: "res = Returns err" by (auto simp: returns_iff)
  show ?thesis
  proof (cases err)
    case (Some e)
    with assms h res show ?thesis by (auto simp: reconcile_head_step_def split: prod.splits)
  next
    case None
    obtain c2 res2 w2 where k: "reconcileWorkerNodes rt pv c1 w1 = (c2, res2, w2)" by (metis surj_pair)
    from reconcileWorkerNodes_returns [OF k] obtain err2 where "res2 = Returns err2" by (auto simp: returns_iff)
    with None assms h res k show ?thesis
      by (cases err2) (auto simp: reconcile_head_step_def reconcile_workers_step_def split: prod.splits if_splits)
  qed
qed

lemma reconcile_steps_returns:
  assumes "reconcile_steps rt kc cu pv c w = (c', ex, w')"
  shows "ex \<noteq> ExitPanic msg"
  using assms reconcile_head_step_returns
  by (auto simp: reconcile_steps_def Let_def split: prod.splits sum.splits option.splits if_splits)

lemma Reconcile_returns: "\<exists>res w'. Reconcile rt kc cu pv ns name w = (Returns res, w')"
proof -
  have "\<exists>res w'. VMRayClusterReconcile rt kc cu pv orig c w = (Returns res, w')" for orig c w
  proof -
    obtain c' ex w' where r: "reconcile_steps rt kc cu pv c w = (c', ex, w')" by (metis surj_pair)
    with reconcile_steps_returns [OF r] show ?thesis
      by (cases ex) (auto simp: VMRayClusterReconcile_def split: prod.splits)
  qed
  then show ?thesis
    by (auto simp: Reconcile_def split: prod.splits sum.splits option.splits)
qed

end

section \<open>What is reported\<close>

text \<open>
  The report of a reconciliation: the state of the cluster is one of the two, every condition
  is a negative one, and a cluster with a condition is unhealthy.
\<close>

definition report_ok :: "VMRayClusterStatus \<Rightarrow> bool" where
  "report_ok st \<longleftrightarrow> (st_ClusterState st = HEALTHY \<or> st_ClusterState st = UNHEALTHY) \<and>
     list_all (\<lambda>x. cond_Status x = ConditionFalse) (st_Conditions st) \<and>
     (st_Conditions st = [] \<or> st_ClusterState st = UNHEALTHY)"

abbreviation same_report :: "VMRayCluster \<Rightarrow> VMRayCluster \<Rightarrow> bool" where
  "same_report c c' \<equiv> st_Conditions (vc_Status c') = st_Conditions (vc_Status c) \<and>
     st_ClusterState (vc_Status c') = st_ClusterState (vc_Status c)"

abbreviation conditions_negative :: "VMRayCluster \<Rightarrow> bool" where
  "conditions_negative c \<equiv> list_all (\<lambda>x. cond_Status x = ConditionFalse) (st_Conditions (vc_Status c))"

lemma report_unhealthy:
  assumes "addErrorCondition rt err (set_state UNHEALTHY c) ty reason w = (c', w')" and "conditions_negative c"
  shows "report_ok (vc_Status c') \<and> st_ClusterState (vc_Status c') = UNHEALTHY"
  using assms(2) addErrorCondition_result [OF assms(1)] by (auto simp: report_ok_def)

lemma reconcileHeadNode_report: "reconcileHeadNode pvdr c w = (c', r, w') \<Longrightarrow> same_report c c'"
  by (auto simp: reconcileHeadNode_def split: prod.splits)

lemma desired_workers_steps_report:
  assumes "desired_workers_steps pvdr xs c w = (c', r, w')"
  shows "same_report c c'"
  using assms
proof (induction xs arbitrary: c w)
  case (Cons x xs)
  then show ?case
    by (cases x) (fastforce simp: Let_def split: prod.splits outcome.splits option.splits)
qed simp

lemma reconcileWorkerNodes_report:
  assumes "reconcileWorkerNodes rt pvdr c w = (c', r, w')"
  shows "same_report c c'"
proof -
  obtain c1 r1 w1 where d: "deleteWorkerNodes rt pvdr (init_workers c) False w = (c1, r1, w1)" by (metis surj_pair)
  from deleteWorkerNodes_result [OF d] have s1: "same_report c c1" by (auto simp: drop_workers_def init_workers_def)
  show ?thesis
  proof (cases r1)
    case None
    with assms d have "reconcileDesiredWorkers rt pvdr c1 w1 = (c', r, w')" by (simp add: reconcileWorkerNodes_def)
    then show ?thesis using s1
      by (auto simp: reconcileDesiredWorkers_def dest!: desired_workers_steps_report split: prod.splits)
  qed (use assms d s1 in \<open>simp add: reconcileWorkerNodes_def\<close>)
qed

lemma reconcile_head_step_report:
  assumes "reconcile_head_step rt pvdr c w = (c', ExitUpdate d, w')"
    and "report_ok (vc_Status c)"
  shows "report_ok (vc_Status c') \<and> (d = defaultRequeueDuration \<or> d = headRequeueDuration \<and> st_ClusterState (vc_Status c') = UNHEALTHY)"
proof -
  have ok: "report_ok (vc_Status x)" if "same_report c x" for x using that assms(2) by (simp add: report_ok_def)
  have neg: "conditions_negative x" if "same_report c x" for x using that assms(2) by (simp add: report_ok_def)
  obtain c1 r1 w1 where h: "reconcileHeadNode pvdr c w = (c1, r1, w1)" by (metis surj_pair)
  note s1 = reconcileHeadNode_report [OF h]
  obtain c2 r2 w2 where k: "reconcileWorkerNodes rt pvdr c1 w1 = (c2, r2, w2)" by (metis surj_pair)
  have s2: "same_report c c2" using reconcileWorkerNodes_report [OF k] s1 by simp
  note unhealthy = report_unhealthy [OF _ neg [OF s1]] report_unhealthy [OF _ neg [OF s2]]
  show ?thesis using assms(1) h k ok [OF s1] ok [OF s2]
    by (auto simp: reconcile_head_step_def reconcile_workers_step_def dest: unhealthy
        split: outcome.splits option.splits prod.splits if_splits)
qed

lemma check_dependency_report:
  assumes "check_dependency rt get ty c w = ((c', res), w')"
  shows "(res = Inr False \<longrightarrow> c' = c) \<and> (conditions_negative c \<longrightarrow> conditions_negative c')"
  using assms by (auto simp: check_dependency_def dest!: addErrorCondition_result split: prod.splits sum.splits if_splits)

lemma check_vmclasses_report:
  assumes "check_vmclasses rt kc xs bad c w = ((c', bad', err), w')"
  shows "(\<not> bad' \<longrightarrow> \<not> bad \<and> c' = c) \<and> (conditions_negative c \<longrightarrow> conditions_negative c')"
  using assms
proof (induction xs arbitrary: bad c w)
  case (Cons x xs)
  obtain c1 res w1 where d: "check_dependency rt (rget (kc_vmclasses kc) (vc_Namespace c) x) NodeConfigInvalidVMClass c w = ((c1, res), w1)"
    by (metis surj_pair)
  note one = check_dependency_report [OF d]
  show ?case
  proof (cases res)
    case (Inl e)
    with Cons.prems d one show ?thesis by auto
  next
    case (Inr b)
    with Cons.prems d have "check_vmclasses rt kc xs (bad \<or> b) c1 w1 = ((c', bad', err), w')" by simp
    from Cons.IH [OF this] one Inr show ?thesis by auto
  qed
qed simp

lemma ValidateAuxiliaryDependencies_report:
  assumes "ValidateAuxiliaryDependencies rt kc c w = ((c', invalid, err), w')"
  shows "(\<not> invalid \<longrightarrow> c' = c) \<and> (conditions_negative c \<longrightarrow> conditions_negative c')"
  using assms
  by (fastforce simp: ValidateAuxiliaryDependencies_def Let_def split: prod.splits sum.splits
      dest!: check_dependency_report check_vmclasses_report)

lemma reconcile_steps_report:
  assumes "reconcile_steps rt kc cu pvdr c w = (c', ExitUpdate d, w')"
    and "\<And>c1 w1. addFinalizerAndNounce rt kc cu (upd_status (\<lambda>st. st\<lparr>st_Conditions := [], st_ClusterState := HEALTHY\<rparr>) c) w =
      (Inr c1, w1) \<Longrightarrow> report_ok (vc_Status c1)"
  shows "report_ok (vc_Status c') \<and> (d = defaultRequeueDuration \<or> d = headRequeueDuration \<and> st_ClusterState (vc_Status c') = UNHEALTHY)"
proof -
  let ?c = "upd_status (\<lambda>st. st\<lparr>st_Conditions := [], st_ClusterState := HEALTHY\<rparr>) c"
  obtain r w1 where a: "addFinalizerAndNounce rt kc cu ?c w = (r, w1)" by fastforce
  from assms(1) a obtain c1 where r: "r = Inr c1" by (cases r) (auto simp: reconcile_steps_def Let_def)
  with assms(2) a have ok: "report_ok (vc_Status c1)" by blast
  obtain e w2 where root: "CreateVMRayClusterRootSecret rt kc (vc_Namespace c1) (vc_Name c1) w1 = (e, w2)" by fastforce
  obtain c2 invalid err w3 where v: "ValidateAuxiliaryDependencies rt kc c1 w2 = ((c2, invalid, err), w3)" by (metis surj_pair)
  note val = ValidateAuxiliaryDependencies_report [OF v]
  from assms(1) a r root v have ex: "(if invalid \<or> err \<noteq> None then (set_state UNHEALTHY c2, ExitUpdate defaultRequeueDuration, w3)
      else reconcile_head_step rt pvdr c2 w3) = (c', ExitUpdate d, w')"
    by (auto simp: reconcile_steps_def Let_def split: option.splits)
  show ?thesis
  proof (cases "invalid \<or> err \<noteq> None")
    case True
    with ex have "c' = set_state UNHEALTHY c2" "d = defaultRequeueDuration" by auto
    with val ok show ?thesis by (simp add: report_ok_def)
  next
    case False
    with ex val have "reconcile_head_step rt pvdr c1 w3 = (c', ExitUpdate d, w')" by simp
    then show ?thesis using ok by (rule reconcile_head_step_report)
  qed
qed

end
