(* ===== verification/Controller_Env.thy ===== *)
theory Controller_Env
  imports Controller
begin

text \<open>
  What the reconciler does to the machines and to the stored clusters, over any API server
  and any provider that keep their contracts: the locale \<^verbatim>\<open>controller_env\<close> puts the interfaces
  together, and its lemmas follow one reconciliation from the first write to the last.
\<close>

section \<open>The environment of the reconciler\<close>

text \<open>
  The API server, the runtime, the finalizer helpers and a provider whose machines are
  those of the server and whose calls leave the cluster resources alone.
\<close>

locale controller_env = operator_env kc store vm_admit vs_admit rt + vm_provider pv vms + finalizer_util cu
  for kc :: "'w kube_client"
    and store :: "'w \<Rightarrow> api_store"
    and vm_admit :: "VirtualMachine \<Rightarrow> VirtualMachine"
    and vs_admit :: "VirtualMachineService \<Rightarrow> VirtualMachineService"
    and rt :: "'w go_runtime"
    and pv :: "'w VmProvider"
    and vms :: "'w \<Rightarrow> object_key set"
    and cu :: controllerutil +
  assumes vms_store: "sto_virtualmachines (store w') = sto_virtualmachines (store w) \<Longrightarrow> vms w' = vms w"
    and deploy_clusters: "pv_Deploy pv req w = (r, w') \<Longrightarrow> sto_clusters (store w') = sto_clusters (store w)"
    and service_clusters: "pv_DeployVmService pv req w = (sr, w') \<Longrightarrow> sto_clusters (store w') = sto_clusters (store w)"
    and delete_clusters: "pv_Delete pv ns n w = (r, w') \<Longrightarrow> sto_clusters (store w') = sto_clusters (store w)"
    and fetch_clusters: "pv_FetchVmStatus pv ns n w = (fr, w') \<Longrightarrow> sto_clusters (store w') = sto_clusters (store w)"
    and delete_aux_clusters: "pv_DeleteAuxiliaryResources pv ns c w = (r, w') \<Longrightarrow>
      sto_clusters (store w') = sto_clusters (store w)"
begin

abbreviation clusters :: "'w \<Rightarrow> object_key \<rightharpoonup> VMRayCluster" where
  "clusters w \<equiv> sto_clusters (store w)"

lemma same_store: "store w' = store w \<Longrightarrow> vms w' = vms w \<and> clusters w' = clusters w"
  using vms_store [of w' w] by simp

lemmas range_same = range_store [THEN same_store]
lemmas now_same = now_store [THEN same_store]

lemma ProcessNodeVmState_clusters:
  "ProcessNodeVmState pv req w = (req', res, w') \<Longrightarrow> clusters w' = clusters w"
  by (erule ProcessNodeVmState_keeps) (fact deploy_clusters service_clusters fetch_clusters)+

lemma addErrorCondition_same:
  "addErrorCondition rt err c ty reason w = (c', w') \<Longrightarrow> vms w' = vms w \<and> clusters w' = clusters w"
  by (auto simp: addErrorCondition_def dest!: now_same split: prod.splits)

text \<open>Deleting a list of workers: those taken off the status are gone, no other machine changes.\<close>

lemma deleteNodes_env:
  assumes "deleteNodes pv names c w = (c', r, w')"
  shows "\<exists>ds rest. names = ds @ rest \<and> c' = drop_workers ds c \<and> (r = None \<longrightarrow> rest = []) \<and>
    clusters w' = clusters w \<and> vms w' \<subseteq> vms w - {vc_Namespace c} \<times> set ds \<and>
    vms w - {vc_Namespace c} \<times> set names \<subseteq> vms w'"
  using assms
proof (induction names arbitrary: c w)
  case (Cons n names)
  obtain e w1 where d: "pv_Delete pv (vc_Namespace c) n w = (e, w1)" by fastforce
  note frame = delete_frame [OF d] delete_clusters [OF d]
  show ?case
  proof (cases e)
    case (Some a)
    with Cons.prems d have "c' = c" "r = Some a" "w' = w1" by auto
    with frame show ?thesis by (intro exI [of _ "[]"] exI [of _ "n # names"]) auto
  next
    case None
    with Cons.prems d have "deleteNodes pv names (drop_workers [n] c) w1 = (c', r, w')"
      by (simp add: deleteNodes_Cons del: deleteNodes.simps)
    from Cons.IH [OF this] obtain ds rest where ih:
      "names = ds @ rest" "c' = drop_workers (n # ds) c" "r = None \<longrightarrow> rest = []" "clusters w' = clusters w1"
      "vms w' \<subseteq> vms w1 - {vc_Namespace c} \<times> set ds" "vms w1 - {vc_Namespace c} \<times> set names \<subseteq> vms w'"
      unfolding drop_workers_Cons drop_workers_sel by blast
    have v1: "vms w1 = vms w - {(vc_Namespace c, n)}" by (rule delete_ok [OF d [unfolded None]])
    have "vms w' \<subseteq> vms w - {vc_Namespace c} \<times> set (n # ds)" using ih(5) v1 by auto
    moreover have "vms w - {vc_Namespace c} \<times> set (n # names) \<subseteq> vms w'" using ih(6) v1 by auto
    ultimately show ?thesis using ih(1-4) frame(2)
      by (intro exI [of _ "n # ds"] exI [of _ rest] conjI) simp_all
  qed
qed auto

lemma deleteWorkerNodes_env:
  assumes "deleteWorkerNodes rt pv c all w = (c', r, w')"
  shows "\<exists>ds. c' = drop_workers ds c \<and> set ds \<subseteq> deletable c all \<and> (r = None \<longrightarrow> set ds = deletable c all) \<and>
    clusters w' = clusters w \<and> vms w' \<subseteq> vms w - {vc_Namespace c} \<times> set ds \<and>
    vms w - {vc_Namespace c} \<times> deletable c all \<subseteq> vms w'"
proof -
  from assms obtain names cs w1 where range: "rt_range rt w = (cs, w1)"
    and d: "deleteNodes pv names c w1 = (c', r, w')" and n: "set names = deletable c all"
    by (rule deleteWorkerNodes_names)
  from deleteNodes_env [OF d] obtain ds rest where "names = ds @ rest" "c' = drop_workers ds c" "r = None \<longrightarrow> rest = []"
    "clusters w' = clusters w1" "vms w' \<subseteq> vms w1 - {vc_Namespace c} \<times> set ds"
    "vms w1 - {vc_Namespace c} \<times> set names \<subseteq> vms w'" by blast
  with n range_same [OF range] show ?thesis by (intro exI [of _ ds]) auto
qed

end

section \<open>Machines and the recorded status\<close>

text \<open>
  The machines a cluster accounts for: its head and the workers of its status. The machines
  a reconciliation may touch: those and the workers the autoscaler asks for.
\<close>

definition tracked :: "VMRayCluster \<Rightarrow> object_key set" where
  "tracked c = {vc_Namespace c} \<times> insert (head_name c) (worker_keys c)"

definition scope :: "VMRayCluster \<Rightarrow> object_key set" where
  "scope c = {vc_Namespace c} \<times> insert (head_name c) (worker_keys c \<union> desired_keys c)"

text \<open>Two versions of a cluster that record the same nodes.\<close>

definition same_nodes :: "VMRayCluster \<Rightarrow> VMRayCluster \<Rightarrow> bool" where
  "same_nodes c c' \<longleftrightarrow> vc_ObjectMeta c' = vc_ObjectMeta c \<and> vc_Spec c' = vc_Spec c \<and>
     st_HeadNodeStatus (vc_Status c') = st_HeadNodeStatus (vc_Status c) \<and>
     st_CurrentWorkers (vc_Status c') = st_CurrentWorkers (vc_Status c)"

lemma same_nodes_refl [simp]: "same_nodes c c"
  by (simp add: same_nodes_def)

lemma same_nodes_trans [trans]: "same_nodes a b \<Longrightarrow> same_nodes b c \<Longrightarrow> same_nodes a c"
  by (simp add: same_nodes_def)

lemma same_nodes_set_state [simp]: "same_nodes c (set_state s c)"
  by (simp add: same_nodes_def)

lemma same_nodes_addErrorCondition:
  "addErrorCondition rt err c ty reason w = (c', w') \<Longrightarrow> same_nodes c c'"
  by (drule addErrorCondition_result) (auto simp: same_nodes_def)

context controller_env
begin

text \<open>
  What every stage of a reconciliation keeps: the stored clusters, the identity of the
  cluster, the invariant of its status, every machine outside its scope, and no machine
  that was not accounted for before is left unaccounted for.
\<close>

definition keeps :: "VMRayCluster \<Rightarrow> 'w \<Rightarrow> VMRayCluster \<Rightarrow> 'w \<Rightarrow> bool" where
  "keeps c w c' w' \<longleftrightarrow> clusters w' = clusters w \<and> vc_ObjectMeta c' = vc_ObjectMeta c \<and>
     (status_inv (vc_Status c) \<longrightarrow> status_inv (vc_Status c')) \<and> scope c' \<subseteq> scope c \<and>
     vms w' - scope c = vms w - scope c \<and> vms w' - tracked c' \<subseteq> vms w - tracked c"

lemma keeps_trans [trans]: "keeps c w c1 w1 \<Longrightarrow> keeps c1 w1 c2 w2 \<Longrightarrow> keeps c w c2 w2"
  unfolding keeps_def by (simp, blast)

lemma keeps_same_nodes:
  assumes "same_nodes c c'" and "vms w' = vms w" and "clusters w' = clusters w"
  shows "keeps c w c' w'"
  using assms by (simp add: keeps_def same_nodes_def status_inv_def scope_def tracked_def)

lemma keeps_addErrorCondition:
  assumes "addErrorCondition rt err c ty reason w = (c', w')" and "same_nodes c0 c"
  shows "keeps c0 w c' w'"
proof (rule keeps_same_nodes)
  show "same_nodes c0 c'" using assms(2) same_nodes_addErrorCondition [OF assms(1)] by (rule same_nodes_trans)
qed (use addErrorCondition_same [OF assms(1)] in simp_all)

lemma reconcileHeadNode_sel:
  assumes "reconcileHeadNode pv c w = (c', r, w')"
  shows "vc_ObjectMeta c' = vc_ObjectMeta c \<and> vc_Spec c' = vc_Spec c \<and>
    st_CurrentWorkers (vc_Status c') = st_CurrentWorkers (vc_Status c)"
  using assms by (auto simp: reconcileHeadNode_def split: prod.splits)

lemma reconcileHeadNode_machines:
  assumes "reconcileHeadNode pv c w = (c', r, w')"
  shows "clusters w' = clusters w \<and>
    vms w' - {(vc_Namespace c, head_name c)} = vms w - {(vc_Namespace c, head_name c)}"
proof -
  obtain req where p: "ProcessNodeVmState pv (head_request c) w = (req, r, w')"
    using assms by (auto simp: reconcileHeadNode_def split: prod.splits)
  from ProcessNodeVmState_frame [OF p] ProcessNodeVmState_clusters [OF p] show ?thesis
    by (simp add: head_request_def Let_def)
qed

lemma reconcileHeadNode_keeps:
  assumes "reconcileHeadNode pv c w = (c', Returns r, w')"
  shows "keeps c w c' w'"
proof -
  note sel = reconcileHeadNode_sel [OF assms] and vms = reconcileHeadNode_machines [OF assms]
  have "tracked c' = tracked c" "scope c' = scope c" using sel by (simp_all add: tracked_def scope_def)
  moreover have "(vc_Namespace c, head_name c) \<in> tracked c" "(vc_Namespace c, head_name c) \<in> scope c"
    by (simp_all add: tracked_def scope_def)
  ultimately show ?thesis
    using sel vms reconcileHeadNode_inv [OF assms] unfolding keeps_def by blast
qed

lemma desired_workers_steps_env:
  assumes "desired_workers_steps pv xs c w = (c', Returns r, w')" and "st_CurrentWorkers (vc_Status c) = Some m"
  shows "clusters w' = clusters w \<and> worker_keys c \<subseteq> worker_keys c' \<and> vms w' - vms w \<subseteq> {vc_Namespace c} \<times> worker_keys c' \<and>
    vms w' - {vc_Namespace c} \<times> (fst ` set xs) = vms w - {vc_Namespace c} \<times> (fst ` set xs)"
  using assms
proof (induction xs arbitrary: c w m)
  case (Cons x xs)
  obtain name ty where x: "x = (name, ty)" by fastforce
  let ?s = "case worker_status c name of None \<Rightarrow> zero_VMRayNodeStatus | Some s \<Rightarrow> s"
  obtain req res w1 where p: "ProcessNodeVmState pv (worker_request c name ty ?s) w = (req, res, w1)"
    by (metis surj_pair)
  from Cons.prems(1) x p obtain err where res: "res = Returns err"
    by (auto simp: Let_def split: outcome.splits option.splits)
  let ?c = "set_workers (Some (gomap_set m name (lr_NodeStatus req))) c"
  from Cons.prems x p res have result:
    "(case err of Some e \<Rightarrow> (?c, Returns (Some e), w1) | None \<Rightarrow> desired_workers_steps pv xs ?c w1) = (c', Returns r, w')"
    by (simp add: Let_def)
  have keys: "worker_keys ?c = insert name (worker_keys c)" using Cons.prems(2) by simp
  have v1: "vms w1 - {(vc_Namespace c, name)} = vms w - {(vc_Namespace c, name)}" "clusters w1 = clusters w"
    using ProcessNodeVmState_frame [OF p] ProcessNodeVmState_clusters [OF p]
    by (simp_all add: worker_request_def Let_def)
  show ?case
  proof (cases err)
    case (Some e)
    with result have "c' = ?c" "w' = w1" by simp_all
    with v1 keys x show ?thesis by (simp only: keys) (simp, blast)
  next
    case None
    with result have "desired_workers_steps pv xs ?c w1 = (c', Returns r, w')" by simp
    from Cons.IH [OF this] have ih: "clusters w' = clusters w1" "insert name (worker_keys c) \<subseteq> worker_keys c'"
      "vms w' - vms w1 \<subseteq> {vc_Namespace c} \<times> worker_keys c'"
      "vms w' - {vc_Namespace c} \<times> (fst ` set xs) = vms w1 - {vc_Namespace c} \<times> (fst ` set xs)"
      unfolding keys by simp_all
    have "(vc_Namespace c, name) \<in> {vc_Namespace c} \<times> worker_keys c'" using ih(2) by simp
    with ih(3) v1(1) have "vms w' - vms w \<subseteq> {vc_Namespace c} \<times> worker_keys c'" by blast
    moreover have "vms w' - {vc_Namespace c} \<times> (fst ` set (x # xs)) = vms w - {vc_Namespace c} \<times> (fst ` set (x # xs))"
      using ih(4) v1(1) x by auto
    ultimately show ?thesis using ih(1,2) v1(2) by simp
  qed
qed auto

end

context controller_env
begin

lemma frame_widen: "V' - B = V1 - B \<Longrightarrow> V1 \<subseteq> V \<Longrightarrow> V - A \<subseteq> V1 \<Longrightarrow> V' - (A \<union> B) = V - (A \<union> B)"
  by blast

text \<open>
  The workers: a machine dropped from the status is gone, one deployed is recorded, and when
  the call returns nil the status names exactly the desired workers.
\<close>

lemma reconcileWorkerNodes_env:
  assumes "reconcileWorkerNodes rt pv c w = (c', Returns r, w')"
  shows "clusters w' = clusters w \<and>
    vms w' - {vc_Namespace c} \<times> (worker_keys c \<union> desired_keys c) = vms w - {vc_Namespace c} \<times> (worker_keys c \<union> desired_keys c) \<and>
    vms w' - {vc_Namespace c} \<times> worker_keys c' \<subseteq> vms w - {vc_Namespace c} \<times> worker_keys c"
proof -
  let ?c = "init_workers c" and ?N = "\<lambda>A. {vc_Namespace c} \<times> A"
  have init: "vc_Namespace ?c = vc_Namespace c" "worker_keys ?c = worker_keys c" "desired_keys ?c = desired_keys c"
    by (simp_all add: init_workers_def)
  have del: "deletable ?c False \<subseteq> worker_keys c" by (auto simp: deletable_def init)
  obtain c1 r1 w1 where d: "deleteWorkerNodes rt pv ?c False w = (c1, r1, w1)" by (metis surj_pair)
  from deleteWorkerNodes_env [OF d] obtain ds where c1: "c1 = drop_workers ds ?c"
    and ds: "set ds \<subseteq> deletable ?c False" and cl1: "clusters w1 = clusters w" and
    v1: "vms w1 \<subseteq> vms w - ?N (set ds)" "vms w - ?N (deletable ?c False) \<subseteq> vms w1"
    unfolding init by blast
  have k1: "worker_keys c1 = worker_keys c - set ds" "vc_Namespace c1 = vc_Namespace c" "desired_keys c1 = desired_keys c"
    by (simp_all add: c1 init)
  show ?thesis
  proof (cases r1)
    case (Some e)
    with assms d have "c' = c1" "w' = w1" by (simp_all add: reconcileWorkerNodes_def)
    with cl1 v1 del k1 show ?thesis by blast
  next
    case None
    obtain m where m: "st_CurrentWorkers (vc_Status c1) = Some m" by (auto simp: c1 drop_workers_def init_workers_def)
    from None d assms have rd: "reconcileDesiredWorkers rt pv c1 w1 = (c', Returns r, w')"
      by (simp add: reconcileWorkerNodes_def)
    obtain cs w2 where range: "rt_range rt w1 = (cs, w2)" by fastforce
    with rd have "desired_workers_steps pv (go_range cs (entries (spec_AutoscalerDesiredWorkers (vc_Spec c1)))) c1 w2 =
        (c', Returns r, w')" by (simp add: reconcileDesiredWorkers_def)
    from desired_workers_steps_env [OF this m] have st: "clusters w' = clusters w1" "worker_keys c - set ds \<subseteq> worker_keys c'"
      "vms w' - vms w1 \<subseteq> ?N (worker_keys c')" "vms w' - ?N (desired_keys c) = vms w1 - ?N (desired_keys c)"
      using range_same [OF range] unfolding set_go_range k1 by simp_all
    have "vms w' - ?N (worker_keys c') \<subseteq> vms w - ?N (worker_keys c)" using st(2,3) v1(1) by blast
    moreover have "vms w' - ?N (worker_keys c \<union> desired_keys c) = vms w - ?N (worker_keys c \<union> desired_keys c)"
      unfolding Sigma_Un_distrib2
    proof (rule frame_widen)
      show "vms w1 \<subseteq> vms w" using v1(1) by blast
      show "vms w - ?N (worker_keys c) \<subseteq> vms w1" using v1(2) del by blast
    qed (rule st(4))
    ultimately show ?thesis using st(1) cl1 by simp
  qed
qed

lemma reconcileWorkerNodes_keeps:
  assumes "reconcileWorkerNodes rt pv c w = (c', Returns r, w')"
  shows "keeps c w c' w'"
proof -
  let ?k = "{vc_Namespace c} \<times> {head_name c}" and ?N = "\<lambda>A. {vc_Namespace c} \<times> A"
  note env = reconcileWorkerNodes_env [OF assms]
  have res: "vc_ObjectMeta c' = vc_ObjectMeta c" "worker_keys c' \<subseteq> worker_keys c \<union> desired_keys c"
    "desired_keys c' = desired_keys c" "status_inv (vc_Status c) \<Longrightarrow> status_inv (vc_Status c')"
    using reconcileWorkerNodes_result [OF assms] by simp_all
  have T: "tracked c = ?k \<union> ?N (worker_keys c)" "tracked c' = ?k \<union> ?N (worker_keys c')"
    "scope c = ?k \<union> ?N (worker_keys c \<union> desired_keys c)" "scope c' = ?k \<union> ?N (worker_keys c' \<union> desired_keys c)"
    by (auto simp: tracked_def scope_def res(1,3))
  have "vms w' - tracked c' \<subseteq> vms w - tracked c" unfolding T using env by blast
  moreover have "vms w' - scope c = vms w - scope c" unfolding T using env by blast
  moreover have "scope c' \<subseteq> scope c" unfolding T using res(2) by blast
  ultimately show ?thesis using env res(1,4) by (simp add: keeps_def)
qed

lemma reconcile_workers_step_keeps:
  assumes "reconcile_workers_step rt pv c w = (c', ExitUpdate d, w')"
  shows "keeps c w c' w'"
proof (cases "ns_RayStatus (st_HeadNodeStatus (vc_Status c)) = RAY_RUNNING")
  case False
  with assms show ?thesis by (simp add: reconcile_workers_step_def keeps_same_nodes)
next
  case True
  obtain c1 res w1 where k: "reconcileWorkerNodes rt pv c w = (c1, res, w1)" by (metis surj_pair)
  from reconcileWorkerNodes_returns [OF k] obtain err where res: "res = Returns err" by (auto simp: returns_iff)
  have k1: "keeps c w c1 w1" by (rule reconcileWorkerNodes_keeps [OF k [unfolded res]])
  obtain cs w2 where range: "rt_range rt w1 = (cs, w2)" by fastforce
  have k2: "keeps c1 w1 c1 w2" using range_same [OF range] by (intro keeps_same_nodes) auto
  show ?thesis
  proof (cases err)
    case None
    with assms True k res k1 show ?thesis by (simp add: reconcile_workers_step_def)
  next
    case (Some e)
    obtain c2 w3 where a: "addErrorCondition rt e (set_state UNHEALTHY c1) VMRayClusterConditionWorkerNodeReady
        FailureToDeployNodeReason w2 = (c2, w3)" by fastforce
    have "keeps c1 w2 c2 w3" by (rule keeps_addErrorCondition [OF a]) simp
    with k1 k2 have "keeps c w c1 w2" "keeps c w c2 w3" by (blast intro: keeps_trans)+
    with assms True k res Some range a show ?thesis
      by (auto simp: reconcile_workers_step_def split: if_splits)
  qed
qed

lemma reconcile_head_step_keeps:
  assumes "reconcile_head_step rt pv c w = (c', ExitUpdate d, w')"
  shows "keeps c w c' w'"
proof -
  obtain c1 res w1 where h: "reconcileHeadNode pv c w = (c1, res, w1)" by (metis surj_pair)
  from reconcileHeadNode_returns [OF h] obtain err where res: "res = Returns err" by (auto simp: returns_iff)
  note k1 = reconcileHeadNode_keeps [OF h [unfolded res]]
  show ?thesis
  proof (cases err)
    case None
    with assms h res have "reconcile_workers_step rt pv c1 w1 = (c', ExitUpdate d, w')"
      by (simp add: reconcile_head_step_def)
    with k1 show ?thesis by (blast intro: keeps_trans reconcile_workers_step_keeps)
  next
    case (Some e)
    with assms h res have "addErrorCondition rt e (set_state UNHEALTHY c1) VMRayClusterConditionHeadNodeReady
        FailureToDeployNodeReason w1 = (c', w')" by (simp add: reconcile_head_step_def split: prod.splits)
    then have "keeps c1 w1 c' w'" by (rule keeps_addErrorCondition) simp
    with k1 show ?thesis by (rule keeps_trans)
  qed
qed

end

section \<open>Validation of the dependencies\<close>

lemma set_slices_Compact [simp]: "set (slices_Compact xs) = set xs"
  by (induction xs rule: slices_Compact.induct) auto

text \<open>The objects a cluster needs to exist: its image, its storage class and its machine classes.\<close>

definition dependencies_met :: "api_store \<Rightarrow> VMRayCluster \<Rightarrow> bool" where
  "dependencies_met s c \<longleftrightarrow> (let nc = spec_NodeConfig (vc_Spec c) in
     sto_vmimages s (vc_Namespace c, nc_VMImage nc) \<noteq> None \<and>
     sto_storageclasses s (nc_StorageClass nc) \<noteq> None \<and>
     (\<forall>nt \<in> snd ` set (nc_NodeTypes nc). sto_vmclasses s (vc_Namespace c, nt_VMClass nt) \<noteq> None))"

lemma check_vmclasses_error:
  "check_vmclasses rt kc xs bad c w = ((c', bad', err), w') \<Longrightarrow> err \<noteq> None \<longrightarrow> bad'"
  by (induction xs arbitrary: bad c w) (auto split: prod.splits sum.splits)

text \<open>What a lookup tells: the error is the API server's, "not found" that the object is missing.\<close>

definition lookup_of :: "('w \<Rightarrow> 's) \<Rightarrow> ('w \<Rightarrow> (go_error + 'o) \<times> 'w) \<Rightarrow> ('s \<Rightarrow> bool) \<Rightarrow> bool" where
  "lookup_of store get present \<longleftrightarrow> (\<forall>w r w'. get w = (r, w') \<longrightarrow> store w' = store w \<and>
     (case r of Inr x \<Rightarrow> present (store w) | Inl e \<Rightarrow> IsNotFound e \<longrightarrow> \<not> present (store w)))"

context operator_env
begin

lemma vmimage_lookup: "lookup_of store (rget (kc_vmimages kc) ns n) (\<lambda>s. sto_vmimages s (ns, n) \<noteq> None)"
  by (auto simp: lookup_of_def split: sum.splits dest: vmimages.get_found vmimages.get_error)

lemma vmclass_lookup: "lookup_of store (rget (kc_vmclasses kc) ns n) (\<lambda>s. sto_vmclasses s (ns, n) \<noteq> None)"
  by (auto simp: lookup_of_def split: sum.splits dest: vmclasses.get_found vmclasses.get_error)

lemma storageclass_lookup: "lookup_of store (kc_get_storageclass kc ns n) (\<lambda>s. sto_storageclasses s n \<noteq> None)"
  by (auto simp: lookup_of_def split: sum.splits dest: get_storageclass_found get_storageclass_error)

lemma check_dependency_result:
  assumes "check_dependency rt get ty c w = ((c', res), w')" and "lookup_of store get present"
  shows "store w' = store w \<and> same_nodes c c' \<and> (\<forall>bad. res = Inr bad \<longrightarrow> (bad \<longleftrightarrow> \<not> present (store w))) \<and>
    (res = Inr False \<longrightarrow> c' = c)"
proof -
  obtain r w1 where g: "get w = (r, w1)" by fastforce
  with assms(2) have s1: "store w1 = store w" and p: "case r of Inr x \<Rightarrow> present (store w) | Inl e \<Rightarrow> IsNotFound e \<longrightarrow> \<not> present (store w)"
    by (auto simp: lookup_of_def)
  show ?thesis
  proof (cases r)
    case (Inr x)
    with assms(1) g s1 p show ?thesis by (auto simp: check_dependency_def)
  next
    case (Inl e)
    obtain c2 w2 where a: "addErrorCondition rt e c ty ResourceNotFoundReason w1 = (c2, w2)" by fastforce
    then have "store w2 = store w1" by (auto simp: addErrorCondition_def dest!: now_store split: prod.splits)
    with assms(1) g s1 p Inl a same_nodes_addErrorCondition [OF a] show ?thesis
      by (auto simp: check_dependency_def split: if_splits)
  qed
qed

lemma check_vmclasses_result:
  assumes "check_vmclasses rt kc xs bad c w = ((c', bad', err), w')"
  shows "store w' = store w \<and> same_nodes c c' \<and>
    (err = None \<longrightarrow> (bad' \<longleftrightarrow> bad \<or> (\<exists>cls \<in> set xs. sto_vmclasses (store w) (vc_Namespace c, cls) = None)))"
  using assms
proof (induction xs arbitrary: bad c w)
  case (Cons x xs)
  obtain c1 res w1 where d: "check_dependency rt (rget (kc_vmclasses kc) (vc_Namespace c) x) NodeConfigInvalidVMClass c w = ((c1, res), w1)"
    by (metis surj_pair)
  note one = check_dependency_result [OF d vmclass_lookup]
  show ?case
  proof (cases res)
    case (Inl e)
    with Cons.prems d one show ?thesis by auto
  next
    case (Inr b)
    with Cons.prems d have "check_vmclasses rt kc xs (bad \<or> b) c1 w1 = ((c', bad', err), w')" by simp
    from Cons.IH [OF this] one Inr have "store w' = store w" "same_nodes c c'"
      "err = None \<longrightarrow> (bad' \<longleftrightarrow> (bad \<or> b) \<or> (\<exists>cls \<in> set xs. sto_vmclasses (store w) (vc_Namespace c1, cls) = None))"
      by (auto intro: same_nodes_trans)
    moreover have "b \<longleftrightarrow> sto_vmclasses (store w) (vc_Namespace c, x) = None" using one Inr by auto
    moreover have "vc_Namespace c1 = vc_Namespace c" using one by (simp add: same_nodes_def)
    ultimately show ?thesis by auto
  qed
qed auto

lemma ValidateAuxiliaryDependencies_result:
  assumes "ValidateAuxiliaryDependencies rt kc c w = ((c', invalid, err), w')"
  shows "store w' = store w \<and> same_nodes c c' \<and> (err = None \<longrightarrow> (invalid \<longleftrightarrow> \<not> dependencies_met (store w) c)) \<and>
    (err \<noteq> None \<longrightarrow> invalid)"
proof -
  let ?nc = "spec_NodeConfig (vc_Spec c)"
  obtain c1 r1 w1 where d1: "check_dependency rt (rget (kc_vmimages kc) (vc_Namespace c) (nc_VMImage ?nc)) NodeConfigInvalidVMI c w = ((c1, r1), w1)"
    by (metis surj_pair)
  note one = check_dependency_result [OF d1 vmimage_lookup]
  obtain c2 r2 w2 where d2: "check_dependency rt (kc_get_storageclass kc (vc_Namespace c) (nc_StorageClass ?nc)) NodeConfigInvalidStorageClass c1 w1 = ((c2, r2), w2)"
    by (metis surj_pair)
  note two = check_dependency_result [OF d2 storageclass_lookup]
  have n2: "vc_Namespace c2 = vc_Namespace c" "same_nodes c c2" "store w2 = store w"
    using one two by (auto simp: same_nodes_def)
  obtain cs w3 where range: "rt_range rt w2 = (cs, w3)" by fastforce
  show ?thesis
  proof (cases r1)
    case (Inl e)
    with assms d1 one show ?thesis by (auto simp: ValidateAuxiliaryDependencies_def Let_def)
  next
    case 1: (Inr b1)
    show ?thesis
    proof (cases r2)
      case (Inl e)
      with 1 assms d1 d2 n2 show ?thesis by (auto simp: ValidateAuxiliaryDependencies_def Let_def)
    next
      case (Inr b2)
      let ?xs = "slices_Compact (map (nt_VMClass \<circ> snd) (go_range cs (nc_NodeTypes ?nc)))"
      from 1 Inr assms d1 d2 range have ck: "check_vmclasses rt kc ?xs (b1 \<or> b2) c2 w3 = ((c', invalid, err), w')"
        by (simp add: ValidateAuxiliaryDependencies_def Let_def)
      have "err \<noteq> None \<longrightarrow> invalid" using ck by (rule check_vmclasses_error)
      moreover have b: "b1 \<longleftrightarrow> sto_vmimages (store w) (vc_Namespace c, nc_VMImage ?nc) = None"
        "b2 \<longleftrightarrow> sto_storageclasses (store w) (nc_StorageClass ?nc) = None" using one two 1 Inr by auto
      moreover have "same_nodes c c'" using n2(2) check_vmclasses_result [OF ck] same_nodes_trans by blast
      moreover have "store w3 = store w" using n2(3) range_store [OF range] by simp
      ultimately show ?thesis using check_vmclasses_result [OF ck] n2(1)
        by (simp add: dependencies_met_def Let_def image_comp)
    qed
  qed
qed

end

section \<open>Finalizer and nounce\<close>

lemma createRandomNounce_result:
  assumes "createRandomNounce rt n w = (s, w')"
  shows "length s = n \<and> set s \<subseteq> set alphanumeric"
  using assms
proof (induction n arbitrary: w s)
  case (Suc n)
  obtain i w1 rest where i: "rand_Intn rt (length alphanumeric) w = (i, w1)"
    and r: "createRandomNounce rt n w1 = (rest, w')" and s: "s = (alphanumeric ! i) # rest"
    using Suc.prems by (auto split: prod.splits)
  have "0 < length alphanumeric" by (simp add: alphanumeric_def)
  from rand_Intn_less [OF this i] have "alphanumeric ! i \<in> set alphanumeric" by simp
  with Suc.IH [OF r] s show ?case by simp
qed simp

lemma alphanumeric_no_hyphen: "CHR ''-'' \<notin> set alphanumeric"
  by (simp add: alphanumeric_def)

context operator_env
begin

lemma createRandomNounce_store:
  "createRandomNounce rt n w = (s, w') \<Longrightarrow> store w' = store w"
proof (induction n arbitrary: w s)
  case (Suc n)
  obtain i w1 rest where "rand_Intn rt (length alphanumeric) w = (i, w1)" and r: "createRandomNounce rt n w1 = (rest, w')"
    using Suc.prems by (auto split: prod.splits)
  then have "store w1 = store w" by (auto simp: rand_Intn_def dest: rand_store split: prod.splits)
  with Suc.IH [OF r] show ?case by simp
qed simp

end

text \<open>The labels after the call: the nounce is kept when it is there and made up when not.\<close>

definition nounce_added :: "ObjectMeta \<Rightarrow> ObjectMeta \<Rightarrow> bool" where
  "nounce_added m m' \<longleftrightarrow> (\<exists>v. map_of (entries (om_Labels m')) = (map_of (entries (om_Labels m)))(HeadNodeNounceLabel \<mapsto> v) \<and>
     (case map_of (entries (om_Labels m)) HeadNodeNounceLabel of
        Some u \<Rightarrow> v = u
      | None \<Rightarrow> length v = nouceLength \<and> set v \<subseteq> set alphanumeric))"

context controller_env
begin

lemma finalizer_new_meta:
  assumes "\<not> cu_ContainsFinalizer cu m f"
  shows "cu_AddFinalizer cu m f = m\<lparr>om_Finalizers := om_Finalizers m @ [f]\<rparr>"
  using assms by (simp add: contains add)

text \<open>What the call sends to the server when the finalizer is not set yet.\<close>

lemma addFinalizerAndNounce_update:
  assumes "addFinalizerAndNounce rt kc cu c w = (r, w')" and "om_DeletionTimestamp (vc_ObjectMeta c) = None"
    and "finalizerName \<notin> set (om_Finalizers (vc_ObjectMeta c))"
  obtains m w1 where "kc_update_cluster kc (c\<lparr>vc_ObjectMeta := m\<rparr>) w1 = (r, w')" "store w1 = store w"
    "om_Finalizers m = om_Finalizers (vc_ObjectMeta c) @ [finalizerName]" "om_DeletionTimestamp m = None"
    "meta_key m = meta_key (vc_ObjectMeta c)" "nounce_added (vc_ObjectMeta c) m"
proof -
  let ?m = "(vc_ObjectMeta c)\<lparr>om_Finalizers := om_Finalizers (vc_ObjectMeta c) @ [finalizerName]\<rparr>"
  let ?ls = "entries (om_Labels (vc_ObjectMeta c))"
  have m: "cu_AddFinalizer cu (vc_ObjectMeta c) finalizerName = ?m" "\<not> cu_ContainsFinalizer cu (vc_ObjectMeta c) finalizerName"
    using assms(3) by (simp_all add: contains finalizer_new_meta)
  show thesis
  proof (cases "map_of ?ls HeadNodeNounceLabel")
    case (Some v)
    have "nounce_added (vc_ObjectMeta c) (?m\<lparr>om_Labels := Some ?ls\<rparr>)"
      using Some by (auto simp: nounce_added_def intro!: exI [of _ v])
    with Some assms(1,2) m show thesis
      by (intro that [of "?m\<lparr>om_Labels := Some ?ls\<rparr>" w]) (auto simp: addFinalizerAndNounce_def meta_key_def)
  next
    case None
    obtain v w1 where v: "createRandomNounce rt nouceLength w = (v, w1)" by fastforce
    let ?l = "Some (gomap_set ?ls HeadNodeNounceLabel v)"
    have "nounce_added (vc_ObjectMeta c) (?m\<lparr>om_Labels := ?l\<rparr>)"
      using None createRandomNounce_result [OF v] by (auto simp: nounce_added_def intro!: exI [of _ v])
    with None assms(1,2) m v createRandomNounce_store [OF v] show thesis
      by (intro that [of "?m\<lparr>om_Labels := ?l\<rparr>" w1]) (auto simp: addFinalizerAndNounce_def meta_key_def)
  qed
qed

lemma addFinalizerAndNounce_stored:
  assumes "addFinalizerAndNounce rt kc cu c w = (Inr c1, w1)" and "om_DeletionTimestamp (vc_ObjectMeta c) = None"
    and "clusters w (meta_key (vc_ObjectMeta c)) = Some s" and "same_nodes s c"
  shows "\<exists>s1. clusters w1 = (clusters w)(meta_key (vc_ObjectMeta c) \<mapsto> s1) \<and> same_nodes s1 c1 \<and>
    vc_Status s1 = vc_Status s \<and> vc_Spec s1 = vc_Spec s \<and> meta_key (vc_ObjectMeta s1) = meta_key (vc_ObjectMeta c) \<and>
    finalizerName \<in> set (om_Finalizers (vc_ObjectMeta s1)) \<and> vms w1 = vms w \<and>
    (finalizerName \<in> set (om_Finalizers (vc_ObjectMeta c)) \<longrightarrow> s1 = s)"
proof (cases "finalizerName \<in> set (om_Finalizers (vc_ObjectMeta c))")
  case True
  with assms(1) have "c1 = c" "w1 = w" by (auto simp: addFinalizerAndNounce_def contains split: if_splits)
  with assms(3,4) True show ?thesis by (intro exI [of _ s]) (auto simp: same_nodes_def)
next
  case False
  from addFinalizerAndNounce_update [OF assms(1,2) False] obtain m w2 where
    u: "kc_update_cluster kc (c\<lparr>vc_ObjectMeta := m\<rparr>) w2 = (Inr c1, w1)" and s2: "store w2 = store w" and
    m: "om_Finalizers m = om_Finalizers (vc_ObjectMeta c) @ [finalizerName]" "om_DeletionTimestamp m = None"
      "meta_key m = meta_key (vc_ObjectMeta c)" by blast
  from update_cluster_ok [OF u] s2 m assms(3)
  have c1: "c1 = c\<lparr>vc_ObjectMeta := m, vc_Status := decode_status (vc_Status s) (vc_Status c)\<rparr>" and
    w1: "store w1 = (store w)\<lparr>sto_clusters := (clusters w)(meta_key (vc_ObjectMeta c) \<mapsto>
      c\<lparr>vc_ObjectMeta := m, vc_Status := vc_Status s\<rparr>)\<rparr>" by auto
  have "vms w1 = vms w" by (rule vms_store) (simp add: w1)
  with c1 w1 m assms(4) False show ?thesis
    by (intro exI [of _ "c\<lparr>vc_ObjectMeta := m, vc_Status := vc_Status s\<rparr>"]) (simp add: same_nodes_def)
qed

end

section \<open>One reconciliation\<close>

text \<open>The machines a stored cluster answers for: it deploys none before it has its finalizer.\<close>

definition counted :: "VMRayCluster \<Rightarrow> object_key set" where
  "counted c = (if finalizerName \<in> set (om_Finalizers (vc_ObjectMeta c)) then tracked c else {})"

lemma tracked_cong: "same_nodes c c' \<Longrightarrow> tracked c' = tracked c"
  by (simp add: same_nodes_def tracked_def)

lemma tracked_status:
  "vc_ObjectMeta c = vc_ObjectMeta c' \<Longrightarrow> vc_Status c = vc_Status c' \<Longrightarrow> tracked c = tracked c'"
  by (simp add: tracked_def)

lemma status_inv_cong: "same_nodes c c' \<Longrightarrow> status_inv (vc_Status c') = status_inv (vc_Status c)"
  by (simp add: same_nodes_def status_inv_def)

context controller_env
begin

lemma reconcile_steps_keeps:
  assumes "reconcile_steps rt kc cu pv c w = (c', ExitUpdate d, w')"
  obtains c0 c1 w1 where "same_nodes c c0" "addFinalizerAndNounce rt kc cu c0 w = (Inr c1, w1)" "keeps c1 w1 c' w'"
proof -
  let ?c0 = "upd_status (\<lambda>st. st\<lparr>st_Conditions := [], st_ClusterState := HEALTHY\<rparr>) c"
  have c0: "same_nodes c ?c0" by (simp add: same_nodes_def)
  obtain r w1 where a: "addFinalizerAndNounce rt kc cu ?c0 w = (r, w1)" by fastforce
  from assms a obtain c1 where r: "r = Inr c1" by (cases r) (auto simp: reconcile_steps_def Let_def)
  obtain e w2 where root: "CreateVMRayClusterRootSecret rt kc (vc_Namespace c1) (vc_Name c1) w1 = (e, w2)" by fastforce
  from assms a r root have e: "e = None" by (cases e) (auto simp: reconcile_steps_def Let_def)
  obtain c2 invalid err w3 where v: "ValidateAuxiliaryDependencies rt kc c1 w2 = ((c2, invalid, err), w3)" by (metis surj_pair)
  note val = ValidateAuxiliaryDependencies_result [OF v]
  from CreateVMRayClusterRootSecret_post [OF root] have s2: "sto_virtualmachines (store w2) = sto_virtualmachines (store w1)"
    "clusters w2 = clusters w1" by auto
  then have k2: "keeps c1 w1 c2 w3"
    using val vms_store [of w3 w1] by (intro keeps_same_nodes) simp_all
  have "keeps c1 w1 c' w'"
  proof (cases "invalid \<or> err \<noteq> None")
    case True
    with assms a r root e v have "c' = set_state UNHEALTHY c2" "w' = w3" by (simp_all add: reconcile_steps_def Let_def)
    moreover have "keeps c2 w3 (set_state UNHEALTHY c2) w3" by (rule keeps_same_nodes) simp_all
    ultimately show ?thesis using k2 keeps_trans by blast
  next
    case False
    with assms a r root e v have "reconcile_head_step rt pv c2 w3 = (c', ExitUpdate d, w')"
      by (simp add: reconcile_steps_def Let_def)
    then show ?thesis using k2 keeps_trans reconcile_head_step_keeps by blast
  qed
  with that c0 a r show thesis by blast
qed

text \<open>Writing the status back, when nobody else has changed it since the cluster was read.\<close>

lemma updateStatus_stored:
  assumes "updateStatus kc orig c d w = ((d', None), w')" and "clusters w (meta_key (vc_ObjectMeta c)) = Some s"
    and "vc_Status s = vc_Status orig"
  shows "clusters w' = (clusters w)(meta_key (vc_ObjectMeta c) \<mapsto> s\<lparr>vc_Status := vc_Status c\<rparr>) \<and> vms w' = vms w \<and> d' = d"
proof -
  obtain r where p: "kc_patch_status kc orig c w = (r, w')" and r: "\<exists>x. r = Inr x" and d: "d' = d"
    using assms(1) by (auto simp: updateStatus_def split: prod.splits sum.splits)
  from r p patch_status_ok assms(2,3)
  have w': "store w' = (store w)\<lparr>sto_clusters := (clusters w)(meta_key (vc_ObjectMeta c) \<mapsto> s\<lparr>vc_Status := vc_Status c\<rparr>)\<rparr>"
    by fastforce
  then have "vms w' = vms w" by (intro vms_store) simp
  with w' d show ?thesis by simp
qed

lemma VMRayClusterReconcile_writes:
  assumes "VMRayClusterReconcile rt kc cu pv c c w = (Returns (d, None), w')"
    and "clusters w k = Some c" and "meta_key (vc_ObjectMeta c) = k" and "om_DeletionTimestamp (vc_ObjectMeta c) = None"
  obtains c2 w2 c1 w1 s1 where "reconcile_steps rt kc cu pv c w = (c2, ExitUpdate d, w2)"
    "keeps c1 w1 c2 w2" "clusters w1 = (clusters w)(k \<mapsto> s1)" "same_nodes s1 c1" "vc_Status s1 = vc_Status c"
    "meta_key (vc_ObjectMeta s1) = k" "finalizerName \<in> set (om_Finalizers (vc_ObjectMeta s1))" "vms w1 = vms w"
    "finalizerName \<in> set (om_Finalizers (vc_ObjectMeta c)) \<longrightarrow> s1 = c" "vc_Spec s1 = vc_Spec c"
    "clusters w' = (clusters w)(k \<mapsto> s1\<lparr>vc_Status := vc_Status c2\<rparr>)" "vms w' = vms w2"
proof -
  obtain c2 ex w2 where st: "reconcile_steps rt kc cu pv c w = (c2, ex, w2)" by (metis surj_pair)
  with assms(1) obtain dd where ex: "ex = ExitUpdate dd" by (cases ex) (auto simp: VMRayClusterReconcile_def)
  with st assms(1) have u: "updateStatus kc c c2 dd w2 = ((d, None), w')"
    by (auto simp: VMRayClusterReconcile_def split: prod.splits)
  from reconcile_steps_keeps [OF st [unfolded ex]] obtain c0 c1 w1 where
    c0: "same_nodes c c0" and a: "addFinalizerAndNounce rt kc cu c0 w = (Inr c1, w1)" and kp: "keeps c1 w1 c2 w2" by blast
  have m0: "vc_ObjectMeta c0 = vc_ObjectMeta c" using c0 by (simp add: same_nodes_def)
  from addFinalizerAndNounce_stored [OF a] assms(2-4) c0 m0 obtain s1 where
    s1: "clusters w1 = (clusters w)(k \<mapsto> s1)" "same_nodes s1 c1" "vc_Status s1 = vc_Status c"
      "meta_key (vc_ObjectMeta s1) = k" "finalizerName \<in> set (om_Finalizers (vc_ObjectMeta s1))" "vms w1 = vms w"
      "finalizerName \<in> set (om_Finalizers (vc_ObjectMeta c)) \<longrightarrow> s1 = c" "vc_Spec s1 = vc_Spec c" by auto
  have m2: "vc_ObjectMeta c2 = vc_ObjectMeta s1" and cl2: "clusters w2 = clusters w1"
    using kp s1(2) by (simp_all add: keeps_def same_nodes_def)
  have "clusters w2 (meta_key (vc_ObjectMeta c2)) = Some s1" using cl2 s1(1,4) m2 by simp
  note patch = updateStatus_stored [OF u this s1(3)]
  have "clusters w' = (clusters w)(k \<mapsto> s1\<lparr>vc_Status := vc_Status c2\<rparr>)" using patch cl2 s1(1,4) m2 by simp
  with that [OF _ kp s1] st ex patch show thesis by simp
qed

lemma VMRayClusterReconcile_stored:
  assumes "VMRayClusterReconcile rt kc cu pv c c w = (Returns (d, None), w')"
    and "clusters w k = Some c" and "meta_key (vc_ObjectMeta c) = k" and "om_DeletionTimestamp (vc_ObjectMeta c) = None"
  shows "\<exists>c'. clusters w' = (clusters w)(k \<mapsto> c') \<and> meta_key (vc_ObjectMeta c') = k \<and> vc_Spec c' = vc_Spec c \<and>
    (status_inv (vc_Status c) \<longrightarrow> status_inv (vc_Status c')) \<and>
    vms w' - counted c' \<subseteq> vms w - counted c"
proof -
  obtain c2 w2 c1 w1 s1 where kp: "keeps c1 w1 c2 w2" and
    s1: "clusters w1 = (clusters w)(k \<mapsto> s1)" "same_nodes s1 c1" "vc_Status s1 = vc_Status c"
      "meta_key (vc_ObjectMeta s1) = k" "finalizerName \<in> set (om_Finalizers (vc_ObjectMeta s1))" "vms w1 = vms w"
      "finalizerName \<in> set (om_Finalizers (vc_ObjectMeta c)) \<longrightarrow> s1 = c" "vc_Spec s1 = vc_Spec c"
    and w': "clusters w' = (clusters w)(k \<mapsto> s1\<lparr>vc_Status := vc_Status c2\<rparr>)" "vms w' = vms w2"
    by (rule VMRayClusterReconcile_writes [OF assms])
  have m2: "vc_ObjectMeta c2 = vc_ObjectMeta s1" using kp s1(2) by (simp add: keeps_def same_nodes_def)
  let ?c = "s1\<lparr>vc_Status := vc_Status c2\<rparr>"
  have t: "tracked ?c = tracked c2" "tracked c1 = tracked s1" using m2 tracked_cong [OF s1(2)] by (simp_all add: tracked_def)
  have "counted ?c = tracked c2" using s1(5) t by (simp add: counted_def)
  moreover have "counted c \<subseteq> tracked c1" using s1(7) t by (simp add: counted_def)
  ultimately have "vms w' - counted ?c \<subseteq> vms w - counted c" using w'(2) kp s1(6) unfolding keeps_def by auto
  moreover have "status_inv (vc_Status c) \<longrightarrow> status_inv (vc_Status ?c)"
    using kp status_inv_cong [OF s1(2)] s1(3) by (simp add: keeps_def)
  ultimately show ?thesis using s1(4,8) w'(1) by (intro exI [of _ ?c]) simp
qed

text \<open>
  The report of a reconciliation that ends with a status update: by then either the report was
  cleared, or it is the one that was stored, which the answer to the update has brought back.
\<close>

lemma reconcile_steps_reported:
  assumes "reconcile_steps rt kc cu pv c w = (c', ExitUpdate d, w')"
    and "clusters w (meta_key (vc_ObjectMeta c)) = Some c" and "om_DeletionTimestamp (vc_ObjectMeta c) = None"
    and "finalizerName \<in> set (om_Finalizers (vc_ObjectMeta c)) \<or>
      st_ClusterState (vc_Status c) = '''' \<and> st_Conditions (vc_Status c) = [] \<or> report_ok (vc_Status c)"
  shows "report_ok (vc_Status c') \<and> (d = defaultRequeueDuration \<or> d = headRequeueDuration \<and> st_ClusterState (vc_Status c') = UNHEALTHY)"
proof (rule reconcile_steps_report [OF assms(1)])
  fix c1 w1
  let ?c = "upd_status (\<lambda>st. st\<lparr>st_Conditions := [], st_ClusterState := HEALTHY\<rparr>) c"
  assume a: "addFinalizerAndNounce rt kc cu ?c w = (Inr c1, w1)"
  show "report_ok (vc_Status c1)"
  proof (cases "finalizerName \<in> set (om_Finalizers (vc_ObjectMeta c))")
    case True
    with a have "c1 = ?c" by (auto simp: addFinalizerAndNounce_def contains)
    then show ?thesis by (simp add: report_ok_def)
  next
    case False
    then have "finalizerName \<notin> set (om_Finalizers (vc_ObjectMeta ?c))" "om_DeletionTimestamp (vc_ObjectMeta ?c) = None"
      using assms(3) by simp_all
    from addFinalizerAndNounce_update [OF a this(2,1)] obtain m w2 where
      u: "kc_update_cluster kc (?c\<lparr>vc_ObjectMeta := m\<rparr>) w2 = (Inr c1, w1)" and s2: "store w2 = store w" and
      m: "meta_key m = meta_key (vc_ObjectMeta ?c)" by metis
    from update_cluster_ok [OF u] s2 m assms(2) have "vc_Status c1 = decode_status (vc_Status c) (vc_Status ?c)" by auto
    with False assms(4) show ?thesis
      by (auto simp: decode_status_report report_ok_def json_onto_def HEALTHY_def UNHEALTHY_def)
  qed
qed

end

section \<open>Deletion\<close>

lemma tracked_parts: "tracked c = {(vc_Namespace c, head_name c)} \<union> {vc_Namespace c} \<times> worker_keys c"
  by (auto simp: tracked_def)

context controller_env
begin

lemma drop_workers_keeps:
  assumes "clusters w' = clusters w" and "vms w' \<subseteq> vms w - {vc_Namespace c} \<times> set ds"
    and "vms w - {vc_Namespace c} \<times> worker_keys c \<subseteq> vms w'"
  shows "keeps c w (drop_workers ds c) w'"
proof -
  have "status_inv (vc_Status c) \<longrightarrow> status_inv (vc_Status (drop_workers ds c))"
    using drop_workers_status [of ds c] by (auto simp: status_inv_def intro: workers_inv_restrict)
  moreover have "scope (drop_workers ds c) \<subseteq> scope c" by (auto simp: scope_def)
  moreover have "vms w' - scope c = vms w - scope c" using assms(2,3) unfolding scope_def by blast
  moreover have "vms w' - tracked (drop_workers ds c) \<subseteq> vms w - tracked c"
    using assms(2) unfolding tracked_def drop_workers_keys drop_workers_sel by blast
  ultimately show ?thesis using assms(1) by (simp add: keeps_def)
qed

text \<open>
  Tearing a cluster down: whatever happens, no machine drops out of the account before it
  is gone; nil means that the head and every recorded worker are gone.
\<close>

lemma VMRayClusterDelete_env:
  assumes "VMRayClusterDelete rt pv c w = (c', r, w')"
  shows "keeps c w c' w' \<and> vms w' \<subseteq> vms w \<and> (r = None \<longrightarrow> vms w' \<inter> tracked c = {}) \<and> vc_Spec c' = vc_Spec c"
proof -
  let ?h = "(vc_Namespace c, head_name c)"
  obtain e1 w1 where 1: "pv_DeleteAuxiliaryResources pv (vc_Namespace c) (vc_Name c) w = (e1, w1)" by fastforce
  note same1 = delete_aux [OF 1] delete_aux_clusters [OF 1]
  then have k1: "keeps c w c w1" by (intro keeps_same_nodes) simp_all
  obtain e2 w2 where 2: "pv_Delete pv (vc_Namespace c) (head_name c) w1 = (e2, w2)" by fastforce
  note head = delete_frame [OF 2] delete_clusters [OF 2]
  have "keeps c w1 c w2" using head unfolding keeps_def tracked_parts scope_def by auto
  with k1 have k2: "keeps c w c w2" by (rule keeps_trans)
  have cond: "keeps c w c2 w4 \<and> vms w4 \<subseteq> vms w \<and> vc_Spec c2 = vc_Spec c"
    if "addErrorCondition rt err c1 ty reason w3 = (c2, w4)" "keeps c w c1 w3" "vms w3 \<subseteq> vms w" "vc_Spec c1 = vc_Spec c"
    for err c1 ty reason w3 c2 w4
    using keeps_trans [OF that(2) keeps_addErrorCondition [OF that(1) same_nodes_refl]] that(3,4)
      addErrorCondition_same [OF that(1)] addErrorCondition_result [OF that(1)] by simp
  show ?thesis
  proof (cases e1)
    case (Some err)
    with assms 1 show ?thesis
      using cond [OF _ k1] same1 by (auto simp: VMRayClusterDelete_def split: prod.splits)
  next
    case e1: None
    show ?thesis
    proof (cases e2)
      case (Some err)
      with e1 assms 1 2 show ?thesis
        using cond [OF _ k2] same1 head by (auto simp: VMRayClusterDelete_def split: prod.splits)
    next
      case e2: None
      obtain c3 e3 w3 where 3: "deleteWorkerNodes rt pv c True w2 = (c3, e3, w3)" by (metis surj_pair)
      from deleteWorkerNodes_env [OF 3] obtain ds where c3: "c3 = drop_workers ds c"
        and ds: "e3 = None \<longrightarrow> set ds = worker_keys c" and v3: "clusters w3 = clusters w2"
          "vms w3 \<subseteq> vms w2 - {vc_Namespace c} \<times> set ds" "vms w2 - {vc_Namespace c} \<times> worker_keys c \<subseteq> vms w3"
        by (auto simp: deletable_def)
      have sub: "vms w3 \<subseteq> vms w" using v3(2) head(1) same1(1) by blast
      have k3: "keeps c w c3 w3" using k2 drop_workers_keeps [OF v3] unfolding c3 by (rule keeps_trans)
      show ?thesis
      proof (cases e3)
        case (Some err)
        with e1 e2 assms 1 2 3 show ?thesis
          using cond [OF _ k3 sub] c3 by (auto simp: VMRayClusterDelete_def split: prod.splits)
      next
        case None
        with e1 e2 assms 1 2 3 have "c' = c3" "r = None" "w' = w3" by (simp_all add: VMRayClusterDelete_def)
        moreover have "vms w3 \<inter> tracked c = {}"
          using delete_ok [OF 2 [unfolded e2]] ds None v3(2) unfolding tracked_parts by auto
        ultimately show ?thesis using k3 sub c3 by simp
      qed
    qed
  qed
qed

text \<open>The finalizer goes: the cluster leaves the store, or stays without it.\<close>

lemma removeFinalizer_stored:
  assumes "removeFinalizer kc cu c w = (None, w')" and "clusters w k = Some s" and "meta_key (vc_ObjectMeta c) = k"
    and "vc_ObjectMeta s = vc_ObjectMeta c" and "vc_Spec s = vc_Spec c" and "om_DeletionTimestamp (vc_ObjectMeta c) \<noteq> None"
  shows "vms w' = vms w \<and> (clusters w' = (clusters w)(k := None) \<or>
    (\<exists>s'. clusters w' = (clusters w)(k \<mapsto> s') \<and> meta_key (vc_ObjectMeta s') = k \<and> vc_Status s' = vc_Status s \<and>
      vc_Spec s' = vc_Spec c \<and> finalizerName \<notin> set (om_Finalizers (vc_ObjectMeta s')))) \<and>
    (set (om_Finalizers (vc_ObjectMeta c)) \<subseteq> {finalizerName} \<longrightarrow> om_Finalizers (vc_ObjectMeta c) \<noteq> [] \<longrightarrow> clusters w' k = None)"
proof (cases "finalizerName \<in> set (om_Finalizers (vc_ObjectMeta c))")
  case False
  with assms(1) have "w' = w" by (auto simp: removeFinalizer_def contains split: if_splits)
  moreover have "clusters w = (clusters w)(k \<mapsto> s)" using assms(2) by (simp add: fun_upd_idem)
  ultimately show ?thesis using False assms(2-5) by (cases "om_Finalizers (vc_ObjectMeta c)") (auto intro!: exI [of _ s])
next
  case True
  let ?m = "(vc_ObjectMeta c)\<lparr>om_Finalizers := filter (\<lambda>g. g \<noteq> finalizerName) (om_Finalizers (vc_ObjectMeta c))\<rparr>"
  from True assms(1,6) obtain c1 where "kc_update_cluster kc (c\<lparr>vc_ObjectMeta := ?m\<rparr>) w = (Inr c1, w')"
    by (auto simp: removeFinalizer_def contains remove split: prod.splits sum.splits)
  from update_cluster_ok [OF this] assms(2,3)
  have w': "store w' = (store w)\<lparr>sto_clusters := (clusters w)(k :=
      (if om_DeletionTimestamp ?m \<noteq> None \<and> om_Finalizers ?m = [] then None
       else Some (c\<lparr>vc_ObjectMeta := ?m, vc_Status := vc_Status s\<rparr>)))\<rparr>"
    by (auto simp: meta_key_def)
  have "vms w' = vms w" by (rule vms_store) (simp add: w')
  with w' assms(3,6) show ?thesis
    by (auto simp: meta_key_def filter_empty_conv)
qed

end

section \<open>The effect of a call of the reconciler\<close>

text \<open>
  The two ways a stored cluster can change: it is replaced by one that answers for every
  machine it stops answering for only when the machine is gone, or it goes and its machines
  with it.
\<close>

definition cluster_step ::
  "(object_key \<rightharpoonup> VMRayCluster) \<Rightarrow> object_key set \<Rightarrow> (object_key \<rightharpoonup> VMRayCluster) \<Rightarrow> object_key set \<Rightarrow> bool" where
  "cluster_step m V m' V' \<longleftrightarrow> (\<exists>k c. m k = Some c \<and>
     (m' = m(k := None) \<and> V' \<subseteq> V - counted c \<or>
      (\<exists>c'. m' = m(k \<mapsto> c') \<and> meta_key (vc_ObjectMeta c') = k \<and> vc_Spec c' = vc_Spec c \<and>
         (status_inv (vc_Status c) \<longrightarrow> status_inv (vc_Status c')) \<and> V' - counted c' \<subseteq> V - counted c)))"

lemma counted_tracked: "counted c \<subseteq> tracked c"
  by (simp add: counted_def)

context controller_env
begin

lemma Reconcile_deleting:
  assumes "VMRayClusterDelete rt pv c w = (c1, r, w1)" and "clusters w k = Some c" and "meta_key (vc_ObjectMeta c) = k"
    and "om_DeletionTimestamp (vc_ObjectMeta c) \<noteq> None"
    and "case r of Some err \<Rightarrow> updateStatus kc c c1 defaultRequeueDuration w1 = ((d, None), w')
      | None \<Rightarrow> removeFinalizer kc cu c1 w1 = (None, w')"
  shows "cluster_step (clusters w) (vms w) (clusters w') (vms w')"
proof -
  note del = VMRayClusterDelete_env [OF assms(1)]
  have m1: "vc_ObjectMeta c1 = vc_ObjectMeta c" "clusters w1 = clusters w" using del by (simp_all add: keeps_def)
  show ?thesis
  proof (cases r)
    case (Some err)
    with assms(5) have "updateStatus kc c c1 defaultRequeueDuration w1 = ((d, None), w')" by simp
    from updateStatus_stored [OF this _ refl] assms(2,3) m1
    have w': "clusters w' = (clusters w)(k \<mapsto> c\<lparr>vc_Status := vc_Status c1\<rparr>)" "vms w' = vms w1" by simp_all
    let ?c = "c\<lparr>vc_Status := vc_Status c1\<rparr>"
    have "tracked ?c = tracked c1" using m1 by (simp add: tracked_def)
    then have "vms w' - counted ?c \<subseteq> vms w - counted c"
      using del w'(2) by (auto simp: counted_def keeps_def)
    moreover have "status_inv (vc_Status c) \<longrightarrow> status_inv (vc_Status ?c)" using del by (simp add: keeps_def)
    ultimately show ?thesis using w'(1) assms(2,3) unfolding cluster_step_def by (intro exI [of _ k] exI [of _ c]) auto
  next
    case None
    with assms(5) have "removeFinalizer kc cu c1 w1 = (None, w')" by simp
    from removeFinalizer_stored [OF this, unfolded m1, OF assms(2,3) refl _ assms(4)] del
    have w': "vms w' = vms w1" and cl: "clusters w' = (clusters w)(k := None) \<or> (\<exists>s'. clusters w' = (clusters w)(k \<mapsto> s') \<and>
        meta_key (vc_ObjectMeta s') = k \<and> vc_Status s' = vc_Status c \<and> vc_Spec s' = vc_Spec c \<and>
        finalizerName \<notin> set (om_Finalizers (vc_ObjectMeta s')))" by simp_all
    have sub: "vms w' \<subseteq> vms w - counted c" using del None w' counted_tracked [of c] by auto
    have none: "counted s' = {}" if "finalizerName \<notin> set (om_Finalizers (vc_ObjectMeta s'))" for s'
      using that by (simp add: counted_def)
    from cl show ?thesis
    proof
      assume "clusters w' = (clusters w)(k := None)"
      with sub assms(2) show ?thesis unfolding cluster_step_def by blast
    next
      assume "\<exists>s'. clusters w' = (clusters w)(k \<mapsto> s') \<and> meta_key (vc_ObjectMeta s') = k \<and> vc_Status s' = vc_Status c \<and>
        vc_Spec s' = vc_Spec c \<and> finalizerName \<notin> set (om_Finalizers (vc_ObjectMeta s'))"
      then obtain s' where s': "clusters w' = (clusters w)(k \<mapsto> s')" "meta_key (vc_ObjectMeta s') = k"
        "vc_Status s' = vc_Status c" "vc_Spec s' = vc_Spec c" "counted s' = {}" using none by blast
      with sub assms(2) show ?thesis
        unfolding cluster_step_def by (intro exI [of _ k] exI [of _ c] conjI disjI2 exI [of _ s']) simp_all
    qed
  qed
qed

text \<open>The three ways through a call: no such cluster, a cluster to reconcile, one to tear down.\<close>

lemma Reconcile_cases:
  assumes "Reconcile rt kc cu pv ns name w = (res, w')"
  obtains (missing) "store w' = store w"
  | (present) c w1 where "clusters w (ns, name) = Some c" "meta_key (vc_ObjectMeta c) = (ns, name)" "store w1 = store w"
      "om_DeletionTimestamp (vc_ObjectMeta c) = None" "VMRayClusterReconcile rt kc cu pv c c w1 = (res, w')"
  | (deleting) c w1 c1 r w2 where "clusters w (ns, name) = Some c" "meta_key (vc_ObjectMeta c) = (ns, name)" "store w1 = store w"
      "om_DeletionTimestamp (vc_ObjectMeta c) \<noteq> None" "VMRayClusterDelete rt pv c w1 = (c1, r, w2)"
      "case r of Some err \<Rightarrow> \<exists>x. updateStatus kc c c1 defaultRequeueDuration w2 = (x, w') \<and> res = Returns x
       | None \<Rightarrow> \<exists>e. removeFinalizer kc cu c1 w2 = (e, w') \<and> res = Returns (0, e)"
proof -
  obtain g w1 where f: "kc_get_cluster kc ns name w = (g, w1)" by fastforce
  show thesis
  proof (cases g)
    case (Inl e)
    with assms f have "w' = w1" by (simp add: Reconcile_def fetchVMRayCluster_def)
    with get_cluster_error [OF f [unfolded Inl]] missing show thesis by simp
  next
    case (Inr c)
    note found = get_cluster_found [OF f [unfolded Inr]]
    show thesis
    proof (cases "om_DeletionTimestamp (vc_ObjectMeta c)")
      case None
      with assms f Inr found show thesis
        by (intro present [of c w1]) (simp_all add: Reconcile_def fetchVMRayCluster_def)
    next
      case (Some t)
      obtain c1 r w2 where "VMRayClusterDelete rt pv c w1 = (c1, r, w2)" by (metis surj_pair)
      with Some assms f Inr found show thesis
        by (intro deleting [of c w1 c1 r w2])
           (auto simp: Reconcile_def fetchVMRayCluster_def split: prod.splits option.splits)
    qed
  qed
qed

lemma Reconcile_step:
  assumes "Reconcile rt kc cu pv ns name w = (Returns (d, None), w')"
  shows "clusters w' = clusters w \<and> vms w' = vms w \<or> cluster_step (clusters w) (vms w) (clusters w') (vms w')"
  using assms
proof (cases rule: Reconcile_cases)
  case missing
  then show ?thesis using same_store by blast
next
  case (present c w1)
  from VMRayClusterReconcile_stored [OF present(5) _ present(2,4)] present(1) same_store [OF present(3)]
  have "cluster_step (clusters w) (vms w) (clusters w') (vms w')"
    unfolding cluster_step_def by (intro exI [of _ "(ns, name)"] exI [of _ c]) simp
  then show ?thesis by blast
next
  case (deleting c w1 c1 r w2)
  then have "case r of Some err \<Rightarrow> updateStatus kc c c1 defaultRequeueDuration w2 = ((d, None), w')
      | None \<Rightarrow> removeFinalizer kc cu c1 w2 = (None, w')" by (auto split: option.splits)
  from Reconcile_deleting [OF deleting(5) _ deleting(2,4) this] deleting(1) same_store [OF deleting(3)]
  show ?thesis by simp
qed

end

section \<open>When the finalizer goes\<close>

context controller_env
begin

lemma reconcile_steps_error:
  assumes "reconcile_steps rt kc cu pv c w = (c', ExitError e, w')"
  obtains (add) c0 where "same_nodes c c0" "addFinalizerAndNounce rt kc cu c0 w = (Inl e, w')" "c' = c0"
  | (root) c0 w1 where "same_nodes c c0" "addFinalizerAndNounce rt kc cu c0 w = (Inr c', w1)"
      "CreateVMRayClusterRootSecret rt kc (vc_Namespace c') (vc_Name c') w1 = (Some e, w')"
proof -
  let ?c0 = "upd_status (\<lambda>st. st\<lparr>st_Conditions := [], st_ClusterState := HEALTHY\<rparr>) c"
  have c0: "same_nodes c ?c0" by (simp add: same_nodes_def)
  obtain r w1 where a: "addFinalizerAndNounce rt kc cu ?c0 w = (r, w1)" by fastforce
  show thesis
  proof (cases r)
    case (Inl err)
    with assms a c0 show thesis by (intro add) (auto simp: reconcile_steps_def Let_def)
  next
    case (Inr c1)
    obtain e1 w2 where rs: "CreateVMRayClusterRootSecret rt kc (vc_Namespace c1) (vc_Name c1) w1 = (e1, w2)" by fastforce
    show thesis
    proof (cases e1)
      case (Some err)
      with assms a Inr rs c0 show thesis by (intro root) (auto simp: reconcile_steps_def Let_def)
    next
      case None
      with assms a Inr rs show thesis
        by (auto simp: reconcile_steps_def Let_def reconcile_head_step_def reconcile_workers_step_def
            split: prod.splits if_splits outcome.splits option.splits)
    qed
  qed
qed

lemma root_secret_clusters:
  "CreateVMRayClusterRootSecret rt kc ns n w = (r, w') \<Longrightarrow> clusters w' = clusters w"
  by (drule CreateVMRayClusterRootSecret_post) auto

lemma addFinalizerAndNounce_error:
  assumes "addFinalizerAndNounce rt kc cu c w = (Inl e, w')" and "om_DeletionTimestamp (vc_ObjectMeta c) = None"
  shows "store w' = store w"
proof (cases "finalizerName \<in> set (om_Finalizers (vc_ObjectMeta c))")
  case True
  with assms(1) show ?thesis by (auto simp: addFinalizerAndNounce_def contains split: if_splits)
next
  case False
  obtain m w1 where u: "kc_update_cluster kc (c\<lparr>vc_ObjectMeta := m\<rparr>) w1 = (Inl e, w')" and s: "store w1 = store w"
    by (rule addFinalizerAndNounce_update [OF assms False])
  from update_cluster_error [OF u] s show ?thesis by simp
qed

text \<open>
  Up to the status update, the only change to the stored clusters is the finalizer with its
  nounce, if it was missing.
\<close>

lemma reconcile_steps_stored:
  assumes "reconcile_steps rt kc cu pv c w = (c', ex, w')" and "clusters w k = Some c"
    and "meta_key (vc_ObjectMeta c) = k" and "om_DeletionTimestamp (vc_ObjectMeta c) = None"
  shows "\<exists>s1. clusters w' = (clusters w)(k \<mapsto> s1) \<and> meta_key (vc_ObjectMeta s1) = k \<and> vc_Status s1 = vc_Status c \<and>
    vc_Spec s1 = vc_Spec c \<and> (finalizerName \<in> set (om_Finalizers (vc_ObjectMeta c)) \<longrightarrow> s1 = c)"
proof -
  have stored: ?thesis if "same_nodes c c0" "addFinalizerAndNounce rt kc cu c0 w = (Inr c1, w1)" "clusters w' = clusters w1" for c0 c1 w1
  proof -
    have "vc_ObjectMeta c0 = vc_ObjectMeta c" using that(1) by (simp add: same_nodes_def)
    with addFinalizerAndNounce_stored [OF that(2), of c] assms(2-4) that(1,3) show ?thesis by auto
  qed
  show ?thesis
  proof (cases ex)
    case (ExitUpdate d)
    obtain c0 c1 w1 where "same_nodes c c0" "addFinalizerAndNounce rt kc cu c0 w = (Inr c1, w1)" and kp: "keeps c1 w1 c' w'"
      by (rule reconcile_steps_keeps [OF assms(1) [unfolded ExitUpdate]])
    from stored [OF this(1,2)] kp show ?thesis by (simp add: keeps_def)
  next
    case (ExitError e)
    from assms(1) [unfolded this] show ?thesis
    proof (cases rule: reconcile_steps_error)
      case (add c0)
      then have "om_DeletionTimestamp (vc_ObjectMeta c0) = None" using assms(4) by (simp add: same_nodes_def)
      from addFinalizerAndNounce_error [OF add(2) this] assms(2,3) show ?thesis
        by (intro exI [of _ c]) (auto simp: fun_upd_idem)
    next
      case (root c0 w1)
      from stored [OF root(1,2) root_secret_clusters [OF root(3)]] show ?thesis .
    qed
  next
    case (ExitPanic msg)
    with reconcile_steps_returns [OF assms(1)] show ?thesis by blast
  qed
qed

lemma reconcile_steps_meta:
  assumes "reconcile_steps rt kc cu pv c w = (c', ExitUpdate d, w')" and "finalizerName \<in> set (om_Finalizers (vc_ObjectMeta c))"
  shows "vc_ObjectMeta c' = vc_ObjectMeta c"
proof -
  obtain c0 c1 w1 where c0: "same_nodes c c0" and a: "addFinalizerAndNounce rt kc cu c0 w = (Inr c1, w1)" and k: "keeps c1 w1 c' w'"
    by (rule reconcile_steps_keeps [OF assms(1)])
  from c0 assms(2) a have "c1 = c0" by (auto simp: addFinalizerAndNounce_def contains same_nodes_def split: if_splits)
  with k c0 show ?thesis by (simp add: keeps_def same_nodes_def)
qed

lemma updateStatus_error:
  "updateStatus kc orig c d w = ((d', Some e), w') \<Longrightarrow> store w' = store w"
  by (auto simp: updateStatus_def dest: patch_status_error split: prod.splits sum.splits)

lemma removeFinalizer_error:
  "removeFinalizer kc cu c w = (Some e, w') \<Longrightarrow> store w' = store w"
  by (auto simp: removeFinalizer_def split: if_splits prod.splits sum.splits dest: update_cluster_error)

text \<open>A call that returns an error has changed no stored cluster, but for a finalizer with its nounce.\<close>

lemma Reconcile_error_step:
  assumes "Reconcile rt kc cu pv ns name w = (Returns (d, Some e), w')"
  shows "clusters w' = clusters w \<or> cluster_step (clusters w) (vms w) (clusters w') (vms w \<inter> vms w')"
  using assms
proof (cases rule: Reconcile_cases)
  case missing
  then show ?thesis by simp
next
  case (present c w1)
  obtain c2 ex w2 where st: "reconcile_steps rt kc cu pv c w1 = (c2, ex, w2)" by (metis surj_pair)
  have "clusters w' = clusters w2"
  proof (cases ex)
    case (ExitUpdate dd)
    with present(5) st have "updateStatus kc c c2 dd w2 = ((d, Some e), w')"
      by (auto simp: VMRayClusterReconcile_def split: prod.splits)
    from updateStatus_error [OF this] show ?thesis by simp
  qed (use present(5) st in \<open>auto simp: VMRayClusterReconcile_def\<close>)
  with reconcile_steps_stored [OF st _ present(2,4)] present(1,3) obtain s1 where s1: "clusters w' = (clusters w)((ns, name) \<mapsto> s1)"
    "meta_key (vc_ObjectMeta s1) = (ns, name)" "vc_Status s1 = vc_Status c" "vc_Spec s1 = vc_Spec c"
    "finalizerName \<in> set (om_Finalizers (vc_ObjectMeta c)) \<longrightarrow> s1 = c" by auto
  then have "(vms w \<inter> vms w') - counted s1 \<subseteq> vms w - counted c" by (auto simp: counted_def)
  with s1 present(1) show ?thesis
    unfolding cluster_step_def by (intro disjI2 exI [of _ "(ns, name)"] exI [of _ c] conjI exI [of _ s1]) simp_all
next
  case (deleting c w1 c1 r w2)
  have "clusters w2 = clusters w" using VMRayClusterDelete_env [OF deleting(5)] deleting(3) by (simp add: keeps_def)
  moreover have "store w' = store w2"
    using deleting(6) updateStatus_error removeFinalizer_error by (cases r) auto
  ultimately show ?thesis by simp
qed

lemma updateStatus_keeps_meta:
  assumes "updateStatus kc orig c d w = (res, w')" and "clusters w (meta_key (vc_ObjectMeta c)) = Some s"
    and "vc_Status s = vc_Status orig"
  shows "\<exists>s'. clusters w' (meta_key (vc_ObjectMeta c)) = Some s' \<and> vc_ObjectMeta s' = vc_ObjectMeta s"
proof (cases "kc_patch_status kc orig c w")
  case (Pair r w1)
  show ?thesis
  proof (cases r)
    case (Inl e)
    with assms(1) Pair have "w' = w1" by (simp add: updateStatus_def)
    with patch_status_error [OF Pair [unfolded Inl]] assms(2) show ?thesis by simp
  next
    case (Inr c1)
    with assms(1) Pair have "updateStatus kc orig c d w = ((d, None), w')" by (simp add: updateStatus_def)
    from updateStatus_stored [OF this assms(2,3)] show ?thesis by simp
  qed
qed

text \<open>
  A call that takes the finalizer off a stored cluster has torn the cluster down in the same
  call, without an error.
\<close>

lemma finalizer_dropped:
  assumes "Reconcile rt kc cu pv ns name w = (res, w')" and "clusters w (ns, name) = Some c"
    and "finalizerName \<in> set (om_Finalizers (vc_ObjectMeta c))"
    and "\<And>c'. clusters w' (ns, name) = Some c' \<Longrightarrow> finalizerName \<notin> set (om_Finalizers (vc_ObjectMeta c'))"
  obtains c1 w1 w2 where "store w1 = store w" "VMRayClusterDelete rt pv c w1 = (c1, None, w2)"
    "removeFinalizer kc cu c1 w2 = (None, w')" "om_DeletionTimestamp (vc_ObjectMeta c) \<noteq> None"
    "meta_key (vc_ObjectMeta c) = (ns, name)"
proof -
  have changed: "clusters w' \<noteq> clusters w" using assms(2-4) by metis
  have kept: False if "updateStatus kc c c2 d w2 = (res', w')" "vc_ObjectMeta c2 = vc_ObjectMeta c" "clusters w2 = clusters w"
    "meta_key (vc_ObjectMeta c) = (ns, name)" for c2 d w2 res'
    using updateStatus_keeps_meta [OF that(1), of c] that(2-4) assms(2-4) by auto
  from assms(1) show thesis
  proof (cases rule: Reconcile_cases)
    case missing
    with changed show thesis by simp
  next
    case (present c0 w1)
    with assms(2) have c: "c0 = c" by simp
    obtain c2 ex w2 where st: "reconcile_steps rt kc cu pv c w1 = (c2, ex, w2)" by (metis surj_pair)
    have same: "clusters w2 = clusters w" using reconcile_steps_stored [OF st, of "(ns, name)"] present c assms(3)
      by (auto simp: fun_upd_idem)
    show thesis
    proof (cases ex)
      case (ExitUpdate d)
      with present(5) c st have u: "\<exists>x. updateStatus kc c c2 d w2 = (x, w')"
        by (auto simp: VMRayClusterReconcile_def split: prod.splits)
      have "vc_ObjectMeta c2 = vc_ObjectMeta c"
        by (rule reconcile_steps_meta [OF st [unfolded ExitUpdate] assms(3)])
      with u same present(2) c show thesis by (auto dest: kept)
    qed (use present(5) c st changed same reconcile_steps_returns [OF st] in \<open>auto simp: VMRayClusterReconcile_def\<close>)
  next
    case (deleting c0 w1 c2 r w2)
    with assms(2) have c: "c0 = c" by simp
    have m2: "vc_ObjectMeta c2 = vc_ObjectMeta c" "clusters w2 = clusters w"
      using VMRayClusterDelete_env [OF deleting(5)] deleting(3) c by (simp_all add: keeps_def)
    show thesis
    proof (cases r)
      case (Some e)
      with deleting(2,6) c m2 show thesis by (auto dest: kept)
    next
      case None
      with deleting(6) obtain e where rf: "removeFinalizer kc cu c2 w2 = (e, w')" by auto
      have "e = None"
      proof (rule ccontr)
        assume "e \<noteq> None"
        with rf have "store w' = store w2" using removeFinalizer_error by auto
        with changed m2 show False by simp
      qed
      with that None deleting c rf show thesis by simp
    qed
  qed
qed

end

section \<open>Workers and the head\<close>

context controller_env
begin

lemma reconcile_workers_step_head:
  assumes "reconcile_workers_step rt pv c w = (c', ExitUpdate d, w')"
  shows "st_HeadNodeStatus (vc_Status c') = st_HeadNodeStatus (vc_Status c)"
proof (cases "ns_RayStatus (st_HeadNodeStatus (vc_Status c)) = RAY_RUNNING")
  case False
  with assms show ?thesis by (simp add: reconcile_workers_step_def)
next
  case True
  obtain c1 res w1 where k: "reconcileWorkerNodes rt pv c w = (c1, res, w1)" by (metis surj_pair)
  from reconcileWorkerNodes_returns [OF k] obtain err where res: "res = Returns err" by (auto simp: returns_iff)
  have "st_HeadNodeStatus (vc_Status c1) = st_HeadNodeStatus (vc_Status c)"
    using reconcileWorkerNodes_result [OF k [unfolded res]] by simp
  with assms True k res show ?thesis
    by (auto simp: reconcile_workers_step_def dest!: addErrorCondition_result split: option.splits prod.splits if_splits)
qed

text \<open>The workers are left alone until the head's Ray process is seen running.\<close>

lemma reconcile_head_step_waits:
  assumes "reconcile_head_step rt pv c w = (c', ExitUpdate d, w')" and "status_inv (vc_Status c)"
  shows "(vms w' - {(vc_Namespace c, head_name c)} = vms w - {(vc_Namespace c, head_name c)} \<and>
      st_CurrentWorkers (vc_Status c') = st_CurrentWorkers (vc_Status c)) \<or>
    (let h = st_HeadNodeStatus (vc_Status c') in
      ns_RayStatus h = RAY_RUNNING \<and> ns_VmStatus h = RUNNING \<and> ns_Ip h \<noteq> '''')"
proof -
  obtain c1 res w1 where h: "reconcileHeadNode pv c w = (c1, res, w1)" by (metis surj_pair)
  from reconcileHeadNode_returns [OF h] obtain err where res: "res = Returns err" by (auto simp: returns_iff)
  note sel = reconcileHeadNode_sel [OF h] and mach = reconcileHeadNode_machines [OF h]
  have inv: "status_inv (vc_Status c1)" by (rule reconcileHeadNode_inv [OF h [unfolded res] assms(2)])
  show ?thesis
  proof (cases "err = None \<and> ns_RayStatus (st_HeadNodeStatus (vc_Status c1)) = RAY_RUNNING")
    case False
    have "vms w' = vms w1 \<and> st_CurrentWorkers (vc_Status c') = st_CurrentWorkers (vc_Status c1)"
    proof (cases err)
      case None
      with False assms(1) h res show ?thesis by (simp add: reconcile_head_step_def reconcile_workers_step_def)
    next
      case (Some e)
      with assms(1) h res have "addErrorCondition rt e (set_state UNHEALTHY c1) VMRayClusterConditionHeadNodeReady
          FailureToDeployNodeReason w1 = (c', w')" by (simp add: reconcile_head_step_def split: prod.splits)
      from addErrorCondition_same [OF this] same_nodes_addErrorCondition [OF this] show ?thesis by (simp add: same_nodes_def)
    qed
    with sel mach show ?thesis by simp
  next
    case True
    with assms(1) h res have ws: "reconcile_workers_step rt pv c1 w1 = (c', ExitUpdate d, w')"
      by (simp add: reconcile_head_step_def)
    have "st_HeadNodeStatus (vc_Status c') = st_HeadNodeStatus (vc_Status c1)"
      by (rule reconcile_workers_step_head [OF ws])
    with True inv show ?thesis by (simp add: Let_def status_inv_def node_inv_def)
  qed
qed

end

end
