(* ===== verification/Yaml_Text.thy ===== *)
theory Yaml_Text
  imports VMRay_Prelude
begin

text \<open>
  The part of YAML 1.2 the rendered configurations rely on, written after the specification:
  literal block scalars without an indentation or chomping indicator (section 8.1), and the
  plain and single-quoted scalars that fit on one line, begin with a slash or contain no quote,
  and need no escape. Each reader answers \<^const>\<open>None\<close> outside of that part, and for any
  character that is not printable ASCII or a tab; where it answers, it answers as YAML does.
\<close>

section \<open>Lines\<close>

text \<open>A text as the list of its lines.\<close>

fun lines_of :: "string \<Rightarrow> string list" where
  "lines_of [] = ['''']"
| "lines_of (c # cs) =
     (if c = nl then '''' # lines_of cs
      else (case lines_of cs of l # ls \<Rightarrow> (c # l) # ls | [] \<Rightarrow> [[c]]))"

lemma lines_of_nonempty [simp]: "lines_of s \<noteq> []"
  by (cases s) (auto split: list.splits)

lemma lines_of_append_nl [simp]: "lines_of (a @ nl # b) = lines_of a @ lines_of b"
  by (induction a) (auto split: list.splits)

lemma lines_of_single [simp]: "nl \<notin> set a \<Longrightarrow> lines_of a = [a]"
  by (induction a) auto

lemma lines_of_prefix: "nl \<notin> set p \<Longrightarrow> lines_of (p @ s) = (p @ hd (lines_of s)) # tl (lines_of s)"
  by (induction p) (auto split: list.splits)

lemma join_lines_of [simp]: "join_lines (lines_of s) = s"
proof (induction s)
  case (Cons c s)
  then show ?case by (cases "lines_of s"; cases "tl (lines_of s)") auto
qed simp

declare lines_of.simps [simp del]

lemma lines_of_Nil: "lines_of [] = ['''']"
  by (simp add: lines_of.simps)

lemma set_lines_of: "l \<in> set (lines_of s) \<Longrightarrow> set l \<subseteq> set s - {nl}"
proof (induction s arbitrary: l)
  case (Cons c s)
  obtain x xs where ls: "lines_of s = x # xs" by (cases "lines_of s") auto
  have "set y \<subseteq> set s - {nl}" if "y \<in> set (x # xs)" for y using Cons.IH that ls by simp
  with Cons.prems ls show ?case by (fastforce simp: lines_of.simps split: if_splits)
qed (simp add: lines_of_Nil)

section \<open>Characters and scalars\<close>

definition yaml_char :: "char \<Rightarrow> bool" where
  "yaml_char c \<longleftrightarrow> c = CHR 0x09 \<or> 32 \<le> (of_char c :: nat) \<and> (of_char c :: nat) < 127"

text \<open>A character that is neither a space nor a tab: without those \<open>: \<close> and \<open> #\<close> do not occur.\<close>

definition graphic :: "char \<Rightarrow> bool" where
  "graphic c \<longleftrightarrow> 33 \<le> (of_char c :: nat) \<and> (of_char c :: nat) < 127"

lemma graphic_yaml_char: "graphic c \<Longrightarrow> yaml_char c"
  by (simp add: graphic_def yaml_char_def)

lemma nl_not_yaml_char [simp]: "\<not> yaml_char nl" "\<not> graphic nl"
  by (simp_all add: yaml_char_def graphic_def nl_def)

definition plain_scalar :: "string \<Rightarrow> string option" where
  "plain_scalar s = (if s \<noteq> '''' \<and> hd s = CHR ''/'' \<and> list_all graphic s \<and> last s \<noteq> CHR '':'' then Some s else None)"

definition quoted_scalar :: "string \<Rightarrow> string option" where
  "quoted_scalar s =
     (let body = butlast (tl s) in
      if s = [CHR 0x27] @ body @ [CHR 0x27] \<and> list_all yaml_char body \<and> CHR 0x27 \<notin> set body then Some body else None)"

lemma quoted_scalar_quote:
  "list_all yaml_char b \<Longrightarrow> CHR 0x27 \<notin> set b \<Longrightarrow> quoted_scalar (CHR 0x27 # b @ [CHR 0x27]) = Some b"
  by (simp add: quoted_scalar_def)

section \<open>Literal block scalars\<close>

definition indent_of :: "string \<Rightarrow> nat" where
  "indent_of l = length (takeWhile (\<lambda>c. c = CHR '' '') l)"

definition blank :: "string \<Rightarrow> bool" where
  "blank l \<longleftrightarrow> list_all (\<lambda>c. c = CHR '' '') l"

text \<open>
  Clip chomping: the line breaks at the end are one if there is any content, and none otherwise.
\<close>

definition clip :: "string list \<Rightarrow> string" where
  "clip ls = (let ls' = rev (dropWhile (\<lambda>l. l = '''') (rev ls)) in if ls' = [] then '''' else join_lines ls' @ [nl])"

text \<open>
  The lines after the header \<^verbatim>\<open>|\<close> of a scalar that is the value of a key in column \<open>n\<close>. The first
  line that is not blank sets the indentation of the content, which must be larger than \<open>n\<close>; no
  blank line before it may be longer. Content are the lines indented that far and the blank ones
  between them, each without the indentation.
\<close>

definition literal_block :: "nat \<Rightarrow> string list \<Rightarrow> (string \<times> string list) option" where
  "literal_block n ls =
     (case dropWhile blank ls of
        [] \<Rightarrow> Some ('''', [])
      | l # r \<Rightarrow>
          (let i = indent_of l; inside = (\<lambda>x. blank x \<or> i \<le> indent_of x) in
           if i \<le> n then Some ('''', l # r)
           else if list_ex (\<lambda>b. i < length b) (takeWhile blank ls) then None
           else if \<not> list_all (list_all yaml_char) (takeWhile inside ls) then None
           else Some (clip (map (drop i) (takeWhile inside ls)), dropWhile inside ls)))"

lemma literal_block_length:
  assumes "literal_block n ls = Some (s, r)"
  shows "length r \<le> length ls"
proof -
  have "length (dropWhile blank ls) \<le> length ls" "length (dropWhile P ls) \<le> length ls" for P
    by (rule length_dropWhile_le)+
  with assms show ?thesis by (auto simp: literal_block_def Let_def split: list.splits if_splits)
qed

text \<open>
  A text that survives: its characters are printable, and its first line that is not empty does
  not begin with a space, since that would be taken for indentation.
\<close>

definition block_text :: "string \<Rightarrow> bool" where
  "block_text s \<longleftrightarrow> list_all (\<lambda>c. c = nl \<or> yaml_char c) s \<and>
     (case dropWhile (\<lambda>l. l = '''') (lines_of s) of [] \<Rightarrow> True | l # _ \<Rightarrow> hd l \<noteq> CHR '' '')"

lemma block_text_Cons:
  assumes "list_all (\<lambda>c. c = nl \<or> yaml_char c) (c # s)" and "c \<noteq> nl" and "c \<noteq> CHR '' ''"
  shows "block_text (c # s)"
proof -
  obtain l ls where "lines_of (c # s) = (c # l) # ls"
    using assms(2) by (cases "lines_of s") (auto simp: lines_of.simps)
  with assms(1,3) show ?thesis by (simp add: block_text_def)
qed

text \<open>What is read back: the text with exactly one line break at its end, or nothing.\<close>

definition clip_text :: "string \<Rightarrow> string" where
  "clip_text s = clip (lines_of s)"

lemma clip_text_exact:
  assumes "b \<noteq> ''''" and "last b \<noteq> nl"
  shows "clip_text (b @ [nl]) = b @ [nl]" and "clip_text b = b @ [nl]"
proof -
  obtain c where b: "b = butlast b @ [c]" and c: "c \<noteq> nl" using assms by (metis append_butlast_last_id)
  have "last (lines_of (u @ [c])) \<noteq> ''''" for u
  proof (induction u)
    case (Cons x u)
    then show ?case by (cases "lines_of (u @ [c])") (auto simp: lines_of.simps)
  qed (use c in \<open>simp add: lines_of.simps\<close>)
  then have "last (lines_of b) \<noteq> ''''" using b by metis
  then have d: "dropWhile (\<lambda>l. l = '''') (rev (lines_of b)) = rev (lines_of b)"
    by (cases "rev (lines_of b)") (simp_all add: hd_rev [symmetric])
  then show "clip_text b = b @ [nl]" by (simp add: clip_text_def clip_def)
  have "lines_of (b @ [nl]) = lines_of b @ ['''']" using lines_of_append_nl [of b "[]"] by (simp add: lines_of_Nil)
  with d show "clip_text (b @ [nl]) = b @ [nl]" by (simp add: clip_text_def clip_def)
qed

abbreviation spaces :: "nat \<Rightarrow> string" where
  "spaces n \<equiv> replicate n (CHR '' '')"

lemma blank_indented [simp]: "blank (spaces n @ l) = blank l"
  by (auto simp: blank_def list_all_iff dest: in_set_replicate [THEN iffD1])

lemma blank_Nil [simp]: "blank []"
  by (simp add: blank_def)

lemma indent_of_indented: "indent_of (spaces n @ l) = n + indent_of l"
  by (simp add: indent_of_def takeWhile_append)

lemma blank_line: "hd l \<noteq> CHR '' '' \<Longrightarrow> l \<noteq> '''' \<Longrightarrow> \<not> blank l"
  by (cases l) (auto simp: blank_def)

lemma indent_of_hd: "hd l \<noteq> CHR '' '' \<Longrightarrow> l \<noteq> '''' \<Longrightarrow> indent_of l = 0"
  by (cases l) (simp_all add: indent_of_def)

lemma takeWhile_all_then: "\<forall>y\<in>set ys. P y \<Longrightarrow> \<not> P x \<Longrightarrow> takeWhile P (ys @ x # xs) = ys"
  and dropWhile_all_then: "\<forall>y\<in>set ys. P y \<Longrightarrow> \<not> P x \<Longrightarrow> dropWhile P (ys @ x # xs) = x # xs"
  by (induction ys) auto

lemma literal_block_indented:
  assumes "block_text s" and "\<not> blank x" and "indent_of x \<le> n" and "n < k"
  shows "literal_block n (map (\<lambda>l. spaces k @ l) (lines_of s) @ x # xs) = Some (clip_text s, x # xs)"
proof -
  let ?ls = "lines_of s" and ?m = "map (\<lambda>l. spaces k @ l)"
  define E where "E = takeWhile (\<lambda>l. l = '''') ?ls"
  define R where "R = dropWhile (\<lambda>l. l = '''') ?ls"
  have ls: "?ls = E @ R" by (simp add: E_def R_def)
  have E: "\<forall>l\<in>set E. l = ''''" by (auto simp: E_def dest: set_takeWhileD)
  then have blanks: "\<forall>b\<in>set (?m E). blank b" by fastforce
  show ?thesis
  proof (cases R)
    case Nil
    then have "dropWhile blank (?m ?ls @ x # xs) = x # xs" using ls blanks assms(2)
      by (simp add: dropWhile_all_then)
    moreover have "clip_text s = ''''" using ls Nil E by (simp add: clip_text_def clip_def)
    ultimately show ?thesis using assms(3) by (simp add: literal_block_def Let_def)
  next
    case (Cons l R')
    have l: "l \<noteq> ''''" using Cons unfolding R_def dropWhile_eq_Cons_conv by blast
    have hd: "hd l \<noteq> CHR '' ''" using assms(1) Cons by (simp add: block_text_def R_def)
    have nb: "\<not> blank (spaces k @ l)" using blank_line [OF hd l] by simp
    have i: "indent_of (spaces k @ l) = k" using indent_of_hd [OF hd l] by (simp add: indent_of_indented)
    have m: "?m ?ls @ x # xs = ?m E @ (spaces k @ l) # ?m R' @ x # xs" using ls Cons by simp
    have split: "dropWhile blank (?m ?ls @ x # xs) = (spaces k @ l) # ?m R' @ x # xs"
      "takeWhile blank (?m ?ls @ x # xs) = ?m E"
      unfolding m by (rule dropWhile_all_then takeWhile_all_then, fact blanks, fact nb)+
    let ?in = "\<lambda>x. blank x \<or> k \<le> indent_of x"
    have short: "\<not> list_ex (\<lambda>b. k < length b) (?m E)" using E by (auto simp: list_ex_iff)
    have inside: "\<forall>y\<in>set (?m ?ls). ?in y" by (auto simp: indent_of_indented)
    have out: "\<not> ?in x" using assms(2-4) by simp
    have block: "takeWhile ?in (?m ?ls @ x # xs) = ?m ?ls" "dropWhile ?in (?m ?ls @ x # xs) = x # xs"
      by (rule dropWhile_all_then takeWhile_all_then, fact inside, fact out)+
    have chars: "list_all (list_all yaml_char) (?m ?ls)"
    proof -
      have "yaml_char c" if "y \<in> set ?ls" "c \<in> set y" for y c
        using set_lines_of [OF that(1)] that(2) assms(1) by (auto simp: block_text_def list_all_iff)
      moreover have "yaml_char (CHR '' '')" by (simp add: yaml_char_def)
      ultimately show ?thesis by (auto simp: list_all_iff)
    qed
    have "map (drop k) (?m ?ls) = ?ls" by (simp add: o_def)
    then show ?thesis
      unfolding literal_block_def split list.case i Let_def block using assms(4) short chars
      by (simp add: clip_text_def)
  qed
qed

end
