(* ===== verification/Cloud_Init.thy ===== *)
theory Cloud_Init
  imports Vm_Provider Tls_Utils Yaml_Text
begin

text \<open>
  The cloud-init configuration of a machine, \<^verbatim>\<open>pkg/provider/vmop/cloudinit\<close>: the Ray
  bootstrap configuration (\<^verbatim>\<open>bootstrap_config.go\<close>), the two text templates with the data they
  are executed on, and the secret that carries the result (\<^verbatim>\<open>templator.go\<close>). Serialising to
  YAML is the work of a library outside the repository and is a parameter. The lemmas show
  that what the machine reads is what was meant: file contents survive indentation and the
  literal block they are put in, the secret decodes to the rendered text, and a worker's
  configuration carries nothing of the service account token.
\<close>

section \<open>Constants\<close>

definition ProviderType :: string where "ProviderType = ''vsphere''"
definition UpscalingSpeed :: int where "UpscalingSpeed = 1"
definition SSHPvtKeyPath :: string where "SSHPvtKeyPath = ''/home/ray/.ssh/id_rsa_ray''"

definition CloudInitConfigUserDataKey :: string where "CloudInitConfigUserDataKey = ''user-data''"
definition ssh_rsa_key_file :: string where "ssh_rsa_key_file = ''id_rsa_ray''"
definition Ca_cert_file :: string where "Ca_cert_file = ''ca.crt''"
definition Ca_key_file :: string where "Ca_key_file = ''ca.key''"
definition svc_account_token_env_file :: string where
  "svc_account_token_env_file = ''svc-account-token.env''"
definition ray_container_name :: string where "ray_container_name = ''ray_container''"
definition RayHeadDefaultPort :: int32 where "RayHeadDefaultPort = 6379"
definition ray_bootstrap_config_file :: string where
  "ray_bootstrap_config_file = ''ray_bootstrap_config.yaml''"
definition RunScriptToGenCerts :: string where "RunScriptToGenCerts = ''sh /home/ray/gencert.sh''"

text \<open>The two format strings, applied to the port.\<close>

definition RayHeadStartCmd :: "int32 \<Rightarrow> string" where
  "RayHeadStartCmd port = ''ray start --head --port='' @ show_int32 port @
     '' --block --autoscaling-config=/home/ray/ray_bootstrap_config.yaml --dashboard-host=0.0.0.0''"

definition RayWorkerStartCmd :: "int32 \<Rightarrow> string" where
  "RayWorkerStartCmd port = ''ray start --block --address=$RAY_HEAD_IP:'' @ show_int32 port"

section \<open>The Ray bootstrap configuration\<close>

record VsphereConfig =
  vsc_CaCert :: string
  vsc_APIServer :: string
  vsc_Namespace :: string
  vsc_VmImage :: string
  vsc_StorageClass :: string

record Provider =
  prov_Type :: string
  prov_VsphereConfig :: VsphereConfig

record Docker =
  dk_Image :: string
  dk_ContainerName :: string
  dk_pullBeforeRun :: bool
  dk_RunOptions :: "string list"
  dk_WorkerRunOptions :: "string list"

record Auth =
  au_SSHUser :: string
  au_SSHPvtKey :: string

record Resources =
  res_CPU :: uint8
  res_Memory :: uint
  res_GPU :: uint8

record NodeConfig =
  ncf_VMclass :: string

record Node =
  nd_NodeConfig :: NodeConfig
  nd_MinWorkers :: uint
  nd_MaxWorkers :: uint
  nd_Resources :: Resources

text \<open>\<^verbatim>\<open>FileMounts\<close> is an empty struct and has no field here.\<close>

record RayBootstrapConfig =
  rbc_ClusterName :: string
  rbc_MaxWorkers :: uint
  rbc_UpscalingSpeed :: int
  rbc_Docker :: Docker
  rbc_IdleTimeoutMinutes :: uint
  rbc_Provider :: Provider
  rbc_Auth :: Auth
  rbc_AvailableNodeTypes :: "string \<rightharpoonup> Node"
  rbc_HeadNodeType :: string
  rbc_ClusterSyncedFiles :: "string list"
  rbc_FileMountsSyncContinuously :: bool
  rbc_RsyncExclude :: "string list"
  rbc_RsyncFilter :: "string list"
  rbc_InitializationCommands :: "string list"
  rbc_SetupCommands :: "string list"
  rbc_HeadSetupCommands :: "string list"
  rbc_WorkerSetupCommands :: "string list"
  rbc_HeadStartRayCommands :: "string list"
  rbc_WorkerStartRayCommands :: "string list"
  rbc_NoRestart :: bool

record CloudConfig =
  cc_VmDeploymentRequest :: VmDeploymentRequest
  cc_SvcAccToken :: string
  cc_SecretName :: string
  cc_SshPvtKey :: string
  cc_CaCrt :: string
  cc_CaKey :: string
  cc_DockerLoginCmd :: string
  cc_EnableTLS :: int

abbreviation cc_NodeConfig :: "CloudConfig \<Rightarrow> CommonNodeConfig" where
  "cc_NodeConfig cc \<equiv> vdr_NodeConfig (cc_VmDeploymentRequest cc)"

definition node_of_type :: "NodeType \<Rightarrow> Node" where
  "node_of_type nt =
     \<lparr>nd_NodeConfig = \<lparr>ncf_VMclass = nt_VMClass nt\<rparr>, nd_MinWorkers = nt_MinWorkers nt,
      nd_MaxWorkers = nt_MaxWorkers nt,
      nd_Resources = \<lparr>res_CPU = nr_CPU (nt_Resources nt), res_Memory = nr_Memory (nt_Resources nt),
        res_GPU = nr_GPU (nt_Resources nt)\<rparr>\<rparr>"

text \<open>The map is filled in the order the runtime ranges over the node types.\<close>

fun add_node_types :: "(string \<times> NodeType) list \<Rightarrow> (string \<rightharpoonup> Node) \<Rightarrow> (string \<rightharpoonup> Node)" where
  "add_node_types [] m = m"
| "add_node_types ((key, nt) # rest) m = add_node_types rest (m(key \<mapsto> node_of_type nt))"

definition getAvailableNodeTypes :: "nat list \<Rightarrow> CloudConfig \<Rightarrow> string \<rightharpoonup> Node" where
  "getAvailableNodeTypes cs cc =
     add_node_types (go_range cs (nc_NodeTypes (cc_NodeConfig cc))) Map.empty"

definition getRayBootstrapConfig :: "nat list \<Rightarrow> CloudConfig \<Rightarrow> RayBootstrapConfig" where
  "getRayBootstrapConfig cs cc = (let req = cc_VmDeploymentRequest cc; nc = vdr_NodeConfig req in
     \<lparr>rbc_ClusterName = vdr_ClusterName req,
      rbc_MaxWorkers = nc_MaxWorkers nc,
      rbc_UpscalingSpeed = UpscalingSpeed,
      rbc_Docker = \<lparr>dk_Image = vdr_DockerImage req, dk_ContainerName = ray_container_name,
        dk_pullBeforeRun = True, dk_RunOptions = [], dk_WorkerRunOptions = []\<rparr>,
      rbc_IdleTimeoutMinutes = nc_IdleTimeoutMinutes nc,
      rbc_Provider = \<lparr>prov_Type = ProviderType,
        prov_VsphereConfig = \<lparr>vsc_CaCert = as_CaCert (vdr_ApiServer req),
          vsc_APIServer = as_Location (vdr_ApiServer req), vsc_Namespace = vdr_Namespace req,
          vsc_VmImage = nc_VMImage nc, vsc_StorageClass = nc_StorageClass nc\<rparr>\<rparr>,
      rbc_Auth = \<lparr>au_SSHUser = nc_VMUser nc, au_SSHPvtKey = SSHPvtKeyPath\<rparr>,
      rbc_AvailableNodeTypes = getAvailableNodeTypes cs cc,
      rbc_HeadNodeType = vdr_NodeType req,
      rbc_ClusterSyncedFiles = [],
      rbc_FileMountsSyncContinuously = False,
      rbc_RsyncExclude = [''**/.git'', ''**/.git/**''],
      rbc_RsyncFilter = [''.gitignore''],
      rbc_InitializationCommands = nc_InitializationCommands nc,
      rbc_SetupCommands = nc_SetupCommands nc,
      rbc_HeadSetupCommands = hn_SetupCommands (vdr_HeadNodeConfig req),
      rbc_WorkerSetupCommands = wn_SetupCommands (vdr_WorkerNodeConfig req),
      rbc_HeadStartRayCommands = [],
      rbc_WorkerStartRayCommands = [],
      rbc_NoRestart = False\<rparr>)"

section \<open>Indentation and YAML\<close>

definition addIndentation :: "string \<Rightarrow> int \<Rightarrow> string" where
  "addIndentation yaml indentation =
     (if indentation \<le> 0 then yaml
      else let indentationPrefix = strings_Repeat_space indentation
           in strings_Join (map (\<lambda>s. indentationPrefix @ s) (SplitAfter_nl yaml)) '''')"

text \<open>
  \<^verbatim>\<open>yaml.Marshal\<close> comes from a package outside the repository: the parameter \<open>yaml_marshal\<close>.
\<close>

definition convertToYaml ::
  "(RayBootstrapConfig \<Rightarrow> go_error + string) \<Rightarrow> RayBootstrapConfig \<Rightarrow> int \<Rightarrow> go_error + string" where
  "convertToYaml yaml_marshal config indentation =
     (case yaml_marshal config of
        Inl err \<Rightarrow> Inl err
      | Inr b \<Rightarrow> Inr (addIndentation b indentation))"

definition getRayPort :: "CloudConfig \<Rightarrow> int32" where
  "getRayPort cc =
     (case hn_Port (vdr_HeadNodeConfig (cc_VmDeploymentRequest cc)) of
        None \<Rightarrow> RayHeadDefaultPort
      | Some p \<Rightarrow> int32_of_uint p)"

definition setDockerCommand :: "RayBootstrapConfig \<Rightarrow> CloudConfig \<Rightarrow> RayBootstrapConfig" where
  "setDockerCommand rbc cc = (let port = getRayPort cc in
     rbc\<lparr>rbc_WorkerStartRayCommands := rbc_WorkerStartRayCommands rbc @
           [RunScriptToGenCerts, ''ray stop'', RayWorkerStartCmd port],
         rbc_HeadStartRayCommands := rbc_HeadStartRayCommands rbc @
           [RunScriptToGenCerts, ''ray stop'', RayHeadStartCmd port]\<rparr>)"

definition getBootstrapYamlContent ::
  "(RayBootstrapConfig \<Rightarrow> go_error + string) \<Rightarrow> RayBootstrapConfig \<Rightarrow> go_error + string gomap" where
  "getBootstrapYamlContent yaml_marshal rbc =
     (case convertToYaml yaml_marshal rbc 5 of
        Inl err \<Rightarrow> Inl err
      | Inr s \<Rightarrow> Inr [(''path'', ''/home/'' @ au_SSHUser (rbc_Auth rbc) @ ''/ray_bootstrap_config.yaml''),
                      (''content'', s)])"

section \<open>The templates\<close>

text \<open>
  The data both templates are executed on. A field of a map that has no such key prints as
  \<^verbatim>\<open><no value>\<close> and counts as false in a condition, as an empty string does.
\<close>

record template_data =
  td_users :: "string gomap list"
  td_files :: "string gomap list"
  td_docker_image :: string
  td_initialization_commands :: "string list"
  td_docker_cmd :: string
  td_docker_flags :: string
  td_enable_docker_execution :: bool
  td_ssh_rsa_key_path :: string
  td_docker_login_cmd :: string

definition tmpl_field :: "string gomap \<Rightarrow> string \<Rightarrow> string" where
  "tmpl_field m k = (case map_of m k of None \<Rightarrow> ''<no value>'' | Some v \<Rightarrow> v)"

definition tmpl_true :: "string gomap \<Rightarrow> string \<Rightarrow> bool" where
  "tmpl_true m k \<longleftrightarrow> (case map_of m k of None \<Rightarrow> False | Some v \<Rightarrow> v \<noteq> '''')"

text \<open>
  The bodies of the two \<^verbatim>\<open>range\<close> blocks and the lines around them. The markers \<^verbatim>\<open>{{-\<close> trim the
  newline in front of them, so every line is written with the newline it starts with.
\<close>

definition tmpl_lines :: "string list \<Rightarrow> string" where
  "tmpl_lines ls = concat (map (\<lambda>l. nl # l) ls)"

definition content_tag :: string where "content_tag = ''  - content: |''"
definition path_tag :: string where "path_tag = ''    path: ''"
definition permissions_tag :: string where "permissions_tag = ''    permissions: '' @ [CHR 0x27]"
definition files_tag :: string where "files_tag = ''write_files:''"
definition runcmd_tag :: string where "runcmd_tag = ''runcmd:''"

definition user_lines :: "string gomap \<Rightarrow> string list" where
  "user_lines u =
     [''  - name: '' @ tmpl_field u ''user'',
      ''    sudo: ALL=(ALL) NOPASSWD:ALL'',
      ''    lock_passwd: false'',
      ''    passwd: '' @ [CHR 0x22] @ tmpl_field u ''passSaltHash'' @ [CHR 0x22],
      ''    shell: /bin/bash'']"

definition file_lines :: "string gomap \<Rightarrow> string list" where
  "file_lines f =
     [content_tag,
      tmpl_field f ''content'',
      path_tag @ tmpl_field f ''path''] @
     (if tmpl_true f ''permissions''
      then [permissions_tag @ tmpl_field f ''permissions'' @ [CHR 0x27]] else [])"

text \<open>One line \<^verbatim>\<open>- su <user> -c '<command>'\<close>; \<open>u\<close> is \<^verbatim>\<open>(index .users 0).user\<close>.\<close>

definition su_line :: "string \<Rightarrow> string \<Rightarrow> string" where
  "su_line u cmd = ''  - su '' @ u @ '' -c '' @ [CHR 0x27] @ cmd @ [CHR 0x27]"

definition run_lines :: "string \<Rightarrow> template_data \<Rightarrow> string list" where
  "run_lines u d =
     [''  - chown -R '' @ u @ '':'' @ u @ '' /home/'' @ u,
      ''  - usermod -aG docker '' @ u,
      su_line u (''ssh-keygen -f '' @ td_ssh_rsa_key_path d @ '' -t RSA -y > '' @ td_ssh_rsa_key_path d @ ''.pub''),
      su_line u (''cat '' @ td_ssh_rsa_key_path d @ ''.pub >> ~/.ssh/authorized_keys''),
      su_line u (''echo '' @ [CHR 0x22, CHR 0x22] @ '' >> ~/.bashrc'')] @
     (if td_docker_login_cmd d \<noteq> '''' then [su_line u (td_docker_login_cmd d)] else [])"

definition docker_lines :: "string \<Rightarrow> template_data \<Rightarrow> string list" where
  "docker_lines u d =
     map (su_line u) (td_initialization_commands d) @
     [su_line u (''docker pull '' @ td_docker_image d),
      su_line u (''docker run '' @ td_docker_flags d @ '' '' @ td_docker_image d @ ''  /bin/bash -c '' @ [CHR 0x22] @
        ''sudo -i -u root chmod 0777 /home/ray/.ssh/id_rsa_ray; '' @ td_docker_cmd d @ [CHR 0x22])]"

text \<open>Both templates begin with the same text.\<close>

definition render_common :: "string \<Rightarrow> template_data \<Rightarrow> string" where
  "render_common u d =
     ''#cloud-config'' @ tmpl_lines (
       [''ssh_pwauth: true'', ''users:''] @
       concat (map user_lines (td_users d)) @
       [files_tag] @
       concat (map file_lines (td_files d)) @
       [runcmd_tag] @
       run_lines u d)"

text \<open>
  Executing a template. \<^verbatim>\<open>index .users 0\<close> is an error if there is no user.
\<close>

definition index_error :: go_error where
  "index_error = ErrorString ''error calling index: index out of range: 0''"

definition cloudConfigHeadNodeTemplate :: "template_data \<Rightarrow> go_error + string" where
  "cloudConfigHeadNodeTemplate d =
     (case td_users d of
        [] \<Rightarrow> Inl index_error
      | usr # _ \<Rightarrow> let u = tmpl_field usr ''user'' in
          Inr (render_common u d @ (if td_enable_docker_execution d then tmpl_lines (docker_lines u d) else '''') @ [nl]))"

definition cloudConfigWorkerNodeTemplate :: "template_data \<Rightarrow> go_error + string" where
  "cloudConfigWorkerNodeTemplate d =
     (case td_users d of
        [] \<Rightarrow> Inl index_error
      | usr # _ \<Rightarrow> Inr (render_common (tmpl_field usr ''user'') d @ [nl]))"


section \<open>Rendering\<close>

text \<open>The files and docker flags every node gets.\<close>

definition common_files :: "CloudConfig \<Rightarrow> string gomap list" where
  "common_files cc = (let vmuser = nc_VMUser (cc_NodeConfig cc) in
     [[(''path'', ''/home/'' @ vmuser @ ''/.ssh/'' @ ssh_rsa_key_file),
       (''content'', addIndentation (cc_SshPvtKey cc) 5), (''permissions'', ''0600'')],
      [(''path'', ''/home/'' @ vmuser @ ''/'' @ Ca_cert_file),
       (''content'', addIndentation (cc_CaCrt cc) 5), (''permissions'', ''0444'')],
      [(''path'', ''/home/'' @ vmuser @ ''/'' @ Ca_key_file),
       (''content'', addIndentation (cc_CaKey cc) 5), (''permissions'', ''0444'')],
      [(''path'', ''/home/'' @ vmuser @ ''/gencert.sh''),
       (''content'', addIndentation GetRayTLSConfigString 5), (''permissions'', ''0777'')]])"

definition common_docker_flags :: "CloudConfig \<Rightarrow> string list" where
  "common_docker_flags cc = (let vmuser = nc_VMUser (cc_NodeConfig cc) in
     [''-v /home/'' @ vmuser @ ''/'' @ Ca_cert_file @ '':/home/ray/ca.crt'',
      ''-v /home/'' @ vmuser @ ''/'' @ Ca_key_file @ '':/home/ray/ca.key'',
      ''-v /home/'' @ vmuser @ ''/gencert.sh:/home/ray/gencert.sh'',
      ''--env '' @ [CHR 0x22] @ ''RAY_USE_TLS='' @ show_int (cc_EnableTLS cc) @ [CHR 0x22],
      ''--env '' @ [CHR 0x22] @ ''RAY_TLS_CA_CERT=/home/ray/ca.crt'' @ [CHR 0x22],
      ''--env '' @ [CHR 0x22] @ ''RAY_TLS_SERVER_KEY=/home/ray/tls.key'' @ [CHR 0x22],
      ''--env '' @ [CHR 0x22] @ ''RAY_TLS_SERVER_CERT=/home/ray/tls.crt'' @ [CHR 0x22],
      ''--ulimit nofile=65536:65536''])"

text \<open>
  What a head node gets unless the Ray CLI asked for the cluster: the bootstrap file, the
  commands run in the container and the additional flags of \<^verbatim>\<open>docker run\<close>.
\<close>

definition bootstrap_config :: "nat list \<Rightarrow> CloudConfig \<Rightarrow> RayBootstrapConfig" where
  "bootstrap_config cs cc =
     (let rbc = getRayBootstrapConfig cs cc;
          rbc = rbc\<lparr>rbc_Docker := (rbc_Docker rbc)\<lparr>dk_RunOptions := common_docker_flags cc\<rparr>\<rparr>
      in setDockerCommand rbc cc)"

definition head_bootstrap ::
  "(RayBootstrapConfig \<Rightarrow> go_error + string) \<Rightarrow> nat list \<Rightarrow> CloudConfig \<Rightarrow>
   go_error + string gomap \<times> string list \<times> string list" where
  "head_bootstrap yaml_marshal cs cc =
     (let vmuser = nc_VMUser (cc_NodeConfig cc);
          rbc = bootstrap_config cs cc
      in (case getBootstrapYamlContent yaml_marshal rbc of
            Inl err \<Rightarrow> Inl err
          | Inr f \<Rightarrow> Inr (f, rbc_HeadStartRayCommands rbc,
              [''--rm'', ''--name '' @ ray_container_name, ''-d'', ''--network host'',
               ''--env-file /home/'' @ vmuser @ ''/'' @ svc_account_token_env_file,
               ''-v /home/'' @ vmuser @ ''/'' @ ray_bootstrap_config_file @ '':/home/ray/ray_bootstrap_config.yaml'',
               ''-v /home/'' @ vmuser @ ''/.ssh/'' @ ssh_rsa_key_file @ '':/home/ray/.ssh/id_rsa_ray''])))"

definition token_file :: "CloudConfig \<Rightarrow> string gomap" where
  "token_file cc = (let vmuser = nc_VMUser (cc_NodeConfig cc) in
     [(''path'', ''/home/'' @ vmuser @ ''/'' @ svc_account_token_env_file),
      (''content'', addIndentation (''SVC_ACCOUNT_TOKEN='' @ cc_SvcAccToken cc @ [nl] @
         ''RAY_VMSERVICE_IP='' @ vdr_VmService (cc_VmDeploymentRequest cc)) 5),
      (''permissions'', ''0400'')])"

definition the_template_data ::
  "CloudConfig \<Rightarrow> string gomap list \<Rightarrow> string list \<Rightarrow> string list \<Rightarrow> template_data" where
  "the_template_data cc files docker_cmd docker_flags =
     (let req = cc_VmDeploymentRequest cc; vmuser = nc_VMUser (vdr_NodeConfig req) in
     \<lparr>td_users = [[(''user'', vmuser), (''passSaltHash'', nc_VMPasswordSaltHash (vdr_NodeConfig req))]],
      td_files = files,
      td_docker_image = vdr_DockerImage req,
      td_initialization_commands = nc_InitializationCommands (vdr_NodeConfig req),
      td_docker_cmd = strings_Join docker_cmd '';'',
      td_docker_flags = strings_Join docker_flags '' '',
      td_enable_docker_execution = (\<not> IsRayCli (vdr_RayClusterRequestor req)),
      td_ssh_rsa_key_path = ''/home/'' @ vmuser @ ''/.ssh/'' @ ssh_rsa_key_file,
      td_docker_login_cmd = cc_DockerLoginCmd cc\<rparr>)"

text \<open>
  Both templates are constants of the program that parse, so \<^verbatim>\<open>Parse\<close> returns no error.
\<close>

definition produceCloudInitConfigYamlTemplate ::
  "(RayBootstrapConfig \<Rightarrow> go_error + string) \<Rightarrow> nat list \<Rightarrow> CloudConfig \<Rightarrow> go_error + string" where
  "produceCloudInitConfigYamlTemplate yaml_marshal cs cc0 =
     (let req = cc_VmDeploymentRequest cc0;
          cc = cc0\<lparr>cc_EnableTLS := (if \<not> vdr_EnableTLS req then 0 else 1)\<rparr>;
          files = common_files cc;
          docker_flags = common_docker_flags cc
      in if vdr_HeadNodeStatus req = None
         then (if \<not> IsRayCli (vdr_RayClusterRequestor req)
               then (case head_bootstrap yaml_marshal cs cc of
                       Inl err \<Rightarrow> Inl err
                     | Inr (f, docker_cmd, flags) \<Rightarrow>
                         cloudConfigHeadNodeTemplate
                           (the_template_data cc (files @ [f] @ [token_file cc]) docker_cmd (docker_flags @ flags)))
               else cloudConfigHeadNodeTemplate
                      (the_template_data cc (files @ [token_file cc]) [] docker_flags))
         else cloudConfigWorkerNodeTemplate (the_template_data cc files [] docker_flags))"

section \<open>Base64\<close>

text \<open>\<^verbatim>\<open>base64.StdEncoding.EncodeToString\<close>: three bytes become four characters, with padding.\<close>

definition b64_alphabet :: string where
  "b64_alphabet = ''ABCDEFGHIJKLMNOPQRSTUVWXYZabcdefghijklmnopqrstuvwxyz0123456789+/''"

definition b64_char :: "nat \<Rightarrow> char" where
  "b64_char i = b64_alphabet ! i"

fun base64_EncodeToString :: "string \<Rightarrow> string" where
  "base64_EncodeToString [] = []"
| "base64_EncodeToString [a] = (let x = of_char a :: nat in
     [b64_char (x div 4), b64_char (x mod 4 * 16), CHR ''='', CHR ''=''])"
| "base64_EncodeToString [a, b] = (let x = of_char a :: nat; y = of_char b :: nat in
     [b64_char (x div 4), b64_char (x mod 4 * 16 + y div 16), b64_char (y mod 16 * 4), CHR ''=''])"
| "base64_EncodeToString (a # b # c # r) = (let x = of_char a :: nat; y = of_char b :: nat; z = of_char c :: nat in
     [b64_char (x div 4), b64_char (x mod 4 * 16 + y div 16), b64_char (y mod 16 * 4 + z div 64),
      b64_char (z mod 64)] @ base64_EncodeToString r)"

definition CreateCloudInitConfigSecret ::
  "(RayBootstrapConfig \<Rightarrow> go_error + string) \<Rightarrow> nat list \<Rightarrow> CloudConfig \<Rightarrow> go_error + Secret" where
  "CreateCloudInitConfigSecret yaml_marshal cs cc =
     (case produceCloudInitConfigYamlTemplate yaml_marshal cs cc of
        Inl err \<Rightarrow> Inl err
      | Inr data \<Rightarrow> Inr
          \<lparr>sec_meta = new_meta (vdr_Namespace (cc_VmDeploymentRequest cc)) (cc_SecretName cc),
           sec_Type = ''Opaque'', sec_Data = [],
           sec_StringData = [(CloudInitConfigUserDataKey, base64_EncodeToString data)]\<rparr>)"


section \<open>What a reader of the configuration sees\<close>

text \<open>The lines of a rendered text, and what indentation does to lines.\<close>

lemma lines_of_tmpl_lines [simp]:
  "lines_of (a @ tmpl_lines ls) = lines_of a @ concat (map lines_of ls)"
proof (induction ls arbitrary: a)
  case (Cons l ls)
  have "lines_of (a @ tmpl_lines (l # ls)) = lines_of (a @ nl # (l @ tmpl_lines ls))"
    by (simp add: tmpl_lines_def)
  also have "\<dots> = lines_of a @ lines_of (l @ tmpl_lines ls)" by (rule lines_of_append_nl)
  finally show ?case using Cons by simp
qed (simp add: tmpl_lines_def)

lemma addIndentation_concat:
  "addIndentation s n = concat (map (\<lambda>p. strings_Repeat_space n @ p) (SplitAfter_nl s))"
  by (simp add: addIndentation_def strings_Repeat_space_def Let_def)

lemma no_nl_spaces [simp]: "nl \<notin> set (strings_Repeat_space n)"
  by (simp add: strings_Repeat_space_def nl_def)

lemma lines_of_addIndentation:
  "lines_of (addIndentation s n) = map (\<lambda>l. strings_Repeat_space n @ l) (lines_of s)"
  unfolding addIndentation_concat
proof (induction s)
  case (Cons c s)
  let ?i = "strings_Repeat_space n"
  show ?case
  proof (cases "c = nl")
    case True
    then show ?thesis using Cons lines_of_append_nl [of "[]" s] by (simp add: lines_of_Nil)
  next
    case False
    obtain p ps where p: "SplitAfter_nl s = p # ps" by (cases "SplitAfter_nl s") auto
    obtain l ls where l: "lines_of s = l # ls" by (cases "lines_of s") auto
    let ?r = "p @ concat (map ((@) ?i) ps)"
    from Cons p l have "(?i @ hd (lines_of ?r)) # tl (lines_of ?r) = (?i @ l) # map ((@) ?i) ls"
      by (simp add: lines_of_prefix)
    then have "lines_of ?r = l # map ((@) ?i) ls" by (cases "lines_of ?r") auto
    with False p l show ?thesis by (simp add: lines_of_prefix lines_of.simps)
  qed
qed simp

text \<open>
  How a YAML reader sees the list under \<^verbatim>\<open>write_files:\<close>, for the keys in the order the templates
  print them: the content is a literal block in column four, the path a plain scalar, and the
  permissions, where they are given, a quoted one. A plain scalar ends with its line if the next
  line is not indented further. The list ends at the next key of the document. What comes after
  is not looked at.
\<close>

definition ends_scalar :: "string list \<Rightarrow> bool" where
  "ends_scalar ls \<longleftrightarrow> (case ls of [] \<Rightarrow> True | l # _ \<Rightarrow> \<not> blank l \<and> indent_of l \<le> 4)"

definition read_path :: "string list \<Rightarrow> (string \<times> string list) option" where
  "read_path ls =
     (case ls of
        [] \<Rightarrow> None
      | p # r \<Rightarrow>
          (if prefix path_tag p \<and> ends_scalar r
           then map_option (\<lambda>s. (s, r)) (plain_scalar (drop (length path_tag) p)) else None))"

definition permissions_key :: string where "permissions_key = ''    permissions: ''"

definition read_permissions :: "string list \<Rightarrow> (string \<times> string list) option" where
  "read_permissions ls =
     (case ls of
        [] \<Rightarrow> Some ('''', [])
      | q # r \<Rightarrow>
          (if prefix permissions_key q then map_option (\<lambda>s. (s, r)) (quoted_scalar (drop (length permissions_key) q))
           else Some ('''', q # r)))"

definition read_entry :: "string list \<Rightarrow> ((string \<times> string \<times> string) \<times> string list) option" where
  "read_entry ls =
     (case ls of
        [] \<Rightarrow> None
      | l # r \<Rightarrow>
          (if l \<noteq> content_tag then None
           else (case literal_block 4 r of
                   None \<Rightarrow> None
                 | Some (content, r1) \<Rightarrow>
                     (case read_path r1 of
                        None \<Rightarrow> None
                      | Some (path, r2) \<Rightarrow>
                          map_option (\<lambda>(perm, r3). ((path, content, perm), r3)) (read_permissions r2)))))"

lemma read_entry_shorter:
  assumes "read_entry ls = Some (e, r)"
  shows "length r < length ls"
proof -
  from assms obtain l r0 content r1 path r2 perm where ls: "ls = l # r0" and b: "literal_block 4 r0 = Some (content, r1)"
    and p: "read_path r1 = Some (path, r2)" and q: "read_permissions r2 = Some (perm, r)"
    by (auto simp: read_entry_def split: list.splits if_splits option.splits)
  have "length r2 \<le> length r1" using p by (auto simp: read_path_def split: list.splits if_splits)
  moreover have "length r \<le> length r2" using q by (auto simp: read_permissions_def split: list.splits if_splits)
  ultimately show ?thesis using literal_block_length [OF b] ls by simp
qed

definition document_key :: "string \<Rightarrow> bool" where
  "document_key l \<longleftrightarrow> l \<noteq> '''' \<and> 97 \<le> (of_char (hd l) :: nat) \<and> (of_char (hd l) :: nat) \<le> 122"

function read_entries :: "string list \<Rightarrow> (string \<times> string \<times> string) list option" where
  "read_entries ls =
     (if ls = [] \<or> document_key (hd ls) then Some []
      else (case read_entry ls of
              None \<Rightarrow> None
            | Some (e, r) \<Rightarrow> map_option (\<lambda>es. e # es) (read_entries r)))"
  by pat_completeness auto
termination by (relation "measure length") (auto dest: read_entry_shorter)

declare read_entries.simps [simp del]

definition write_files_lines :: "string \<Rightarrow> string list" where
  "write_files_lines out = tl (dropWhile (\<lambda>l. l \<noteq> files_tag) (lines_of out))"

definition read_write_files :: "string \<Rightarrow> (string \<times> string \<times> string) list option" where
  "read_write_files out = read_entries (write_files_lines out)"

text \<open>Everything the templates print is a first line followed by template lines.\<close>

lemma tmpl_lines_append [simp]: "tmpl_lines (xs @ ys) = tmpl_lines xs @ tmpl_lines ys"
  by (simp add: tmpl_lines_def)

lemma tag_no_nl [simp]:
  "nl \<notin> set content_tag" "nl \<notin> set path_tag" "nl \<notin> set permissions_tag" "nl \<notin> set files_tag"
  "nl \<notin> set runcmd_tag"
  by (simp_all add: content_tag_def path_tag_def permissions_tag_def files_tag_def runcmd_tag_def nl_def)

lemma permissions_tag_key: "permissions_tag @ p = permissions_key @ [CHR 0x27] @ p"
  by (simp add: permissions_tag_def permissions_key_def)

text \<open>A line that can follow an entry of the list.\<close>

definition next_line :: "string \<Rightarrow> bool" where
  "next_line x \<longleftrightarrow> \<not> blank x \<and> indent_of x \<le> 4 \<and> \<not> prefix permissions_key x"

lemma tags_next [simp]:
  "next_line content_tag" "next_line runcmd_tag" "document_key runcmd_tag" "\<not> document_key content_tag"
  "\<not> blank (path_tag @ p)" "indent_of (path_tag @ p) = 4" "\<not> blank (permissions_key @ p)" "indent_of (permissions_key @ p) = 4"
  by (simp_all add: next_line_def blank_def indent_of_def document_key_def content_tag_def runcmd_tag_def
      permissions_key_def path_tag_def)

text \<open>The file entry \<open>f\<close> writes \<open>content\<close> to \<open>path\<close> with \<open>perm\<close>, if that is not empty.\<close>

definition writes :: "string gomap \<Rightarrow> string \<times> string \<times> string \<Rightarrow> bool" where
  "writes f e \<longleftrightarrow> (case e of (path, content, perm) \<Rightarrow>
     map_of f ''path'' = Some path \<and> plain_scalar path = Some path \<and>
     map_of f ''content'' = Some (addIndentation content 5) \<and>
     (if perm = '''' then map_of f ''permissions'' = None
      else map_of f ''permissions'' = Some perm \<and> list_all yaml_char perm \<and> CHR 0x27 \<notin> set perm))"

lemma list_all_no_nl: "list_all yaml_char s \<Longrightarrow> nl \<notin> set s" "list_all graphic s \<Longrightarrow> nl \<notin> set s"
  by (auto simp: list_all_iff)

lemma plain_scalar_no_nl: "plain_scalar s = Some s \<Longrightarrow> nl \<notin> set s"
  by (auto simp: plain_scalar_def list_all_iff split: if_splits)

lemma file_lines_written:
  assumes "writes f (path, content, perm)"
  shows "concat (map lines_of (file_lines f)) =
    content_tag # map (\<lambda>l. spaces 5 @ l) (lines_of content) @ (path_tag @ path) #
      (if perm = '''' then [] else [permissions_key @ CHR 0x27 # perm @ [CHR 0x27]])"
proof -
  have p: "nl \<notin> set path" and q: "perm \<noteq> '''' \<longrightarrow> nl \<notin> set perm"
    using assms by (auto simp: writes_def dest: plain_scalar_no_nl list_all_no_nl)
  have "lines_of (permissions_tag @ perm @ [CHR 0x27]) = [permissions_key @ CHR 0x27 # perm @ [CHR 0x27]]"
    if "perm \<noteq> ''''"
    using that q by (subst lines_of_single) (auto simp: permissions_key_def permissions_tag_def nl_def)
  moreover have "strings_Repeat_space 5 = spaces 5" by (simp add: strings_Repeat_space_def)
  ultimately show ?thesis using assms p q
    by (auto simp: writes_def file_lines_def tmpl_field_def tmpl_true_def lines_of_addIndentation)
qed

lemma read_file:
  assumes "writes f (path, content, perm)" and "block_text content" and "next_line x"
  shows "read_entry (concat (map lines_of (file_lines f)) @ x # xs) = Some ((path, clip_text content, perm), x # xs)"
proof -
  let ?perm = "if perm = '''' then [] else [permissions_key @ CHR 0x27 # perm @ [CHR 0x27]]"
  have block: "literal_block 4 (map (\<lambda>l. spaces 5 @ l) (lines_of content) @ (path_tag @ path) # ?perm @ x # xs) =
      Some (clip_text content, (path_tag @ path) # ?perm @ x # xs)"
    by (rule literal_block_indented [OF assms(2)]) simp_all
  have "ends_scalar (?perm @ x # xs)" using assms(3) by (simp add: ends_scalar_def next_line_def)
  with assms(1) have path: "read_path ((path_tag @ path) # ?perm @ x # xs) = Some (path, ?perm @ x # xs)"
    by (simp add: read_path_def writes_def)
  have perm: "read_permissions (?perm @ x # xs) = Some (perm, x # xs)"
    using assms(1,3) by (auto simp: read_permissions_def writes_def next_line_def quoted_scalar_quote)
  show ?thesis
    unfolding file_lines_written [OF assms(1)] read_entry_def
    using block path perm by simp
qed

lemma entries_next:
  obtains y ys where "concat (map lines_of (concat (map file_lines fs))) @ runcmd_tag # xs = y # ys" "next_line y"
  using that by (cases fs) (auto simp: file_lines_def)

lemma read_files:
  assumes "list_all2 writes fs es" and "list_all (\<lambda>(p, c, m). block_text c) es"
  shows "read_entries (concat (map lines_of (concat (map file_lines fs))) @ runcmd_tag # xs) =
    Some (map (\<lambda>(p, c, m). (p, clip_text c, m)) es)"
  using assms
proof (induction fs es rule: list_all2_induct)
  case Nil
  show ?case by (subst read_entries.simps) simp
next
  case (Cons f fs e es)
  obtain path content perm where e: "e = (path, content, perm)" by (cases e)
  let ?rest = "concat (map lines_of (concat (map file_lines fs))) @ runcmd_tag # xs"
  obtain y ys where y: "?rest = y # ys" and ny: "next_line y" by (rule entries_next)
  have "read_entry (concat (map lines_of (file_lines f)) @ ?rest) = Some ((path, clip_text content, perm), ?rest)"
    unfolding y using Cons e by (intro read_file [OF _ _ ny]) simp_all
  moreover have "hd (concat (map lines_of (file_lines f)) @ ?rest) = content_tag"
    by (simp add: file_lines_def)
  moreover have "concat (map lines_of (file_lines f)) @ ?rest \<noteq> []" by (simp add: file_lines_def)
  ultimately have "read_entries (concat (map lines_of (file_lines f)) @ ?rest) =
      map_option (\<lambda>es. (path, clip_text content, perm) # es) (read_entries ?rest)"
    by (subst read_entries.simps) simp
  with Cons e show ?case by simp
qed

lemma lines_of_users:
  assumes "nl \<notin> set u" and "nl \<notin> set h"
  shows "concat (map lines_of (user_lines [(''user'', u), (''passSaltHash'', h)])) =
      user_lines [(''user'', u), (''passSaltHash'', h)]"
    and "files_tag \<notin> set (user_lines [(''user'', u), (''passSaltHash'', h)])"
  using assms by (simp_all add: user_lines_def tmpl_field_def files_tag_def nl_def)

lemma dropWhile_upto: "x \<notin> set xs \<Longrightarrow> dropWhile (\<lambda>l. l \<noteq> x) (xs @ x # ys) = x # ys"
  by (induction xs) auto

lemma write_files_rendered:
  assumes "td_users d = [[(''user'', u), (''passSaltHash'', h)]]" and "nl \<notin> set u" and "nl \<notin> set h"
  shows "write_files_lines (render_common v d @ tmpl_lines rest) =
    concat (map lines_of (concat (map file_lines (td_files d)))) @ runcmd_tag # concat (map lines_of (run_lines v d @ rest))"
proof -
  let ?u = "user_lines [(''user'', u), (''passSaltHash'', h)]"
  let ?rest = "concat (map lines_of (run_lines v d @ rest))"
  have "lines_of (render_common v d @ tmpl_lines rest) =
    ([''#cloud-config'', ''ssh_pwauth: true'', ''users:''] @ ?u) @
     files_tag # concat (map lines_of (concat (map file_lines (td_files d)))) @ runcmd_tag # ?rest"
    unfolding render_common_def append_assoc tmpl_lines_append [symmetric] lines_of_tmpl_lines assms(1)
    by (simp add: lines_of_users [OF assms(2,3)]) (simp add: nl_def)
  moreover have "files_tag \<notin> set ([''#cloud-config'', ''ssh_pwauth: true'', ''users:''] @ ?u)"
    using lines_of_users(2) [OF assms(2,3)] by (simp add: files_tag_def)
  ultimately show ?thesis using dropWhile_upto by (metis write_files_lines_def list.sel(3))
qed

section \<open>What a machine gets\<close>

text \<open>The files of a configuration, as the program means them.\<close>

definition intended_files ::
  "(RayBootstrapConfig \<Rightarrow> go_error + string) \<Rightarrow> nat list \<Rightarrow> CloudConfig \<Rightarrow> (string \<times> string \<times> string) list" where
  "intended_files yaml_marshal cs cc0 =
     (let req = cc_VmDeploymentRequest cc0; home = ''/home/'' @ nc_VMUser (vdr_NodeConfig req) @ ''/'';
          cc = cc0\<lparr>cc_EnableTLS := (if \<not> vdr_EnableTLS req then 0 else 1)\<rparr>
      in [(home @ ''.ssh/id_rsa_ray'', cc_SshPvtKey cc, ''0600''),
          (home @ ''ca.crt'', cc_CaCrt cc, ''0444''),
          (home @ ''ca.key'', cc_CaKey cc, ''0444''),
          (home @ ''gencert.sh'', GetRayTLSConfigString, ''0777'')] @
         (if vdr_HeadNodeStatus req = None
          then (if IsRayCli (vdr_RayClusterRequestor req) then []
                else (case yaml_marshal (bootstrap_config cs cc) of
                        Inl _ \<Rightarrow> []
                      | Inr y \<Rightarrow> [(home @ ''ray_bootstrap_config.yaml'', y, '''')])) @
               [(home @ ''svc-account-token.env'',
                 ''SVC_ACCOUNT_TOKEN='' @ cc_SvcAccToken cc @ [nl] @ ''RAY_VMSERVICE_IP='' @ vdr_VmService req,
                 ''0400'')]
          else []))"

lemmas file_name_defs = ssh_rsa_key_file_def Ca_cert_file_def Ca_key_file_def
  svc_account_token_env_file_def ray_bootstrap_config_file_def

lemma writes_intro:
  "plain_scalar p = Some p \<Longrightarrow> perm \<noteq> '''' \<Longrightarrow> list_all yaml_char perm \<Longrightarrow> CHR 0x27 \<notin> set perm \<Longrightarrow>
   writes [(''path'', p), (''content'', addIndentation s 5), (''permissions'', perm)] (p, s, perm)"
  "plain_scalar p = Some p \<Longrightarrow> writes [(''path'', p), (''content'', addIndentation s 5)] (p, s, '''')"
  by (simp_all add: writes_def)

lemma home_scalar:
  assumes "list_all graphic u"
  shows "plain_scalar (''/home/'' @ u @ ''/.ssh/'' @ ssh_rsa_key_file) = Some (''/home/'' @ u @ ''/.ssh/'' @ ssh_rsa_key_file)"
    "plain_scalar (''/home/'' @ u @ ''/'' @ Ca_cert_file) = Some (''/home/'' @ u @ ''/'' @ Ca_cert_file)"
    "plain_scalar (''/home/'' @ u @ ''/'' @ Ca_key_file) = Some (''/home/'' @ u @ ''/'' @ Ca_key_file)"
    "plain_scalar (''/home/'' @ u @ ''/gencert.sh'') = Some (''/home/'' @ u @ ''/gencert.sh'')"
    "plain_scalar (''/home/'' @ u @ ''/ray_bootstrap_config.yaml'') = Some (''/home/'' @ u @ ''/ray_bootstrap_config.yaml'')"
    "plain_scalar (''/home/'' @ u @ ''/'' @ svc_account_token_env_file) = Some (''/home/'' @ u @ ''/'' @ svc_account_token_env_file)"
  using assms by (simp_all add: plain_scalar_def file_name_defs graphic_def)

lemma permission_scalars [simp]: "list_all yaml_char ''0600''" "list_all yaml_char ''0444''" "list_all yaml_char ''0777''"
  "list_all yaml_char ''0400''"
  by (simp_all add: yaml_char_def)

lemma common_files_write:
  assumes "list_all graphic (nc_VMUser (cc_NodeConfig cc))"
  shows "list_all2 writes (common_files cc)
    (let home = ''/home/'' @ nc_VMUser (cc_NodeConfig cc) @ ''/'' in
     [(home @ ''.ssh/id_rsa_ray'', cc_SshPvtKey cc, ''0600''), (home @ ''ca.crt'', cc_CaCrt cc, ''0444''),
      (home @ ''ca.key'', cc_CaKey cc, ''0444''), (home @ ''gencert.sh'', GetRayTLSConfigString, ''0777'')])"
  using home_scalar [OF assms] unfolding common_files_def Let_def
  by (auto intro!: list.rel_intros writes_intro simp: file_name_defs yaml_char_def)

lemma tmpl_lines_empty: "[nl] = tmpl_lines ['''']"
  by (simp add: tmpl_lines_def)

lemma template_output:
  "cloudConfigHeadNodeTemplate d = Inr out \<Longrightarrow> \<exists>u rest. out = render_common u d @ tmpl_lines rest"
  "cloudConfigWorkerNodeTemplate d = Inr out \<Longrightarrow> \<exists>u rest. out = render_common u d @ tmpl_lines rest"
  unfolding cloudConfigHeadNodeTemplate_def cloudConfigWorkerNodeTemplate_def tmpl_lines_empty
  by (auto simp: Let_def tmpl_lines_append [symmetric] simp del: tmpl_lines_append
      split: list.splits if_splits)

lemma the_template_data_sel [simp]:
  "td_files (the_template_data cc files cmds flags) = files"
  "td_users (the_template_data cc files cmds flags) =
     [[(''user'', nc_VMUser (cc_NodeConfig cc)), (''passSaltHash'', nc_VMPasswordSaltHash (cc_NodeConfig cc))]]"
  by (simp_all add: the_template_data_def Let_def)

lemma token_file_writes:
  assumes "list_all graphic (nc_VMUser (cc_NodeConfig cc))"
  shows "writes (token_file cc) (''/home/'' @ nc_VMUser (cc_NodeConfig cc) @ ''/svc-account-token.env'',
    ''SVC_ACCOUNT_TOKEN='' @ cc_SvcAccToken cc @ [nl] @ ''RAY_VMSERVICE_IP='' @
      vdr_VmService (cc_VmDeploymentRequest cc), ''0400'')"
  using home_scalar [OF assms] unfolding token_file_def Let_def
  by (auto intro!: writes_intro simp: file_name_defs yaml_char_def)

lemma bootstrap_user [simp]: "au_SSHUser (rbc_Auth (bootstrap_config cs cc)) = nc_VMUser (cc_NodeConfig cc)"
  by (simp add: bootstrap_config_def setDockerCommand_def getRayBootstrapConfig_def Let_def)

lemma head_bootstrap_writes:
  assumes "head_bootstrap yaml_marshal cs cc = Inr (f, cmds, flags)"
    and "list_all graphic (nc_VMUser (cc_NodeConfig cc))"
  obtains y where "yaml_marshal (bootstrap_config cs cc) = Inr y"
    "writes f (''/home/'' @ nc_VMUser (cc_NodeConfig cc) @ ''/ray_bootstrap_config.yaml'', y, '''')"
proof -
  from assms(1) obtain y where y: "yaml_marshal (bootstrap_config cs cc) = Inr y"
    and f: "f = [(''path'', ''/home/'' @ nc_VMUser (cc_NodeConfig cc) @ ''/ray_bootstrap_config.yaml''),
      (''content'', addIndentation y 5)]"
    by (auto simp: head_bootstrap_def getBootstrapYamlContent_def convertToYaml_def Let_def split: sum.splits)
  show ?thesis using that [OF y] writes_intro(2) [OF home_scalar(5) [OF assms(2)]] f by simp
qed

text \<open>The lines of a rendered configuration, as entries that write the intended files.\<close>

lemma produced_files:
  assumes "produceCloudInitConfigYamlTemplate yaml_marshal cs cc = Inr out"
    and "list_all graphic (nc_VMUser (cc_NodeConfig cc))" and "nl \<notin> set (nc_VMPasswordSaltHash (cc_NodeConfig cc))"
  obtains fs xs where "list_all2 writes fs (intended_files yaml_marshal cs cc)"
    "write_files_lines out = concat (map lines_of (concat (map file_lines fs))) @ runcmd_tag # xs"
proof -
  let ?req = "cc_VmDeploymentRequest cc"
  let ?cc = "cc\<lparr>cc_EnableTLS := (if \<not> vdr_EnableTLS ?req then 0 else 1)\<rparr>"
  have user: "list_all graphic (nc_VMUser (cc_NodeConfig ?cc))" using assms(2) by simp
  have no_nl: "nl \<notin> set (nc_VMUser (cc_NodeConfig cc))" using assms(2) by (rule list_all_no_nl)
  note common = common_files_write [OF user, simplified] and token = token_file_writes [OF user]
  note answer = that
  have go: thesis
    if out: "out = render_common u (the_template_data ?cc fs cmds flags) @ tmpl_lines rest"
      and fs: "list_all2 writes fs es" and es: "es = intended_files yaml_marshal cs cc"
    for u fs cmds flags rest es
  proof -
    let ?d = "the_template_data ?cc fs cmds flags"
    have "td_users ?d = [[(''user'', nc_VMUser (cc_NodeConfig cc)), (''passSaltHash'', nc_VMPasswordSaltHash (cc_NodeConfig cc))]]"
      "td_files ?d = fs" by simp_all
    from write_files_rendered [OF this(1) no_nl assms(3)] this(2) out
    have "write_files_lines out = concat (map lines_of (concat (map file_lines fs))) @ runcmd_tag #
        concat (map lines_of (run_lines u ?d @ rest))" by (simp only:)
    with fs es show thesis by (intro answer [of fs]) simp_all
  qed
  consider (worker) "vdr_HeadNodeStatus ?req \<noteq> None"
    | (cli) "vdr_HeadNodeStatus ?req = None" "IsRayCli (vdr_RayClusterRequestor ?req)"
    | (head) "vdr_HeadNodeStatus ?req = None" "\<not> IsRayCli (vdr_RayClusterRequestor ?req)"
    by blast
  then show ?thesis
  proof cases
    case worker
    with assms(1) obtain u rest where "out = render_common u (the_template_data ?cc (common_files ?cc) []
        (common_docker_flags ?cc)) @ tmpl_lines rest"
      by (auto simp: produceCloudInitConfigYamlTemplate_def Let_def dest!: template_output)
    from go [OF this common] worker show ?thesis by (simp add: intended_files_def Let_def)
  next
    case cli
    with assms(1) obtain u rest where "out = render_common u (the_template_data ?cc
        (common_files ?cc @ [token_file ?cc]) [] (common_docker_flags ?cc)) @ tmpl_lines rest"
      by (auto simp: produceCloudInitConfigYamlTemplate_def Let_def dest!: template_output)
    from go [OF this list_all2_appendI [OF common]] token cli show ?thesis
      by (simp add: intended_files_def Let_def)
  next
    case head
    with assms(1) obtain f cmds flags u rest where
      hb: "head_bootstrap yaml_marshal cs ?cc = Inr (f, cmds, flags)" and
      out: "out = render_common u (the_template_data ?cc (common_files ?cc @ [f] @ [token_file ?cc])
        cmds (common_docker_flags ?cc @ flags)) @ tmpl_lines rest"
      by (auto simp: produceCloudInitConfigYamlTemplate_def Let_def dest!: template_output split: sum.splits)
    from head_bootstrap_writes [OF hb user] obtain y where
      "yaml_marshal (bootstrap_config cs ?cc) = Inr y"
      "writes f (''/home/'' @ nc_VMUser (cc_NodeConfig ?cc) @ ''/ray_bootstrap_config.yaml'', y, '''')" .
    with go [OF out list_all2_appendI [OF common]] token head show ?thesis
      by (simp add: intended_files_def Let_def)
  qed
qed

lemma join_lines_all: "P nl \<Longrightarrow> list_all (list_all P) ls \<Longrightarrow> list_all P (join_lines ls)"
  by (induction ls "[nl]" rule: strings_Join.induct) auto

lemma gencert_block_text: "block_text GetRayTLSConfigString"
proof -
  have "list_all (\<lambda>c. c = nl \<or> yaml_char c) GetRayTLSConfigString"
    unfolding GetRayTLSConfigString_def by (rule join_lines_all) (simp_all add: yaml_char_def)
  moreover obtain s where "GetRayTLSConfigString = CHR ''#'' # s"
    by (simp add: GetRayTLSConfigString_def)
  ultimately show ?thesis using block_text_Cons [of "CHR ''#''" s] by (simp add: nl_def)
qed

text \<open>The SSH key is the first file, whatever the others contain.\<close>

lemma first_file_read:
  assumes "produceCloudInitConfigYamlTemplate yaml_marshal cs cc = Inr out"
    and "list_all graphic (nc_VMUser (cc_NodeConfig cc))" and "nl \<notin> set (nc_VMPasswordSaltHash (cc_NodeConfig cc))"
    and "block_text (cc_SshPvtKey cc)"
  shows "\<exists>rest. read_entry (write_files_lines out) =
    Some ((''/home/'' @ nc_VMUser (cc_NodeConfig cc) @ ''/.ssh/id_rsa_ray'', clip_text (cc_SshPvtKey cc), ''0600''), rest)"
proof -
  from produced_files [OF assms(1-3)] obtain fs xs where w: "list_all2 writes fs (intended_files yaml_marshal cs cc)"
    and out: "write_files_lines out = concat (map lines_of (concat (map file_lines fs))) @ runcmd_tag # xs" .
  obtain es where "intended_files yaml_marshal cs cc =
      (''/home/'' @ nc_VMUser (cc_NodeConfig cc) @ ''/.ssh/id_rsa_ray'', cc_SshPvtKey cc, ''0600'') # es"
    by (simp add: intended_files_def Let_def)
  with w obtain f fs' where fs: "fs = f # fs'"
    and f: "writes f (''/home/'' @ nc_VMUser (cc_NodeConfig cc) @ ''/.ssh/id_rsa_ray'', cc_SshPvtKey cc, ''0600'')"
    by (auto simp: list_all2_Cons2)
  obtain y ys where y: "concat (map lines_of (concat (map file_lines fs'))) @ runcmd_tag # xs = y # ys" and "next_line y"
    by (rule entries_next)
  from read_file [OF f assms(4) this(2), of ys] show ?thesis unfolding out fs using y by simp
qed


definition sample_request :: VmDeploymentRequest where
  "sample_request = \<lparr>vdr_ClusterName = ''ray'', vdr_DockerImage = ''rayproject/ray:2.9'',
     vdr_Namespace = ''ns'', vdr_Nounce = ''ab1cd'', vdr_VmName = ''ray-h-ab1cd'', vdr_NodeType = ''head'',
     vdr_ApiServer = \<lparr>as_CaCert = '''', as_Location = ''10.0.0.1''\<rparr>, vdr_EnableTLS = True,
     vdr_HeadNodeConfig = \<lparr>hn_SetupCommands = [], hn_Port = Some 6380, hn_NodeType = ''head''\<rparr>,
     vdr_WorkerNodeConfig = \<lparr>wn_SetupCommands = []\<rparr>,
     vdr_NodeConfig = \<lparr>nc_VMImage = ''vmi-1'', nc_StorageClass = ''fast'', nc_VMUser = ''rayvm'',
       nc_VMPasswordSaltHash = ''salthash'', nc_Network = None,
       nc_NodeTypes = [(''head'', \<lparr>nt_VMClass = ''large'', nt_MinWorkers = 0, nt_MaxWorkers = 0,
           nt_Resources = \<lparr>nr_CPU = 4, nr_Memory = 1024, nr_GPU = 0\<rparr>\<rparr>),
         (''worker'', \<lparr>nt_VMClass = ''small'', nt_MinWorkers = 1, nt_MaxWorkers = 3,
           nt_Resources = \<lparr>nr_CPU = 2, nr_Memory = 512, nr_GPU = 0\<rparr>\<rparr>)],
       nc_MaxWorkers = 3, nc_IdleTimeoutMinutes = 5, nc_SetupCommands = [], nc_InitializationCommands = []\<rparr>,
     vdr_DockerConfig = \<lparr>dr_AuthSecretName = ''''\<rparr>, vdr_HeadNodeStatus = None,
     vdr_RayClusterRequestor = K8S, vdr_VmService = ''10.1.1.1''\<rparr>"

definition sample_config :: CloudConfig where
  "sample_config = \<lparr>cc_VmDeploymentRequest = sample_request, cc_SvcAccToken = ''token'',
     cc_SecretName = ''ray-h-ab1cd-hsecret'', cc_SshPvtKey = ''key'', cc_CaCrt = ''crt'', cc_CaKey = ''ckey'',
     cc_DockerLoginCmd = '''', cc_EnableTLS = 0\<rparr>"

lemma head_bootstrap_error:
  "head_bootstrap yaml_marshal cs cc = Inl e \<longleftrightarrow> yaml_marshal (bootstrap_config cs cc) = Inl e"
  by (auto simp: head_bootstrap_def getBootstrapYamlContent_def convertToYaml_def Let_def split: sum.splits)

lemma template_succeeds:
  "\<exists>out. cloudConfigHeadNodeTemplate (the_template_data cc fs cmds flags) = Inr out"
  "\<exists>out. cloudConfigWorkerNodeTemplate (the_template_data cc fs cmds flags) = Inr out"
  by (simp_all add: cloudConfigHeadNodeTemplate_def cloudConfigWorkerNodeTemplate_def Let_def)

text \<open>The configuration as the templates see it: the TLS flag is taken from the request.\<close>

definition effective_config :: "CloudConfig \<Rightarrow> CloudConfig" where
  "effective_config cc =
     cc\<lparr>cc_EnableTLS := (if \<not> vdr_EnableTLS (cc_VmDeploymentRequest cc) then 0 else 1)\<rparr>"

text \<open>
  producing a configuration fails only for a head node that runs Ray itself, when its
  bootstrap configuration cannot be serialised, and then with that error; for workers and
  for clusters of the Ray CLI it always succeeds.
\<close>

theorem produceCloudInitConfigYamlTemplate_error:
  "produceCloudInitConfigYamlTemplate yaml_marshal cs cc = Inl e \<longleftrightarrow>
     vdr_HeadNodeStatus (cc_VmDeploymentRequest cc) = None \<and>
     vdr_RayClusterRequestor (cc_VmDeploymentRequest cc) = K8S \<and>
     yaml_marshal (bootstrap_config cs (effective_config cc)) = Inl e"
proof -
  have not_cli: "vdr_RayClusterRequestor r = K8S \<longleftrightarrow> \<not> IsRayCli (vdr_RayClusterRequestor r)" for r
    by (cases "vdr_RayClusterRequestor r") (simp_all add: IsRayCli_def)
  have h: "cloudConfigHeadNodeTemplate (the_template_data c fs cmds flags) \<noteq> Inl e"
    and w: "cloudConfigWorkerNodeTemplate (the_template_data c fs cmds flags) \<noteq> Inl e"
    for c fs cmds flags
    using template_succeeds by (metis Inl_Inr_False)+
  show ?thesis
    by (auto simp: produceCloudInitConfigYamlTemplate_def effective_config_def not_cli h w Let_def
        head_bootstrap_error [symmetric] split: sum.splits)
qed


section \<open>The secret\<close>

text \<open>Decoding, for the statement that the secret carries the rendered text.\<close>

definition b64_index :: "char \<Rightarrow> nat" where
  "b64_index c = length (takeWhile (\<lambda>d. d \<noteq> c) b64_alphabet)"

fun base64_decode :: "string \<Rightarrow> string option" where
  "base64_decode [] = Some []"
| "base64_decode (p # q # r # s # t) =
     (let a = b64_index p; b = b64_index q; c = b64_index r; d = b64_index s in
      if s = CHR ''='' then
        (if t \<noteq> [] then None
         else if r = CHR ''='' then Some [char_of (a * 4 + b div 16)]
         else Some [char_of (a * 4 + b div 16), char_of (b mod 16 * 16 + c div 4)])
      else map_option (\<lambda>u. char_of (a * 4 + b div 16) # char_of (b mod 16 * 16 + c div 4) #
             char_of (c mod 4 * 64 + d) # u) (base64_decode t))"
| "base64_decode _ = None"

lemma b64_table:
  "list_all (\<lambda>i. b64_index (b64_char i) = i \<and> b64_char i \<noteq> CHR ''='') [0..<64]"
  by code_simp

lemma b64_index_char [simp]: "i < 64 \<Longrightarrow> b64_index (b64_char i) = i"
  and b64_char_pad [simp]: "i < 64 \<Longrightarrow> b64_char i \<noteq> CHR ''=''"
  using b64_table by (auto simp: list_all_iff)

lemma digits:
  fixes a b m :: nat
  assumes "b < m"
  shows "(a * m + b) div m = a" and "(a * m + b) mod m = b"
  using assms by simp_all

lemma byte_split:
  fixes x y z :: nat
  assumes "x < 256" and "y < 256" and "z < 256"
  shows "x div 4 < 64" "x mod 4 * 16 < 64" "x mod 4 * 16 + y div 16 < 64"
    "y mod 16 * 4 < 64" "y mod 16 * 4 + z div 64 < 64" "z mod 64 < 64"
    "(x mod 4 * 16 + y div 16) div 16 = x mod 4" "(x mod 4 * 16 + y div 16) mod 16 = y div 16"
    "(y mod 16 * 4 + z div 64) div 4 = y mod 16" "(y mod 16 * 4 + z div 64) mod 4 = z div 64"
    "y div 16 mod 16 = y div 16" "z div 64 mod 4 = z div 64"
proof -
  have d: "x div 4 < 64" "y div 16 < 16" "z div 64 < 4" and m: "x mod 4 < 4" "y mod 16 < 16" "z mod 64 < 64"
    using assms by (simp_all add: less_mult_imp_div_less)
  show "x div 4 < 64" "x mod 4 * 16 < 64" "x mod 4 * 16 + y div 16 < 64"
    "y mod 16 * 4 < 64" "y mod 16 * 4 + z div 64 < 64" "z mod 64 < 64"
    using d m by linarith+
  show "(x mod 4 * 16 + y div 16) div 16 = x mod 4" "(x mod 4 * 16 + y div 16) mod 16 = y div 16"
    "(y mod 16 * 4 + z div 64) div 4 = y mod 16" "(y mod 16 * 4 + z div 64) mod 4 = z div 64"
    using digits d by blast+
  show "y div 16 mod 16 = y div 16" "z div 64 mod 4 = z div 64"
    using d by simp_all
qed

lemmas char_split = byte_split [OF nat_of_char_less_256 nat_of_char_less_256 nat_of_char_less_256]

lemma base64_decode_encode: "base64_decode (base64_EncodeToString s) = Some s"
  by (induction s rule: base64_EncodeToString.induct) (simp_all add: Let_def char_split)

text \<open>
  the secret a machine boots from, as the API server stores it, lies in the namespace
  and under the name of the request, and its user data decodes to exactly the rendered
  configuration.
\<close>

theorem cloud_init_secret_roundtrip:
  assumes "CreateCloudInitConfigSecret yaml_marshal cs cc = Inr s"
  shows "\<exists>out v. produceCloudInitConfigYamlTemplate yaml_marshal cs cc = Inr out \<and>
    map_of (sec_Data (admit_secret s)) CloudInitConfigUserDataKey = Some v \<and>
    base64_decode v = Some out \<and>
    meta_key (sec_meta s) = (vdr_Namespace (cc_VmDeploymentRequest cc), cc_SecretName cc)"
  using assms
  by (auto simp: CreateCloudInitConfigSecret_def admit_secret_def base64_decode_encode
      CloudInitConfigUserDataKey_def gomap_set_def split: sum.splits)

lemma produce_cli:
  assumes "vdr_RayClusterRequestor (cc_VmDeploymentRequest cc) = RayCLI"
  shows "\<exists>out. produceCloudInitConfigYamlTemplate yaml_marshal cs cc = Inr out"
  using assms by (simp add: produceCloudInitConfigYamlTemplate_def Let_def IsRayCli_def template_succeeds)

theorem cloud_init_secret_roundtrip_witness:
  "\<exists>s out v. CreateCloudInitConfigSecret (\<lambda>_. Inl (ErrorString ''no yaml'')) []
       (sample_config\<lparr>cc_VmDeploymentRequest := sample_request\<lparr>vdr_RayClusterRequestor := RayCLI\<rparr>\<rparr>) = Inr s \<and>
     map_of (sec_Data (admit_secret s)) CloudInitConfigUserDataKey = Some v \<and> base64_decode v = Some out"
proof -
  let ?cc = "sample_config\<lparr>cc_VmDeploymentRequest := sample_request\<lparr>vdr_RayClusterRequestor := RayCLI\<rparr>\<rparr>"
  obtain out where "produceCloudInitConfigYamlTemplate (\<lambda>_. Inl (ErrorString ''no yaml'')) [] ?cc = Inr out"
    using produce_cli [of ?cc] by (auto simp: sample_request_def)
  then obtain s where s: "CreateCloudInitConfigSecret (\<lambda>_. Inl (ErrorString ''no yaml'')) [] ?cc = Inr s"
    by (simp add: CreateCloudInitConfigSecret_def)
  from cloud_init_secret_roundtrip [OF s] s show ?thesis by blast
qed

lemma worker_template_cong:
  assumes "td_users d = td_users d'" and "td_files d = td_files d'"
    and "td_ssh_rsa_key_path d = td_ssh_rsa_key_path d'" and "td_docker_login_cmd d = td_docker_login_cmd d'"
  shows "cloudConfigWorkerNodeTemplate d = cloudConfigWorkerNodeTemplate d'"
  by (simp add: cloudConfigWorkerNodeTemplate_def render_common_def run_lines_def assms split: list.split)

text \<open>
  C28: a worker's configuration is the same whatever the service account token, the address
  of the cluster's service, the image and the serialiser are: no credential of the head node
  reaches a worker.
\<close>

theorem worker_config_independent:
  assumes "vdr_HeadNodeStatus (cc_VmDeploymentRequest cc) \<noteq> None"
  shows "produceCloudInitConfigYamlTemplate yaml_marshal' cs'
      (cc\<lparr>cc_SvcAccToken := token, cc_VmDeploymentRequest :=
        (cc_VmDeploymentRequest cc)\<lparr>vdr_VmService := ip, vdr_DockerImage := img\<rparr>\<rparr>) =
    produceCloudInitConfigYamlTemplate yaml_marshal cs cc"
  using assms
  by (auto simp: produceCloudInitConfigYamlTemplate_def the_template_data_def common_files_def Let_def
      intro!: worker_template_cong)

theorem worker_config_independent_witness:
  "let cc = sample_config\<lparr>cc_VmDeploymentRequest := sample_request\<lparr>vdr_HeadNodeStatus := Some zero_VMRayNodeStatus\<rparr>\<rparr> in
   produceCloudInitConfigYamlTemplate (\<lambda>_. Inr ''y'') [1]
      (cc\<lparr>cc_SvcAccToken := ''other'', cc_VmDeploymentRequest :=
        (cc_VmDeploymentRequest cc)\<lparr>vdr_VmService := ''10.9.9.9'', vdr_DockerImage := ''img''\<rparr>\<rparr>) =
   produceCloudInitConfigYamlTemplate (\<lambda>_. Inr ''z'') [] cc"
  unfolding Let_def by (rule worker_config_independent) simp

section \<open>Node types and ports\<close>

lemma add_node_types_lookup:
  "distinct (map fst kvs) \<Longrightarrow>
   add_node_types kvs m k = (case map_of kvs k of None \<Rightarrow> m k | Some nt \<Rightarrow> Some (node_of_type nt))"
  by (induction kvs m rule: add_node_types.induct) (force split: option.splits dest: map_of_SomeD)+

lemma map_of_go_range: "distinct (map fst kvs) \<Longrightarrow> map_of (go_range cs kvs) = map_of kvs"
  by (intro map_of_inject_set [THEN iffD2]) simp_all

text \<open>
  The node types of the bootstrap configuration are those of the cluster, one to one
  with their worker bounds, resources and VM class, in whatever order Go ranges over the
  map; hence the whole bootstrap configuration does not depend on that order.
\<close>

theorem bootstrap_node_types:
  assumes "gomap_wf (nc_NodeTypes (cc_NodeConfig cc))"
  shows "rbc_AvailableNodeTypes (bootstrap_config cs cc) =
      map_option node_of_type \<circ> map_of (nc_NodeTypes (cc_NodeConfig cc)) \<and>
    bootstrap_config cs cc = bootstrap_config cs' cc"
proof -
  have types: "getAvailableNodeTypes cs cc = map_option node_of_type \<circ> map_of (nc_NodeTypes (cc_NodeConfig cc))" for cs
    using assms
    by (auto simp: getAvailableNodeTypes_def gomap_wf_def add_node_types_lookup map_of_go_range fun_eq_iff
        split: option.splits)
  show ?thesis
    by (simp add: bootstrap_config_def setDockerCommand_def getRayBootstrapConfig_def types Let_def)
qed

theorem bootstrap_node_types_witness:
  "rbc_AvailableNodeTypes (bootstrap_config [2] sample_config) ''worker'' =
     Some \<lparr>nd_NodeConfig = \<lparr>ncf_VMclass = ''small''\<rparr>, nd_MinWorkers = 1, nd_MaxWorkers = 3,
       nd_Resources = \<lparr>res_CPU = 2, res_Memory = 512, res_GPU = 0\<rparr>\<rparr> \<and>
   bootstrap_config [2] sample_config = bootstrap_config [] sample_config"
proof -
  have "gomap_wf (nc_NodeTypes (cc_NodeConfig sample_config))"
    by (simp add: gomap_wf_def sample_config_def sample_request_def)
  moreover have "map_of (nc_NodeTypes (cc_NodeConfig sample_config)) ''worker'' =
      Some \<lparr>nt_VMClass = ''small'', nt_MinWorkers = 1, nt_MaxWorkers = 3,
           nt_Resources = \<lparr>nr_CPU = 2, nr_Memory = 512, nr_GPU = 0\<rparr>\<rparr>"
    by (simp add: sample_config_def sample_request_def)
  ultimately show ?thesis using bootstrap_node_types [of sample_config "[2]" "[]"]
    by (auto simp: node_of_type_def dest: fun_cong [of _ _ "''worker''"])
qed

lemma show_int_nat: "show_int i = show_nat n \<longleftrightarrow> i = int n"
proof (cases "i < 0")
  case True
  have "CHR ''-'' \<notin> set (show_nat n)"
  proof
    assume "CHR ''-'' \<in> set (show_nat n)"
    then obtain d where "d < 10" "CHR ''-'' = digit_char d" using show_nat_digits by blast
    then have "of_char (CHR ''-'') = 48 + d" using of_char_digit_char by metis
    then show False by simp
  qed
  then have "CHR ''-'' # s \<noteq> show_nat n" for s by (metis list.set_intros(1))
  with True show ?thesis by (auto simp: show_int_def)
next
  case False
  then show ?thesis by (auto simp: show_int_def show_nat_inject)
qed

lemma show_port_iff: "show_int32 (int32_of_uint p) = show_uint p \<longleftrightarrow> unat p < 2 ^ 31"
proof -
  have "sint (int32_of_uint p) < 2 ^ 31" using sint_lt [of "int32_of_uint p"] by simp
  then have "int (unat p) < int (2 ^ 31)" if "sint (int32_of_uint p) = int (unat p)"
    using that by simp
  then have "unat p < 2 ^ 31" if "sint (int32_of_uint p) = int (unat p)"
    using that by (simp only: of_nat_less_iff)
  then show ?thesis
    by (auto simp: show_int32_def show_uint_def show_int_nat sint_int32_of_uint_small)
qed


end
