(* ===== verification/Vmop_Utils.thy ===== *)
theory Vmop_Utils
  imports Cloud_Init
begin

text \<open>
  The auxiliary objects of a cluster, \<^verbatim>\<open>pkg/provider/vmop/utils\<close>: the secrets its machines boot
  from and share, the service account its autoscaler acts as with its role and binding
  (\<^verbatim>\<open>utils.go\<close>), and the login command for a private image registry (\<^verbatim>\<open>docker_auth.go\<close>). The
  lemmas show what is there after creation and gone after deletion, that nothing else is
  touched, and that the objects of two clusters never get in each other's way.
\<close>

section \<open>Constants\<close>

definition HeadNodeSecretSuffix :: string where "HeadNodeSecretSuffix = ''-hsecret''"
definition WorkerNodeSecretSuffix :: string where "WorkerNodeSecretSuffix = ''-wsecret''"
definition sshKeySecretSuffix :: string where "sshKeySecretSuffix = ''-ssh-key''"
definition SshPrivateKey :: string where "SshPrivateKey = ''ssh-pvt-key''"

definition coreApiGroup :: string where "coreApiGroup = ''''"
definition rayApiGroup :: string where "rayApiGroup = ''vmray.broadcom.com''"
definition vmopApiGroup :: string where "vmopApiGroup = ''vmoperator.vmware.com''"
definition k8sSecretResources :: string where "k8sSecretResources = ''secrets''"
definition rayClusterResources :: string where "rayClusterResources = ''vmrayclusters''"
definition vmServiceResources :: string where "vmServiceResources = ''virtualmachineservices''"
definition createVerb :: string where "createVerb = ''create''"
definition getVerb :: string where "getVerb = ''get''"
definition patchVerb :: string where "patchVerb = ''patch''"
definition kindRole :: string where "kindRole = ''Role''"
definition kindSa :: string where "kindSa = ''ServiceAccount''"

definition error_tmpl_pvt_key :: "string \<Rightarrow> string \<Rightarrow> string \<Rightarrow> string" where
  "error_tmpl_pvt_key ns name k = ''Failure to read ssh key: secret '' @ ns @ '':'' @ name @
     '' doesn'' @ [CHR 0x27] @ ''t contain '' @ [CHR 0x60] @ k @ [CHR 0x60] @ '' key''"

definition TokenExpirationRequest :: int where "TokenExpirationRequest = 60 * 60 * 30 * 6"

section \<open>Deleting secrets\<close>

text \<open>Two calls in a row, where an error of the first is returned at once.\<close>

definition and_then ::
  "('w \<Rightarrow> go_error option \<times> 'w) \<Rightarrow> ('w \<Rightarrow> go_error option \<times> 'w) \<Rightarrow> 'w \<Rightarrow> go_error option \<times> 'w" where
  "and_then f g w = (case f w of (Some err, w1) \<Rightarrow> (Some err, w1) | (None, w1) \<Rightarrow> g w1)"

definition GetSshKeysSecretName :: "string \<Rightarrow> string" where
  "GetSshKeysSecretName name = name @ sshKeySecretSuffix"

definition deleteSecret :: "'w kube_client \<Rightarrow> string \<Rightarrow> string \<Rightarrow> 'w \<Rightarrow> go_error option \<times> 'w" where
  "deleteSecret kc ns name w =
     (case rget (kc_secrets kc) ns name w of
        (Inl err, w1) \<Rightarrow> (IgnoreNotFound err, w1)
      | (Inr secret, w1) \<Rightarrow> rdelete (kc_secrets kc) secret w1)"

definition DeleteAllCloudInitSecret ::
  "'w kube_client \<Rightarrow> string \<Rightarrow> string \<Rightarrow> 'w \<Rightarrow> go_error option \<times> 'w" where
  "DeleteAllCloudInitSecret kc ns clusterName =
     and_then (deleteSecret kc ns (GetSshKeysSecretName clusterName))
     (and_then (deleteSecret kc ns (clusterName @ WorkerNodeSecretSuffix))
     (and_then (deleteSecret kc ns (clusterName @ RootCaSecretSuffix))
     (and_then (deleteSecret kc ns (clusterName @ TLSSecretSuffix))
       (deleteSecret kc ns (clusterName @ HeadNodeSecretSuffix)))))"

section \<open>Service account, role and binding\<close>

definition getVmRayClusterMutationRole :: "string \<Rightarrow> string \<Rightarrow> Role" where
  "getVmRayClusterMutationRole ns name =
     \<lparr>role_meta = new_meta ns name,
      role_Rules =
        [\<lparr>pr_APIGroups = [rayApiGroup], pr_Resources = [rayClusterResources], pr_Verbs = [getVerb, patchVerb]\<rparr>,
         \<lparr>pr_APIGroups = [vmopApiGroup], pr_Resources = [vmServiceResources], pr_Verbs = [getVerb]\<rparr>,
         \<lparr>pr_APIGroups = [coreApiGroup], pr_Resources = [k8sSecretResources], pr_Verbs = [createVerb]\<rparr>]\<rparr>"

definition getVmRayClusterMutationRoleBinding :: "string \<Rightarrow> string \<Rightarrow> RoleBinding" where
  "getVmRayClusterMutationRoleBinding ns name =
     \<lparr>rb_meta = new_meta ns name,
      rb_RoleRef = \<lparr>rr_APIGroup = ''rbac.authorization.k8s.io'', rr_Kind = kindRole, rr_Name = name\<rparr>,
      rb_Subjects = [\<lparr>sub_Kind = kindSa, sub_Name = name, sub_Namespace = ns\<rparr>]\<rparr>"

text \<open>
  Each of the three objects is looked up and, if it is not found, created; any other error
  is returned at once (\<^const>\<open>get_or_create\<close>).
\<close>

definition CreateServiceAccountAndRole ::
  "'w kube_client \<Rightarrow> string \<Rightarrow> string \<Rightarrow> 'w \<Rightarrow> go_error option \<times> 'w" where
  "CreateServiceAccountAndRole kc ns name =
     and_then (get_or_create (kc_serviceaccounts kc) ns name \<lparr>sa_meta = new_meta ns name\<rparr>)
     (and_then (get_or_create (kc_roles kc) ns name (getVmRayClusterMutationRole ns name))
       (get_or_create (kc_rolebindings kc) ns name (getVmRayClusterMutationRoleBinding ns name)))"

text \<open>Deletion in the opposite order; an object that is not found is skipped.\<close>

definition DeleteServiceAccountAndRole ::
  "'w kube_client \<Rightarrow> string \<Rightarrow> string \<Rightarrow> 'w \<Rightarrow> go_error option \<times> 'w" where
  "DeleteServiceAccountAndRole kc ns name =
     and_then (delete_if_exists (kc_rolebindings kc) ns name)
     (and_then (delete_if_exists (kc_roles kc) ns name)
       (delete_if_exists (kc_serviceaccounts kc) ns name))"

definition fetchServiceAccountToken ::
  "'w kube_client \<Rightarrow> string \<Rightarrow> string \<Rightarrow> 'w \<Rightarrow> (go_error + string) \<times> 'w" where
  "fetchServiceAccountToken kc ns name w = kc_create_token kc ns name TokenExpirationRequest w"

section \<open>The SSH key\<close>

definition readPrivateKeyForCluster ::
  "'w kube_client \<Rightarrow> string \<Rightarrow> string \<Rightarrow> 'w \<Rightarrow> (go_error + string) \<times> 'w" where
  "readPrivateKeyForCluster kc ns name w =
     (case rget (kc_secrets kc) ns (GetSshKeysSecretName name) w of
        (Inl err, w1) \<Rightarrow> (Inl err, w1)
      | (Inr secret, w1) \<Rightarrow>
          (case map_of (sec_Data secret) SshPrivateKey of
             None \<Rightarrow> (Inl (ErrorString (error_tmpl_pvt_key ns name SshPrivateKey)), w1)
           | Some pvt_key \<Rightarrow> (Inr pvt_key, w1)))"

definition marshalRSAPrivate :: "'w go_runtime \<Rightarrow> string \<Rightarrow> string" where
  "marshalRSAPrivate rt priv = rt_pem_encode rt ''RSA PRIVATE KEY'' priv"

definition createPrivateSshKey :: "'w go_runtime \<Rightarrow> 'w \<Rightarrow> string \<times> 'w" where
  "createPrivateSshKey rt w =
     (case rt_rsa_generate rt 2048 w of
        (Inl err, w1) \<Rightarrow> ('''', w1)
      | (Inr key, w1) \<Rightarrow> (marshalRSAPrivate rt key, w1))"

definition ssh_secret :: "string \<Rightarrow> string \<Rightarrow> string \<Rightarrow> Secret" where
  "ssh_secret ns name pvt_key =
     \<lparr>sec_meta = new_meta ns (GetSshKeysSecretName name), sec_Type = ''Opaque'', sec_Data = [],
      sec_StringData = [(SshPrivateKey, pvt_key)]\<rparr>"

definition getOrCreatePrivateKeySecret ::
  "'w go_runtime \<Rightarrow> 'w kube_client \<Rightarrow> string \<Rightarrow> string \<Rightarrow> 'w \<Rightarrow> (go_error + string) \<times> 'w" where
  "getOrCreatePrivateKeySecret rt kc ns name w =
     (case readPrivateKeyForCluster kc ns name w of
        (Inr pvt_key, w1) \<Rightarrow> (Inr pvt_key, w1)
      | (Inl err, w1) \<Rightarrow>
          (if IgnoreNotFound err \<noteq> None then (Inl err, w1)
           else (case createPrivateSshKey rt w1 of (pvt_key, w2) \<Rightarrow>
             (case rcreate (kc_secrets kc) (ssh_secret ns name pvt_key) w2 of
                (Inl err', w3) \<Rightarrow> (Inl err', w3)
              | (Inr _, w3) \<Rightarrow> (Inr pvt_key, w3)))))"

section \<open>Registry login\<close>

definition DockerUsernameKey :: string where "DockerUsernameKey = ''username''"
definition DockerPasswordKey :: string where "DockerPasswordKey = ''password''"
definition DockerRegistryKey :: string where "DockerRegistryKey = ''registry''"

definition dockerLoginCmd :: "string \<Rightarrow> string \<Rightarrow> string \<Rightarrow> string" where
  "dockerLoginCmd registry username password =
     ''docker login '' @ registry @ '' --username '' @ username @ '' --password '' @ password"

definition GetDockerLoginCmd ::
  "'w kube_client \<Rightarrow> string \<Rightarrow> string \<Rightarrow> 'w \<Rightarrow> (go_error + string) \<times> 'w" where
  "GetDockerLoginCmd kc ns secretName w =
     (if length secretName = 0 then (Inr '''', w)
      else (case rget (kc_secrets kc) ns secretName w of
        (Inl err, w1) \<Rightarrow> (Inl err, w1)
      | (Inr secret, w1) \<Rightarrow>
          (case map_of (sec_Data secret) DockerUsernameKey of
             None \<Rightarrow> (Inl (newErrorMissingKey secretName DockerUsernameKey), w1)
           | Some username \<Rightarrow>
               (case map_of (sec_Data secret) DockerPasswordKey of
                  None \<Rightarrow> (Inl (newErrorMissingKey secretName DockerPasswordKey), w1)
                | Some password \<Rightarrow>
                    let registry = (case map_of (sec_Data secret) DockerRegistryKey of None \<Rightarrow> '''' | Some r \<Rightarrow> r)
                    in (Inr (dockerLoginCmd registry username password), w1)))))"

section \<open>The cloud-init secret\<close>

text \<open>
  \<^verbatim>\<open>CreateCloudInitSecret\<close>: the part up to the lookup of the node's secret, and the part that
  collects everything for a new one. The result carries whether the secret already existed.
  The runtime's iteration order is drawn once for the range inside the templating.
\<close>

definition node_secret_name :: "VmDeploymentRequest \<Rightarrow> string" where
  "node_secret_name req = (if vdr_HeadNodeStatus req = None
     then vdr_ClusterName req @ HeadNodeSecretSuffix else vdr_ClusterName req @ WorkerNodeSecretSuffix)"

definition node_ssh_key ::
  "'w go_runtime \<Rightarrow> 'w kube_client \<Rightarrow> VmDeploymentRequest \<Rightarrow> 'w \<Rightarrow> (go_error + string) \<times> 'w" where
  "node_ssh_key rt kc req w = (if vdr_HeadNodeStatus req = None
     then getOrCreatePrivateKeySecret rt kc (vdr_Namespace req) (vdr_ClusterName req) w
     else readPrivateKeyForCluster kc (vdr_Namespace req) (vdr_ClusterName req) w)"

definition new_cloud_init_secret ::
  "'w go_runtime \<Rightarrow> 'w kube_client \<Rightarrow> (RayBootstrapConfig \<Rightarrow> go_error + string) \<Rightarrow>
   VmDeploymentRequest \<Rightarrow> string \<Rightarrow> 'w \<Rightarrow> (go_error + Secret) \<times> 'w" where
  "new_cloud_init_secret rt kc yaml_marshal req ssh w =
     (case fetchServiceAccountToken kc (vdr_Namespace req) (vdr_ClusterName req) w of
        (Inl err, w1) \<Rightarrow> (Inl err, w1)
      | (Inr token, w1) \<Rightarrow>
     (case ReadCaCrtAndCaKeyFromSecret kc (vdr_Namespace req) (vdr_ClusterName req @ RootCaSecretSuffix) w1 of
        ((_, _, Some err), w2) \<Rightarrow> (Inl err, w2)
      | ((ca_key, ca_crt, None), w2) \<Rightarrow>
     (case GetDockerLoginCmd kc (vdr_Namespace req) (dr_AuthSecretName (vdr_DockerConfig req)) w2 of
        (Inl err, w3) \<Rightarrow> (Inl err, w3)
      | (Inr login, w3) \<Rightarrow>
     (case rt_range rt w3 of (cs, w4) \<Rightarrow>
     (case CreateCloudInitConfigSecret yaml_marshal cs
          \<lparr>cc_VmDeploymentRequest = req, cc_SvcAccToken = token, cc_SecretName = node_secret_name req,
           cc_SshPvtKey = ssh, cc_CaCrt = ca_crt, cc_CaKey = ca_key, cc_DockerLoginCmd = login,
           cc_EnableTLS = 0\<rparr> of
        Inl err \<Rightarrow> (Inl err, w4)
      | Inr secret \<Rightarrow> rcreate (kc_secrets kc) secret w4)))))"

definition CreateCloudInitSecret ::
  "'w go_runtime \<Rightarrow> 'w kube_client \<Rightarrow> (RayBootstrapConfig \<Rightarrow> go_error + string) \<Rightarrow>
   VmDeploymentRequest \<Rightarrow> 'w \<Rightarrow> (go_error + Secret \<times> bool) \<times> 'w" where
  "CreateCloudInitSecret rt kc yaml_marshal req w =
     (case node_ssh_key rt kc req w of
        (Inl err, w1) \<Rightarrow> (Inl err, w1)
      | (Inr ssh, w1) \<Rightarrow>
     (case rget (kc_secrets kc) (vdr_Namespace req) (node_secret_name req) w1 of
        (Inr valid, w2) \<Rightarrow> (Inr (valid, True), w2)
      | (Inl err, w2) \<Rightarrow>
          (if IgnoreNotFound err \<noteq> None then (Inl err, w2)
           else (case new_cloud_init_secret rt kc yaml_marshal req ssh w2 of
                   (Inl err', w3) \<Rightarrow> (Inl err', w3)
                 | (Inr secret, w3) \<Rightarrow> (Inr (secret, False), w3)))))"

section \<open>Names\<close>

definition cluster_secret_names :: "string \<Rightarrow> string list" where
  "cluster_secret_names c = [GetSshKeysSecretName c, c @ WorkerNodeSecretSuffix, c @ RootCaSecretSuffix,
     c @ TLSSecretSuffix, c @ HeadNodeSecretSuffix]"

definition secret_suffixes :: "string list" where
  "secret_suffixes = [sshKeySecretSuffix, WorkerNodeSecretSuffix, RootCaSecretSuffix, TLSSecretSuffix,
     HeadNodeSecretSuffix]"

lemmas suffix_defs = sshKeySecretSuffix_def WorkerNodeSecretSuffix_def RootCaSecretSuffix_def
  TLSSecretSuffix_def HeadNodeSecretSuffix_def

lemma cluster_secret_names_suffixes: "cluster_secret_names c = map (\<lambda>s. c @ s) secret_suffixes"
  by (simp add: cluster_secret_names_def secret_suffixes_def GetSshKeysSecretName_def)

lemma suffix_code:
  "\<forall>s\<in>set secret_suffixes. \<forall>t\<in>set secret_suffixes. suffix s t \<longrightarrow> s = t"
  by (simp add: secret_suffixes_def suffix_defs suffix_def)

lemma secret_names_inject:
  assumes "s \<in> set secret_suffixes" and "t \<in> set secret_suffixes" and "c @ s = d @ t"
  shows "c = d \<and> s = t"
proof -
  have "suffix s (c @ s)" "suffix t (c @ s)" unfolding suffix_def using assms(3) by blast+
  then have "suffix s t \<or> suffix t s" by (rule suffix_same_cases)
  with suffix_code assms(1,2) have "s = t" by blast
  with assms(3) show ?thesis by simp
qed

lemma cluster_secret_names_disjoint:
  assumes "c \<noteq> d" and "n \<in> set (cluster_secret_names c)"
  shows "n \<notin> set (cluster_secret_names d)"
proof
  assume "n \<in> set (cluster_secret_names d)"
  with assms(2) obtain s t where "s \<in> set secret_suffixes" "t \<in> set secret_suffixes" "n = c @ s" "n = d @ t"
    unfolding cluster_secret_names_suffixes set_map by blast
  with secret_names_inject assms(1) show False by metis
qed

lemma cluster_secret_names_distinct: "distinct (cluster_secret_names c)"
  unfolding cluster_secret_names_suffixes
  by (simp add: distinct_map inj_on_def) (simp add: secret_suffixes_def suffix_defs)

section \<open>What deletion leaves\<close>

text \<open>Deleting a list of secrets, the shape of \<^const>\<open>DeleteAllCloudInitSecret\<close>.\<close>

fun delete_secrets :: "'w kube_client \<Rightarrow> string \<Rightarrow> string list \<Rightarrow> 'w \<Rightarrow> go_error option \<times> 'w" where
  "delete_secrets kc ns [] w = (None, w)"
| "delete_secrets kc ns (n # names) w = and_then (deleteSecret kc ns n) (delete_secrets kc ns names) w"

lemma deleteSecret_eq: "deleteSecret kc ns n w = delete_if_exists (kc_secrets kc) ns n w"
  by (simp add: deleteSecret_def delete_if_exists_def)

lemma and_then_done: "and_then f (\<lambda>w. (None, w)) = f"
  by (rule ext) (simp add: and_then_def split: prod.splits option.splits)

lemma DeleteAllCloudInitSecret_list:
  "DeleteAllCloudInitSecret kc ns c w = delete_secrets kc ns (cluster_secret_names c) w"
proof -
  have "delete_secrets kc ns (n # names) = and_then (deleteSecret kc ns n) (delete_secrets kc ns names)"
    "delete_secrets kc ns [] = (\<lambda>w. (None, w))" for n names
    by (rule ext, simp)+
  then show ?thesis
    by (simp only: DeleteAllCloudInitSecret_def cluster_secret_names_def and_then_done)
qed

lemma and_then_cases:
  assumes "and_then f g w = (r, w')"
  obtains e where "f w = (Some e, w')" "r = Some e" | w1 where "f w = (None, w1)" "g w1 = (r, w')"
  using assms by (auto simp: and_then_def split: prod.splits option.splits)

context kube_api
begin

lemma delete_secrets_post:
  assumes "delete_secrets kc ns names w = (r, w')"
  shows "\<exists>m. store w' = (store w)\<lparr>sto_secrets := m\<rparr> \<and>
    (\<forall>k. k \<notin> Pair ns ` set names \<longrightarrow> m k = sto_secrets (store w) k) \<and>
    (r = None \<longrightarrow> (\<forall>n\<in>set names. terminated sec_meta (m (ns, n))))"
  using assms
proof (induction names arbitrary: w)
  case Nil
  then show ?case by (auto intro!: exI [of _ "sto_secrets (store w)"])
next
  case (Cons n names)
  from Cons.prems have "and_then (deleteSecret kc ns n) (delete_secrets kc ns names) w = (r, w')" by simp
  then show ?case
  proof (cases rule: and_then_cases)
    case (1 e)
    from secrets.delete_if_exists_post [OF this(1) [unfolded deleteSecret_eq]] "1"(2) show ?thesis by force
  next
    case (2 w1)
    from secrets.delete_if_exists_post [OF this(1) [unfolded deleteSecret_eq]] obtain z where
      z: "store w1 = (store w)\<lparr>sto_secrets := (sto_secrets (store w))((ns, n) := z)\<rparr>" "terminated sec_meta z"
      by auto
    from Cons.IH [OF "2"(2)] obtain m where m: "store w' = (store w1)\<lparr>sto_secrets := m\<rparr>"
      "\<And>k. k \<notin> Pair ns ` set names \<Longrightarrow> m k = sto_secrets (store w1) k"
      "r = None \<Longrightarrow> \<forall>n\<in>set names. terminated sec_meta (m (ns, n))" by blast
    have "terminated sec_meta (m (ns, n))" if "r = None"
      using m(2) [of "(ns, n)"] m(3) [OF that] z by (cases "n \<in> set names") auto
    with m z show ?thesis by (intro exI [of _ m]) auto
  qed
qed

lemma DeleteAllCloudInitSecret_frame:
  assumes "DeleteAllCloudInitSecret kc ns c w = (r, w')"
  shows "\<exists>m. store w' = (store w)\<lparr>sto_secrets := m\<rparr>"
  using delete_secrets_post [OF assms [unfolded DeleteAllCloudInitSecret_list]] by blast

lemma DeleteServiceAccountAndRole_post:
  assumes "DeleteServiceAccountAndRole kc ns c w = (r, w')"
  shows "\<exists>x y z. store w' = (store w)\<lparr>sto_rolebindings := (sto_rolebindings (store w))((ns, c) := x),
      sto_roles := (sto_roles (store w))((ns, c) := y),
      sto_serviceaccounts := (sto_serviceaccounts (store w))((ns, c) := z)\<rparr> \<and>
    (r = None \<longrightarrow> terminated rb_meta x \<and> terminated role_meta y \<and> terminated sa_meta z)"
  using assms unfolding DeleteServiceAccountAndRole_def
proof (cases rule: and_then_cases)
  case (1 e)
  from rolebindings.delete_if_exists_post [OF this(1)] obtain x where
    "store w' = (store w)\<lparr>sto_rolebindings := (sto_rolebindings (store w))((ns, c) := x)\<rparr>" by blast
  with "1"(2) show ?thesis
    by (intro exI [of _ x] exI [of _ "sto_roles (store w) (ns, c)"]
        exI [of _ "sto_serviceaccounts (store w) (ns, c)"]) simp
next
  case (2 w1)
  from rolebindings.delete_if_exists_post [OF this(1)] obtain x where
    x: "store w1 = (store w)\<lparr>sto_rolebindings := (sto_rolebindings (store w))((ns, c) := x)\<rparr>" "terminated rb_meta x"
    by auto
  from "2"(2) show ?thesis
  proof (cases rule: and_then_cases)
    case (1 e)
    from roles.delete_if_exists_post [OF this(1)] obtain y where
      "store w' = (store w1)\<lparr>sto_roles := (sto_roles (store w1))((ns, c) := y)\<rparr>" by blast
    with "1"(2) x show ?thesis
      by (intro exI [of _ x] exI [of _ y] exI [of _ "sto_serviceaccounts (store w) (ns, c)"]) simp
  next
    case (2 w2)
    from roles.delete_if_exists_post [OF this(1)] obtain y where
      y: "store w2 = (store w1)\<lparr>sto_roles := (sto_roles (store w1))((ns, c) := y)\<rparr>" "terminated role_meta y"
      by auto
    from serviceaccounts.delete_if_exists_post [OF "2"(2)] obtain z where
      "store w' = (store w2)\<lparr>sto_serviceaccounts := (sto_serviceaccounts (store w2))((ns, c) := z)\<rparr>"
      "r = None \<longrightarrow> terminated sa_meta z" by blast
    with x y show ?thesis by (intro exI [of _ x] exI [of _ y] exI [of _ z]) simp
  qed
qed

end

section \<open>What creation leaves\<close>

text \<open>The three objects of the autoscaler's identity, as they are stored.\<close>

definition has_identity :: "api_store \<Rightarrow> object_key \<Rightarrow> bool" where
  "has_identity s k \<longleftrightarrow> sto_serviceaccounts s k \<noteq> None \<and> sto_roles s k \<noteq> None \<and> sto_rolebindings s k \<noteq> None"

definition identity_gone :: "api_store \<Rightarrow> object_key \<Rightarrow> bool" where
  "identity_gone s k \<longleftrightarrow> gone sa_meta (sto_serviceaccounts s) k \<and> gone role_meta (sto_roles s) k \<and>
     gone rb_meta (sto_rolebindings s) k"

text \<open>Two stores that differ at most in the identity at one key.\<close>

definition same_but_identity :: "object_key \<Rightarrow> api_store \<Rightarrow> api_store \<Rightarrow> bool" where
  "same_but_identity k s s' \<longleftrightarrow> (\<exists>x y z. s' = s\<lparr>sto_rolebindings := (sto_rolebindings s)(k := x),
     sto_roles := (sto_roles s)(k := y), sto_serviceaccounts := (sto_serviceaccounts s)(k := z)\<rparr>)"

lemma same_but_identity_refl: "same_but_identity k s s"
  unfolding same_but_identity_def
  by (intro exI [of _ "sto_rolebindings s k"] exI [of _ "sto_roles s k"] exI [of _ "sto_serviceaccounts s k"]) simp

lemma same_but_identity_trans:
  "same_but_identity k s s' \<Longrightarrow> same_but_identity k s' s'' \<Longrightarrow> same_but_identity k s s''"
  unfolding same_but_identity_def by fastforce

lemma same_but_identity_step:
  "same_but_identity k s (s\<lparr>sto_serviceaccounts := (sto_serviceaccounts s)(k := z)\<rparr>)"
  "same_but_identity k s (s\<lparr>sto_roles := (sto_roles s)(k := y)\<rparr>)"
  "same_but_identity k s (s\<lparr>sto_rolebindings := (sto_rolebindings s)(k := x)\<rparr>)"
  unfolding same_but_identity_def
  by (intro exI [of _ "sto_rolebindings s k"] exI [of _ "sto_roles s k"] exI [of _ z], simp)
     (intro exI [of _ "sto_rolebindings s k"] exI [of _ y] exI [of _ "sto_serviceaccounts s k"], simp,
      intro exI [of _ x] exI [of _ "sto_roles s k"] exI [of _ "sto_serviceaccounts s k"], simp)

context kube_api
begin

lemma CreateServiceAccountAndRole_post:
  assumes "CreateServiceAccountAndRole kc ns c w = (None, w')"
  shows "store w' = (store w)
    \<lparr>sto_serviceaccounts := (sto_serviceaccounts (store w))((ns, c) :=
       (case sto_serviceaccounts (store w) (ns, c) of None \<Rightarrow> Some \<lparr>sa_meta = new_meta ns c\<rparr> | Some a \<Rightarrow> Some a)),
     sto_roles := (sto_roles (store w))((ns, c) :=
       (case sto_roles (store w) (ns, c) of None \<Rightarrow> Some (getVmRayClusterMutationRole ns c) | Some a \<Rightarrow> Some a)),
     sto_rolebindings := (sto_rolebindings (store w))((ns, c) :=
       (case sto_rolebindings (store w) (ns, c) of
          None \<Rightarrow> Some (getVmRayClusterMutationRoleBinding ns c) | Some a \<Rightarrow> Some a))\<rparr>"
proof -
  from assms obtain w1 where "get_or_create (kc_serviceaccounts kc) ns c \<lparr>sa_meta = new_meta ns c\<rparr> w = (None, w1)"
    and rest: "and_then (get_or_create (kc_roles kc) ns c (getVmRayClusterMutationRole ns c))
      (get_or_create (kc_rolebindings kc) ns c (getVmRayClusterMutationRoleBinding ns c)) w1 = (None, w')"
    unfolding CreateServiceAccountAndRole_def by (rule and_then_cases) auto
  from serviceaccounts.get_or_create_post [OF this(1)] have 1: "store w1 = (store w)
    \<lparr>sto_serviceaccounts := (sto_serviceaccounts (store w))((ns, c) :=
       (case sto_serviceaccounts (store w) (ns, c) of None \<Rightarrow> Some \<lparr>sa_meta = new_meta ns c\<rparr> | Some a \<Rightarrow> Some a))\<rparr>"
    by (auto split: option.splits)
  from rest obtain w2 where "get_or_create (kc_roles kc) ns c (getVmRayClusterMutationRole ns c) w1 = (None, w2)"
    and rest': "get_or_create (kc_rolebindings kc) ns c (getVmRayClusterMutationRoleBinding ns c) w2 = (None, w')"
    by (rule and_then_cases) auto
  from roles.get_or_create_post [OF this(1)] have 2: "store w2 = (store w1)
    \<lparr>sto_roles := (sto_roles (store w1))((ns, c) :=
       (case sto_roles (store w1) (ns, c) of None \<Rightarrow> Some (getVmRayClusterMutationRole ns c) | Some a \<Rightarrow> Some a))\<rparr>"
    by (auto simp: getVmRayClusterMutationRole_def split: option.splits)
  from rolebindings.get_or_create_post [OF rest'] have "store w' = (store w2)
    \<lparr>sto_rolebindings := (sto_rolebindings (store w2))((ns, c) :=
       (case sto_rolebindings (store w2) (ns, c) of
          None \<Rightarrow> Some (getVmRayClusterMutationRoleBinding ns c) | Some a \<Rightarrow> Some a))\<rparr>"
    by (auto simp: getVmRayClusterMutationRoleBinding_def split: option.splits)
  with 1 2 show ?thesis by simp
qed

lemma CreateServiceAccountAndRole_frame:
  assumes "CreateServiceAccountAndRole kc ns c w = (r, w')"
  shows "same_but_identity (ns, c) (store w) (store w')"
proof -
  note steps = same_but_identity_step
  have sa: "same_but_identity (ns, c) (store w) (store w1)"
    if "get_or_create (kc_serviceaccounts kc) ns c \<lparr>sa_meta = new_meta ns c\<rparr> w = (r1, w1)" for r1 w w1
    using serviceaccounts.get_or_create_post [OF that] steps(1) by auto
  have ro: "same_but_identity (ns, c) (store w) (store w1)"
    if "get_or_create (kc_roles kc) ns c (getVmRayClusterMutationRole ns c) w = (r1, w1)" for r1 w w1
    using roles.get_or_create_post [OF that] steps(2) by (auto simp: getVmRayClusterMutationRole_def)
  have rb: "same_but_identity (ns, c) (store w) (store w1)"
    if "get_or_create (kc_rolebindings kc) ns c (getVmRayClusterMutationRoleBinding ns c) w = (r1, w1)" for r1 w w1
    using rolebindings.get_or_create_post [OF that] steps(3) by (auto simp: getVmRayClusterMutationRoleBinding_def)
  from assms show ?thesis unfolding CreateServiceAccountAndRole_def
    by (auto elim!: and_then_cases intro: same_but_identity_trans dest!: sa ro rb)
qed

end

context reliable_env
begin

lemma deleteSecret_succeeds: "\<exists>w'. deleteSecret kc ns n w = (None, w')"
  unfolding deleteSecret_eq by (rule rsecrets.delete_if_exists_succeeds)

lemma and_then_succeeds:
  assumes "\<And>w. \<exists>w'. f w = (None, w')" and "\<And>w. \<exists>w'. g w = (None, w')"
  shows "\<exists>w'. and_then f g w = (None, w')"
  using assms(1) [of w] assms(2) by (auto simp: and_then_def)

lemma DeleteAllCloudInitSecret_succeeds: "\<exists>w'. DeleteAllCloudInitSecret kc ns c w = (None, w')"
  unfolding DeleteAllCloudInitSecret_def by (intro and_then_succeeds deleteSecret_succeeds)

lemma CreateServiceAccountAndRole_succeeds: "\<exists>w'. CreateServiceAccountAndRole kc ns c w = (None, w')"
  unfolding CreateServiceAccountAndRole_def
  by (intro and_then_succeeds rserviceaccounts.get_or_create_succeeds rroles.get_or_create_succeeds
      rrolebindings.get_or_create_succeeds)
     (simp_all add: getVmRayClusterMutationRole_def getVmRayClusterMutationRoleBinding_def)

lemma DeleteServiceAccountAndRole_succeeds: "\<exists>w'. DeleteServiceAccountAndRole kc ns c w = (None, w')"
  unfolding DeleteServiceAccountAndRole_def
  by (intro and_then_succeeds rserviceaccounts.delete_if_exists_succeeds rroles.delete_if_exists_succeeds
      rrolebindings.delete_if_exists_succeeds)

end

section \<open>One SSH key per cluster\<close>

definition has_ssh_key :: "api_store \<Rightarrow> string \<Rightarrow> string \<Rightarrow> string \<Rightarrow> bool" where
  "has_ssh_key s ns c k \<longleftrightarrow> (\<exists>sec. sto_secrets s (ns, GetSshKeysSecretName c) = Some sec \<and>
     map_of (sec_Data sec) SshPrivateKey = Some k)"

lemma has_ssh_key_unique: "has_ssh_key s ns c k \<Longrightarrow> has_ssh_key s ns c k' \<Longrightarrow> k = k'"
  by (auto simp: has_ssh_key_def)

lemma ssh_secret_admit:
  "map_of (sec_Data (admit_secret (ssh_secret ns c k))) SshPrivateKey = Some k"
  "meta_key (sec_meta (ssh_secret ns c k)) = (ns, GetSshKeysSecretName c)"
  by (simp_all add: ssh_secret_def admit_secret_def gomap_set_def)

lemma ssh_name_not_node_name: "GetSshKeysSecretName (vdr_ClusterName req) \<noteq> node_secret_name req"
  using cluster_secret_names_distinct [of "vdr_ClusterName req"]
  by (auto simp: cluster_secret_names_def node_secret_name_def)

text \<open>What happens at a key of the secrets, and nowhere else.\<close>

definition secrets_upd :: "object_key set \<Rightarrow> api_store \<Rightarrow> api_store \<Rightarrow> bool" where
  "secrets_upd K s s' \<longleftrightarrow> (\<exists>m. s' = s\<lparr>sto_secrets := m\<rparr> \<and> (\<forall>k. k \<notin> K \<longrightarrow> m k = sto_secrets s k))"

lemma secrets_upd_refl [simp]: "secrets_upd K s s"
  by (auto simp: secrets_upd_def intro!: exI [of _ "sto_secrets s"])

lemma secrets_upd_one: "s' = s\<lparr>sto_secrets := (sto_secrets s)(k := z)\<rparr> \<Longrightarrow> secrets_upd {k} s s'"
  by (auto simp: secrets_upd_def)

lemma secrets_upd_trans: "secrets_upd K s s' \<Longrightarrow> secrets_upd L s' s'' \<Longrightarrow> secrets_upd (K \<union> L) s s''"
  by (force simp: secrets_upd_def)

lemma secrets_upd_mono: "secrets_upd K s s' \<Longrightarrow> K \<subseteq> L \<Longrightarrow> secrets_upd L s s'"
  by (force simp: secrets_upd_def)

lemma secrets_upd_lookup: "secrets_upd K s s' \<Longrightarrow> k \<notin> K \<Longrightarrow> sto_secrets s' k = sto_secrets s k"
  by (cases k) (auto simp: secrets_upd_def)

context operator_env
begin

lemma readPrivateKeyForCluster_post:
  assumes "readPrivateKeyForCluster kc ns c w = (r, w')"
  shows "store w' = store w \<and> (\<forall>k. r = Inr k \<longrightarrow> has_ssh_key (store w) ns c k)"
  using assms
  by (auto simp: readPrivateKeyForCluster_def has_ssh_key_def split: prod.splits sum.splits option.splits
      dest!: secrets.get_found secrets.get_error)

lemma createPrivateSshKey_store:
  assumes "createPrivateSshKey rt w = (k, w')"
  shows "store w' = store w"
  using assms by (auto simp: createPrivateSshKey_def split: prod.splits sum.splits dest: rsa_store)

lemma getOrCreatePrivateKeySecret_post:
  assumes "getOrCreatePrivateKeySecret rt kc ns c w = (r, w')"
  shows "secrets_upd {(ns, GetSshKeysSecretName c)} (store w) (store w') \<and>
    (\<forall>k. r = Inr k \<longrightarrow> has_ssh_key (store w') ns c k)"
proof (cases "readPrivateKeyForCluster kc ns c w")
  case (Pair rd w1)
  note read = readPrivateKeyForCluster_post [OF this]
  show ?thesis
  proof (cases "\<exists>e. rd = Inl e \<and> IgnoreNotFound e = None")
    case False
    with assms Pair have "r = rd \<and> w' = w1"
      by (auto simp: getOrCreatePrivateKeySecret_def split: sum.splits)
    with read show ?thesis by simp
  next
    case True
    obtain k w2 where key: "createPrivateSshKey rt w1 = (k, w2)" by fastforce
    then have s2: "store w2 = store w" using createPrivateSshKey_store read by simp
    obtain c' w3 where cr: "rcreate (kc_secrets kc) (ssh_secret ns c k) w2 = (c', w3)" by fastforce
    with True Pair assms key have w': "w' = w3" and r: "r = (case c' of Inl e \<Rightarrow> Inl e | Inr _ \<Rightarrow> Inr k)"
      by (auto simp: getOrCreatePrivateKeySecret_def split: sum.splits)
    show ?thesis
    proof (cases c')
      case (Inl e)
      with secrets.create_error cr s2 obtain z where
        "store w3 = (store w)\<lparr>sto_secrets := (sto_secrets (store w))((ns, GetSshKeysSecretName c) := z)\<rparr>"
        by (metis ssh_secret_admit(2))
      with Inl r w' show ?thesis by (simp add: secrets_upd_one)
    next
      case (Inr x)
      with secrets.create_ok [of "ssh_secret ns c k" w2 x w3] cr s2 have "store w3 = (store w)
          \<lparr>sto_secrets := (sto_secrets (store w))((ns, GetSshKeysSecretName c) \<mapsto> admit_secret (ssh_secret ns c k))\<rparr>"
        by (simp add: ssh_secret_admit)
      with Inr r w' ssh_secret_admit(1) show ?thesis by (auto simp: secrets_upd_one has_ssh_key_def)
    qed
  qed
qed

lemma getOrCreate_existing:
  assumes "has_ssh_key (store w) ns c k" and "getOrCreatePrivateKeySecret rt kc ns c w = (Inr k', w')"
  shows "readPrivateKeyForCluster kc ns c w = (Inr k', w')"
proof (cases "readPrivateKeyForCluster kc ns c w")
  case (Pair rd w1)
  have "IgnoreNotFound e \<noteq> None" if e: "rd = Inl e" for e
  proof -
    obtain g w2 where g: "rget (kc_secrets kc) ns (GetSshKeysSecretName c) w = (g, w2)" by fastforce
    show ?thesis
    proof (cases g)
      case (Inl e')
      with g assms(1) have "\<not> IsNotFound e'" using secrets.get_error by (auto simp: has_ssh_key_def)
      moreover from Inl g Pair e have "e = e'" by (simp add: readPrivateKeyForCluster_def)
      ultimately show ?thesis by (cases e) simp_all
    next
      case (Inr s)
      with secrets.get_found g assms(1) Pair e show ?thesis
        by (fastforce simp: readPrivateKeyForCluster_def has_ssh_key_def split: option.splits)
    qed
  qed
  with Pair assms(2) show ?thesis
    by (cases rd) (auto simp: getOrCreatePrivateKeySecret_def split: if_splits)
qed

lemma node_ssh_key_post:
  assumes "node_ssh_key rt kc req w = (r, w')"
  shows "secrets_upd {(vdr_Namespace req, GetSshKeysSecretName (vdr_ClusterName req))} (store w) (store w') \<and>
    (\<forall>k. r = Inr k \<longrightarrow> has_ssh_key (store w') (vdr_Namespace req) (vdr_ClusterName req) k)"
  using assms getOrCreatePrivateKeySecret_post readPrivateKeyForCluster_post
  by (fastforce simp: node_ssh_key_def split: if_splits)

lemma fetchServiceAccountToken_store: "fetchServiceAccountToken kc ns c w = (r, w') \<Longrightarrow> store w' = store w"
  unfolding fetchServiceAccountToken_def by (rule create_token_store)

lemma GetDockerLoginCmd_store: "GetDockerLoginCmd kc ns n w = (r, w') \<Longrightarrow> store w' = store w"
  by (auto simp: GetDockerLoginCmd_def Let_def split: if_splits prod.splits sum.splits option.splits
      dest!: secrets.get_found secrets.get_error)

end

section \<open>The cloud-init secret and its key\<close>

text \<open>
  Everything a new secret is made of apart from the request and the SSH key.
\<close>

abbreviation node_cloud_config ::
  "VmDeploymentRequest \<Rightarrow> string \<Rightarrow> string \<Rightarrow> string \<Rightarrow> string \<Rightarrow> string \<Rightarrow> CloudConfig" where
  "node_cloud_config req ssh token ca_crt ca_key login \<equiv>
     \<lparr>cc_VmDeploymentRequest = req, cc_SvcAccToken = token, cc_SecretName = node_secret_name req,
      cc_SshPvtKey = ssh, cc_CaCrt = ca_crt, cc_CaKey = ca_key, cc_DockerLoginCmd = login, cc_EnableTLS = 0\<rparr>"

abbreviation node_secret_key :: "VmDeploymentRequest \<Rightarrow> object_key" where
  "node_secret_key req \<equiv> (vdr_Namespace req, node_secret_name req)"

lemma CreateCloudInitConfigSecret_key:
  "CreateCloudInitConfigSecret yaml cs cc = Inr s \<Longrightarrow>
   meta_key (sec_meta s) = (vdr_Namespace (cc_VmDeploymentRequest cc), cc_SecretName cc)"
  by (auto simp: CreateCloudInitConfigSecret_def split: sum.splits)

text \<open>A stored secret that was made for the request with a given SSH key.\<close>

definition made_with :: "(RayBootstrapConfig \<Rightarrow> go_error + string) \<Rightarrow> VmDeploymentRequest \<Rightarrow> string \<Rightarrow> Secret \<Rightarrow> bool" where
  "made_with yaml req ssh s \<longleftrightarrow> (\<exists>cs token crt key login s0. s = admit_secret s0 \<and>
     CreateCloudInitConfigSecret yaml cs (node_cloud_config req ssh token crt key login) = Inr s0)"

context operator_env
begin

text \<open>The ways \<^const>\<open>new_cloud_init_secret\<close> ends: with an error before the secret is made, or with its creation.\<close>

lemma new_cloud_init_secret_cases:
  assumes "new_cloud_init_secret rt kc yaml req ssh w = (r, w')"
  shows "(\<exists>e. r = Inl e \<and> store w' = store w) \<or>
    (\<exists>cs token crt key login s w4. store w4 = store w \<and>
       CreateCloudInitConfigSecret yaml cs (node_cloud_config req ssh token crt key login) = Inr s \<and>
       rcreate (kc_secrets kc) s w4 = (r, w'))"
proof -
  obtain r1 w1 where 1: "fetchServiceAccountToken kc (vdr_Namespace req) (vdr_ClusterName req) w = (r1, w1)"
    by fastforce
  obtain key crt e2 w2 where 2: "ReadCaCrtAndCaKeyFromSecret kc (vdr_Namespace req)
      (vdr_ClusterName req @ RootCaSecretSuffix) w1 = ((key, crt, e2), w2)" by (metis surj_pair)
  obtain r3 w3 where 3: "GetDockerLoginCmd kc (vdr_Namespace req) (dr_AuthSecretName (vdr_DockerConfig req)) w2 = (r3, w3)"
    by fastforce
  obtain cs w4 where 4: "rt_range rt w3 = (cs, w4)" by fastforce
  note stores = fetchServiceAccountToken_store [OF 1] ReadCaCrtAndCaKeyFromSecret_store [OF 2]
    GetDockerLoginCmd_store [OF 3] range_store [OF 4]
  show ?thesis
  proof (cases "\<exists>token login. r1 = Inr token \<and> e2 = None \<and> r3 = Inr login")
    case False
    with assms 1 2 3 stores show ?thesis
      by (cases r1; cases e2; cases r3) (auto simp: new_cloud_init_secret_def)
  next
    case True
    then obtain token login where ok: "r1 = Inr token" "e2 = None" "r3 = Inr login" by blast
    let ?s = "CreateCloudInitConfigSecret yaml cs (node_cloud_config req ssh token crt key login)"
    from assms 1 2 3 4 ok have "(case ?s of Inl err \<Rightarrow> (Inl err, w4) | Inr secret \<Rightarrow> rcreate (kc_secrets kc) secret w4) = (r, w')"
      by (simp add: new_cloud_init_secret_def)
    note result = this
    show ?thesis
    proof (cases ?s)
      case (Inl e)
      with result stores have "r = Inl e \<and> store w' = store w" by simp
      then show ?thesis by blast
    next
      case (Inr s)
      with result have "rcreate (kc_secrets kc) s w4 = (r, w')" by simp
      with Inr stores show ?thesis by auto
    qed
  qed
qed

lemma new_cloud_init_secret_post:
  assumes "new_cloud_init_secret rt kc yaml req ssh w = (r, w')"
  shows "secrets_upd {node_secret_key req} (store w) (store w') \<and>
    (\<forall>s. r = Inr s \<longrightarrow> (\<exists>stored. sto_secrets (store w') (node_secret_key req) = Some stored \<and>
       sec_meta stored = sec_meta s \<and> made_with yaml req ssh stored))"
  using new_cloud_init_secret_cases [OF assms]
proof (elim disjE exE conjE)
  fix cs token crt key login s0 w4
  assume w4: "store w4 = store w" and s0: "CreateCloudInitConfigSecret yaml cs
      (node_cloud_config req ssh token crt key login) = Inr s0" and cr: "rcreate (kc_secrets kc) s0 w4 = (r, w')"
  have k: "meta_key (sec_meta s0) = node_secret_key req" using CreateCloudInitConfigSecret_key [OF s0] by simp
  show ?thesis
  proof (cases r)
    case (Inl e)
    with secrets.create_error cr k w4 show ?thesis by (fastforce intro: secrets_upd_one)
  next
    case (Inr s)
    from secrets.create_ok [OF cr [unfolded Inr]] k w4 have s: "sec_meta (admit_secret s0) = sec_meta s"
      "store w' = (store w)\<lparr>sto_secrets := (sto_secrets (store w))(node_secret_key req \<mapsto> admit_secret s0)\<rparr>"
      by (simp_all add: admit_secret_def)
    have "made_with yaml req ssh (admit_secret s0)" unfolding made_with_def using s0 by blast
    with secrets_upd_one [OF s(2)] s Inr show ?thesis by simp
  qed
qed simp

lemma CreateCloudInitSecret_post:
  assumes "CreateCloudInitSecret rt kc yaml req w = (r, w')"
  shows "secrets_upd {(vdr_Namespace req, GetSshKeysSecretName (vdr_ClusterName req)), node_secret_key req}
      (store w) (store w') \<and>
    (\<forall>s existed. r = Inr (s, existed) \<longrightarrow>
      (\<exists>stored ssh. sto_secrets (store w') (node_secret_key req) = Some stored \<and> sec_meta stored = sec_meta s \<and>
        has_ssh_key (store w') (vdr_Namespace req) (vdr_ClusterName req) ssh \<and>
        fst (node_ssh_key rt kc req w) = Inr ssh \<and>
        (if existed then stored = s else made_with yaml req ssh stored)))"
    (is "secrets_upd ?K _ _ \<and> ?found")
proof -
  obtain r1 w1 where 1: "node_ssh_key rt kc req w = (r1, w1)" by fastforce
  note ssh = node_ssh_key_post [OF 1]
  then have K1: "secrets_upd ?K (store w) (store w1)" by (auto intro: secrets_upd_mono)
  show ?thesis
  proof (cases r1)
    case (Inl e)
    with assms 1 K1 show ?thesis by (auto simp: CreateCloudInitSecret_def)
  next
    case key: (Inr k)
    obtain g w2 where 2: "rget (kc_secrets kc) (vdr_Namespace req) (node_secret_name req) w1 = (g, w2)" by fastforce
    show ?thesis
    proof (cases g)
      case (Inr s)
      with assms 1 2 key have "r = Inr (s, True)" "w' = w2" by (simp_all add: CreateCloudInitSecret_def)
      with secrets.get_found [OF 2 [unfolded Inr]] K1 ssh key 1 show ?thesis by auto
    next
      case (Inl e)
      then have s2: "store w2 = store w1" using secrets.get_error 2 by blast
      show ?thesis
      proof (cases "IgnoreNotFound e")
        case (Some a)
        with assms 1 2 key Inl s2 K1 show ?thesis by (auto simp: CreateCloudInitSecret_def)
      next
        case None
        obtain r3 w3 where 3: "new_cloud_init_secret rt kc yaml req k w2 = (r3, w3)" by fastforce
        with assms 1 2 key Inl None have w': "w' = w3"
          and r: "r = (case r3 of Inl e \<Rightarrow> Inl e | Inr s \<Rightarrow> Inr (s, False))"
          by (auto simp: CreateCloudInitSecret_def split: sum.splits)
        note new = new_cloud_init_secret_post [OF 3]
        have "secrets_upd (?K \<union> {node_secret_key req}) (store w) (store w3)"
          using secrets_upd_trans [OF K1] new s2 by metis
        moreover have "has_ssh_key (store w3) (vdr_Namespace req) (vdr_ClusterName req) k"
          using ssh key new s2 secrets_upd_lookup [of "{node_secret_key req}" "store w2" "store w3"]
            ssh_name_not_node_name [of req] by (auto simp: has_ssh_key_def)
        ultimately show ?thesis using new r w' 1 key by (cases r3) (auto simp: insert_absorb)
      qed
    qed
  qed
qed

end

section \<open>When creation succeeds\<close>

text \<open>
  What has to be there for a new cloud-init secret: the service account and both entries of
  the root certificate's secret. A cluster with a private registry needs a login as well.
\<close>

definition boot_ready :: "api_store \<Rightarrow> string \<Rightarrow> string \<Rightarrow> bool" where
  "boot_ready s ns c \<longleftrightarrow> sto_serviceaccounts s (ns, c) \<noteq> None \<and>
     (\<exists>r crt key. sto_secrets s (ns, c @ RootCaSecretSuffix) = Some r \<and>
        map_of (sec_Data r) rootCaCertKey = Some crt \<and> map_of (sec_Data r) rootCaKeyKey = Some key)"

lemma CreateCloudInitConfigSecret_succeeds:
  assumes "\<And>c. \<exists>y. yaml c = Inr y"
  shows "\<exists>s. CreateCloudInitConfigSecret yaml cs cc = Inr s"
proof -
  have "\<exists>out. produceCloudInitConfigYamlTemplate yaml cs cc = Inr out"
    using assms [of "bootstrap_config cs (effective_config cc)"]
    by (auto simp: produceCloudInitConfigYamlTemplate_def effective_config_def Let_def template_succeeds
        head_bootstrap_def getBootstrapYamlContent_def convertToYaml_def split: sum.splits)
  then show ?thesis by (auto simp: CreateCloudInitConfigSecret_def)
qed

lemma root_name_not_ssh_name: "GetSshKeysSecretName c \<noteq> c @ RootCaSecretSuffix"
  using cluster_secret_names_distinct [of c] by (auto simp: cluster_secret_names_def)

context reliable_env
begin

lemma getOrCreatePrivateKeySecret_succeeds:
  assumes "sto_secrets (store w) (ns, GetSshKeysSecretName c) = None \<or> has_ssh_key (store w) ns c k"
  shows "\<exists>k w'. getOrCreatePrivateKeySecret rt kc ns c w = (Inr k, w')"
proof (cases "sto_secrets (store w) (ns, GetSshKeysSecretName c)")
  case None
  then obtain e w1 where g: "rget (kc_secrets kc) ns (GetSshKeysSecretName c) w = (Inl e, w1)" "IsNotFound e"
    using rsecrets.get_absent by blast
  obtain k w2 where k: "createPrivateSshKey rt w1 = (k, w2)" by fastforce
  have "sto_secrets (store w2) (meta_key (sec_meta (ssh_secret ns c k))) = None"
    using None secrets.get_error [OF g(1)] createPrivateSshKey_store [OF k] by (simp add: ssh_secret_admit)
  then obtain y w3 where "rcreate (kc_secrets kc) (ssh_secret ns c k) w2 = (Inr y, w3)"
    using rsecrets.create_absent by blast
  with g k show ?thesis by (simp add: getOrCreatePrivateKeySecret_def readPrivateKeyForCluster_def)
next
  case (Some s)
  with assms obtain k where "map_of (sec_Data s) SshPrivateKey = Some k" by (auto simp: has_ssh_key_def)
  moreover obtain w1 where "rget (kc_secrets kc) ns (GetSshKeysSecretName c) w = (Inr s, w1)"
    using rsecrets.get_present [OF Some] by blast
  ultimately show ?thesis by (simp add: getOrCreatePrivateKeySecret_def readPrivateKeyForCluster_def)
qed

lemma new_cloud_init_secret_succeeds:
  assumes "\<And>c. \<exists>y. yaml c = Inr y" and "boot_ready (store w) (vdr_Namespace req) (vdr_ClusterName req)"
    and "dr_AuthSecretName (vdr_DockerConfig req) = ''''" and "sto_secrets (store w) (node_secret_key req) = None"
  shows "\<exists>s w'. new_cloud_init_secret rt kc yaml req ssh w = (Inr s, w')"
proof -
  from assms(2) obtain t w1 where 1: "fetchServiceAccountToken kc (vdr_Namespace req) (vdr_ClusterName req) w = (Inr t, w1)"
    unfolding boot_ready_def fetchServiceAccountToken_def using token_succeeds by blast
  have s1: "store w1 = store w" by (rule fetchServiceAccountToken_store [OF 1])
  with assms(2) obtain ck crt w2 where 2: "ReadCaCrtAndCaKeyFromSecret kc (vdr_Namespace req)
      (vdr_ClusterName req @ RootCaSecretSuffix) w1 = ((ck, crt, None), w2)"
    unfolding boot_ready_def using ReadCaCrtAndCaKeyFromSecret_present by metis
  have 3: "GetDockerLoginCmd kc (vdr_Namespace req) (dr_AuthSecretName (vdr_DockerConfig req)) w2 = (Inr '''', w2)"
    using assms(3) by (simp add: GetDockerLoginCmd_def)
  obtain cs w4 where 4: "rt_range rt w2 = (cs, w4)" by fastforce
  obtain s0 where s0: "CreateCloudInitConfigSecret yaml cs (node_cloud_config req ssh t crt ck '''') = Inr s0"
    using CreateCloudInitConfigSecret_succeeds [of yaml, OF assms(1)] by blast
  have "sto_secrets (store w4) (meta_key (sec_meta s0)) = None"
    using assms(4) s1 ReadCaCrtAndCaKeyFromSecret_store [OF 2] range_store [OF 4]
      CreateCloudInitConfigSecret_key [OF s0] by simp
  then obtain s w5 where "rcreate (kc_secrets kc) s0 w4 = (Inr s, w5)" using rsecrets.create_absent by blast
  with 1 2 3 4 s0 show ?thesis by (simp add: new_cloud_init_secret_def)
qed

lemma boot_ready_ssh:
  assumes "boot_ready s ns c" and "secrets_upd {(ns, GetSshKeysSecretName c)} s s'"
  shows "boot_ready s' ns c"
proof -
  have "sto_secrets s' (ns, c @ RootCaSecretSuffix) = sto_secrets s (ns, c @ RootCaSecretSuffix)"
    using secrets_upd_lookup [OF assms(2)] root_name_not_ssh_name [of c] by auto
  moreover have "sto_serviceaccounts s' = sto_serviceaccounts s"
    using assms(2) by (auto simp: secrets_upd_def)
  ultimately show ?thesis using assms(1) by (simp add: boot_ready_def)
qed

lemma CreateCloudInitSecret_with_key:
  assumes "\<And>c. \<exists>y. yaml c = Inr y" and "boot_ready (store w) (vdr_Namespace req) (vdr_ClusterName req)"
    and "dr_AuthSecretName (vdr_DockerConfig req) = ''''" and 1: "node_ssh_key rt kc req w = (Inr ssh, w1)"
  shows "\<exists>s w'. CreateCloudInitSecret rt kc yaml req w =
    (Inr (s, sto_secrets (store w) (node_secret_key req) \<noteq> None), w')"
proof -
  note u = conjunct1 [OF node_ssh_key_post [OF 1]]
  have same: "sto_secrets (store w1) (node_secret_key req) = sto_secrets (store w) (node_secret_key req)"
    using secrets_upd_lookup [OF u] ssh_name_not_node_name [of req] by auto
  show ?thesis
  proof (cases "sto_secrets (store w) (node_secret_key req)")
    case (Some s)
    then obtain w2 where "rget (kc_secrets kc) (vdr_Namespace req) (node_secret_name req) w1 = (Inr s, w2)"
      using same rsecrets.get_present by metis
    with 1 Some show ?thesis by (simp add: CreateCloudInitSecret_def)
  next
    case None
    then obtain e w2 where 2: "rget (kc_secrets kc) (vdr_Namespace req) (node_secret_name req) w1 = (Inl e, w2)"
      "IsNotFound e" using same rsecrets.get_absent by metis
    have s2: "store w2 = store w1" using secrets.get_error [OF 2(1)] by blast
    have "boot_ready (store w2) (vdr_Namespace req) (vdr_ClusterName req)"
      "sto_secrets (store w2) (node_secret_key req) = None"
      using boot_ready_ssh [OF assms(2) u] None same by (simp_all add: s2)
    from new_cloud_init_secret_succeeds [of yaml, OF assms(1) this(1) assms(3) this(2)]
    obtain s w3 where "new_cloud_init_secret rt kc yaml req ssh w2 = (Inr s, w3)" by blast
    with 1 2 None show ?thesis by (simp add: CreateCloudInitSecret_def)
  qed
qed

lemma CreateCloudInitSecret_succeeds:
  assumes "\<And>c. \<exists>y. yaml c = Inr y" and "boot_ready (store w) (vdr_Namespace req) (vdr_ClusterName req)"
    and "dr_AuthSecretName (vdr_DockerConfig req) = ''''" and "vdr_HeadNodeStatus req = None"
    and "sto_secrets (store w) (vdr_Namespace req, GetSshKeysSecretName (vdr_ClusterName req)) = None \<or>
      has_ssh_key (store w) (vdr_Namespace req) (vdr_ClusterName req) k"
  shows "\<exists>s w'. CreateCloudInitSecret rt kc yaml req w =
    (Inr (s, sto_secrets (store w) (node_secret_key req) \<noteq> None), w')"
proof -
  obtain ssh w1 where "node_ssh_key rt kc req w = (Inr ssh, w1)"
    using getOrCreatePrivateKeySecret_succeeds [OF assms(5)] assms(4) by (auto simp: node_ssh_key_def)
  from CreateCloudInitSecret_with_key [of yaml, OF assms(1-3) this] show ?thesis .
qed

end

context reliable_env
begin

lemma get_secret_present:
  assumes "sto_secrets (store w) (ns, n) = Some s"
  shows "\<exists>w'. rget (kc_secrets kc) ns n w = (Inr s, w') \<and> store w' = store w"
  using rsecrets.get_present [OF assms] secrets.get_found by blast

lemma node_ssh_key_existing:
  assumes "has_ssh_key (store w) (vdr_Namespace req) (vdr_ClusterName req) k"
  shows "\<exists>w'. node_ssh_key rt kc req w = (Inr k, w') \<and> store w' = store w"
proof -
  from assms obtain s where s: "sto_secrets (store w) (vdr_Namespace req, GetSshKeysSecretName (vdr_ClusterName req)) = Some s"
    "map_of (sec_Data s) SshPrivateKey = Some k" by (auto simp: has_ssh_key_def)
  from get_secret_present [OF s(1)] s(2) show ?thesis
    by (auto simp: node_ssh_key_def getOrCreatePrivateKeySecret_def readPrivateKeyForCluster_def)
qed

end

section \<open>Properties\<close>

text \<open>
  C31: deleting the secrets of a cluster, however it ends, touches no object of another kind
  and no secret at all, in any namespace, other than the cluster's own five in its own
  namespace. None of those five belongs to another cluster: the secrets of a cluster with
  another name or in another namespace stay as they are. If it returns nil, all five are gone.
\<close>

theorem DeleteAllCloudInitSecret_isolated:
  assumes "kube_api kc store vm_admit vs_admit" and "DeleteAllCloudInitSecret kc ns c w = (r, w')"
  shows "store w' = (store w)\<lparr>sto_secrets := sto_secrets (store w')\<rparr> \<and>
    (\<forall>k. k \<notin> {ns} \<times> set (cluster_secret_names c) \<longrightarrow> sto_secrets (store w') k = sto_secrets (store w) k) \<and>
    (\<forall>ns' d n. (ns', d) \<noteq> (ns, c) \<longrightarrow> n \<in> set (cluster_secret_names d) \<longrightarrow>
       sto_secrets (store w') (ns', n) = sto_secrets (store w) (ns', n)) \<and>
    (r = None \<longrightarrow> (\<forall>n\<in>set (cluster_secret_names c). gone sec_meta (sto_secrets (store w')) (ns, n)))"
proof -
  from kube_api.delete_secrets_post [OF assms(1) assms(2) [unfolded DeleteAllCloudInitSecret_list]]
  obtain m where m: "store w' = (store w)\<lparr>sto_secrets := m\<rparr>"
    "\<forall>k. k \<notin> Pair ns ` set (cluster_secret_names c) \<longrightarrow> m k = sto_secrets (store w) k"
    "r = None \<longrightarrow> (\<forall>n\<in>set (cluster_secret_names c). terminated sec_meta (m (ns, n)))" by blast
  have outside: "m k = sto_secrets (store w) k" if "k \<notin> {ns} \<times> set (cluster_secret_names c)" for k
    using that m(2) by (cases k) auto
  have "m (ns', n) = sto_secrets (store w) (ns', n)"
    if "(ns', d) \<noteq> (ns, c)" "n \<in> set (cluster_secret_names d)" for ns' d n
    using that cluster_secret_names_disjoint [of d c n] by (intro outside) auto
  with m outside show ?thesis by (simp add: gone_terminated)
qed

definition two_clusters :: mem_world where
  "two_clusters = empty_world\<lparr>mw_store := empty_store\<lparr>sto_secrets :=
     [(''ns'', ''a-ssh-key'') \<mapsto> admit_secret (ssh_secret ''ns'' ''a'' ''ka''),
      (''ns'', ''b-ssh-key'') \<mapsto> admit_secret (ssh_secret ''ns'' ''b'' ''kb'')]\<rparr>\<rparr>"

theorem DeleteAllCloudInitSecret_isolated_witness:
  "\<exists>w'. DeleteAllCloudInitSecret mem_client ''ns'' ''a'' two_clusters = (None, w') \<and>
    gone sec_meta (sto_secrets (mem_store w')) (''ns'', GetSshKeysSecretName ''a'') \<and>
    sto_secrets (mem_store w') (''ns'', GetSshKeysSecretName ''b'') =
      sto_secrets (mem_store two_clusters) (''ns'', GetSshKeysSecretName ''b'')"
proof -
  obtain w' where d: "DeleteAllCloudInitSecret mem_client ''ns'' ''a'' two_clusters = (None, w')"
    using mem.DeleteAllCloudInitSecret_succeeds by blast
  from DeleteAllCloudInitSecret_isolated [OF mem_kube_api d] d show ?thesis
    by (auto simp: cluster_secret_names_def)
qed

text \<open>
  C30: in an environment without faults the identity of the autoscaler can be created from
  any state, after which service account, role and binding exist, the last two with exactly
  the rules and the subject of the code if they are new; deleting it then succeeds too and
  leaves none of the three. Nothing else has changed in the end.
\<close>

theorem service_account_roundtrip:
  assumes "reliable_env kc store vm_admit vs_admit rt"
  shows "\<exists>w1 w2. CreateServiceAccountAndRole kc ns c w = (None, w1) \<and>
    DeleteServiceAccountAndRole kc ns c w1 = (None, w2) \<and>
    has_identity (store w1) (ns, c) \<and>
    (sto_roles (store w) (ns, c) = None \<longrightarrow>
       sto_roles (store w1) (ns, c) = Some (getVmRayClusterMutationRole ns c)) \<and>
    (sto_rolebindings (store w) (ns, c) = None \<longrightarrow>
       sto_rolebindings (store w1) (ns, c) = Some (getVmRayClusterMutationRoleBinding ns c)) \<and>
    identity_gone (store w2) (ns, c) \<and> same_but_identity (ns, c) (store w) (store w2)"
proof -
  note op = reliable_env.axioms(1) [OF assms]
  note api = operator_env.axioms(1) [OF op]
  obtain w1 where c: "CreateServiceAccountAndRole kc ns c w = (None, w1)"
    using reliable_env.CreateServiceAccountAndRole_succeeds [OF assms] by blast
  obtain w2 where d: "DeleteServiceAccountAndRole kc ns c w1 = (None, w2)"
    using reliable_env.DeleteServiceAccountAndRole_succeeds [OF assms] by blast
  note cp = kube_api.CreateServiceAccountAndRole_post [OF api c]
    and dp = kube_api.DeleteServiceAccountAndRole_post [OF api d]
  have "has_identity (store w1) (ns, c)"
    unfolding cp has_identity_def by (simp split: option.splits)
  moreover have "identity_gone (store w2) (ns, c)"
    using dp by (auto simp: identity_gone_def gone_terminated)
  moreover have "same_but_identity (ns, c) (store w1) (store w2)"
    using dp by (auto simp: same_but_identity_def)
  then have "same_but_identity (ns, c) (store w) (store w2)"
    using kube_api.CreateServiceAccountAndRole_frame [OF api c] same_but_identity_trans by blast
  ultimately show ?thesis using c d cp by auto
qed

theorem service_account_roundtrip_witness:
  "\<exists>w1 w2. CreateServiceAccountAndRole mem_client ''ns'' ''ray'' empty_world = (None, w1) \<and>
    DeleteServiceAccountAndRole mem_client ''ns'' ''ray'' w1 = (None, w2) \<and>
    sto_roles (mem_store w1) (''ns'', ''ray'') = Some (getVmRayClusterMutationRole ''ns'' ''ray'') \<and>
    identity_gone (mem_store w2) (''ns'', ''ray'')"
proof -
  have "sto_roles (mem_store empty_world) (''ns'', ''ray'') = None"
    by (simp add: mem_store_def empty_world_def empty_store_def keyed_def Let_def)
  with service_account_roundtrip [OF mem_reliable_env, of "''ns''" "''ray''" empty_world] show ?thesis by blast
qed

text \<open>What the rules of a role permit.\<close>

definition role_permits :: "Role \<Rightarrow> string \<Rightarrow> string \<Rightarrow> string \<Rightarrow> bool" where
  "role_permits role grp res verb \<longleftrightarrow> (\<exists>rule \<in> set (role_Rules role).
     grp \<in> set (pr_APIGroups rule) \<and> res \<in> set (pr_Resources rule) \<and> verb \<in> set (pr_Verbs rule))"

text \<open>
  the role the head machine's service account gets permits exactly reading and patching
  ray clusters, reading VM services and creating secrets; it cannot read a secret.
\<close>

theorem mutation_role_least_privilege:
  "role_permits (getVmRayClusterMutationRole ns c) grp res verb \<longleftrightarrow>
     (grp, res, verb) \<in> {(''vmray.broadcom.com'', ''vmrayclusters'', ''get''),
       (''vmray.broadcom.com'', ''vmrayclusters'', ''patch''),
       (''vmoperator.vmware.com'', ''virtualmachineservices'', ''get''), ('''', ''secrets'', ''create'')}"
  by (auto simp: role_permits_def getVmRayClusterMutationRole_def rayApiGroup_def rayClusterResources_def
      getVerb_def patchVerb_def vmopApiGroup_def vmServiceResources_def coreApiGroup_def
      k8sSecretResources_def createVerb_def)

text \<open>
  C29: a cluster has one SSH key. Once a call has returned a key, every later call that reads
  or gets-or-creates it returns the same key, as long as the key's secret is left alone.
\<close>

theorem ssh_key_stable:
  assumes "operator_env kc store vm_admit vs_admit rt"
    and "getOrCreatePrivateKeySecret rt kc ns c w = (Inr k, w1)"
    and "sto_secrets (store w2) (ns, GetSshKeysSecretName c) = sto_secrets (store w1) (ns, GetSshKeysSecretName c)"
    and "readPrivateKeyForCluster kc ns c w2 = (Inr k', w3) \<or>
      getOrCreatePrivateKeySecret rt kc ns c w2 = (Inr k', w3)"
  shows "k' = k"
proof -
  note op = assms(1)
  have "has_ssh_key (store w1) ns c k"
    using operator_env.getOrCreatePrivateKeySecret_post [OF op assms(2)] by simp
  with assms(3) have k: "has_ssh_key (store w2) ns c k" by (simp add: has_ssh_key_def)
  from operator_env.getOrCreate_existing [OF op k] assms(4)
  have "\<exists>w3. readPrivateKeyForCluster kc ns c w2 = (Inr k', w3)" by auto
  with operator_env.readPrivateKeyForCluster_post [OF op] have "has_ssh_key (store w2) ns c k'" by blast
  with k show ?thesis by (rule has_ssh_key_unique [rotated])
qed

lemma two_clusters_key: "has_ssh_key (mem_store two_clusters) ''ns'' ''a'' ''ka''"
  by (simp add: has_ssh_key_def two_clusters_def empty_world_def empty_store_def mem_store_def keyed_def Let_def
      ssh_secret_admit GetSshKeysSecretName_def sshKeySecretSuffix_def)

lemma two_clusters_read: "readPrivateKeyForCluster mem_client ''ns'' ''a'' two_clusters = (Inr ''ka'', two_clusters)"
  using two_clusters_key by (auto simp: has_ssh_key_def readPrivateKeyForCluster_def mem_api_def)

theorem ssh_key_stable_witness:
  "getOrCreatePrivateKeySecret mem_runtime mem_client ''ns'' ''a'' two_clusters = (Inr ''ka'', two_clusters) \<and>
   fst (readPrivateKeyForCluster mem_client ''ns'' ''a'' two_clusters) = Inr ''ka''"
proof -
  have g: "getOrCreatePrivateKeySecret mem_runtime mem_client ''ns'' ''a'' two_clusters = (Inr ''ka'', two_clusters)"
    by (simp add: getOrCreatePrivateKeySecret_def two_clusters_read)
  obtain k' w3 where rd: "readPrivateKeyForCluster mem_client ''ns'' ''a'' two_clusters = (Inr k', w3)"
    using two_clusters_read by blast
  have "k' = ''ka''" by (rule ssh_key_stable [OF mem_operator_env g refl disjI1 [OF rd]])
  with g rd show ?thesis by simp
qed


definition ready_world :: mem_world where
  "ready_world = empty_world\<lparr>mw_store := empty_store
     \<lparr>sto_secrets := [(''ns'', ''ray-root-cert'') \<mapsto> admit_secret (root_secret ''ns'' ''ray-root-cert'' ''crt'' ''ckey'')],
      sto_serviceaccounts := [(''ns'', ''ray'') \<mapsto> \<lparr>sa_meta = new_meta ''ns'' ''ray''\<rparr>]\<rparr>\<rparr>"

lemma ready_world_store:
  "sto_secrets (mem_store ready_world) =
     [(''ns'', ''ray-root-cert'') \<mapsto> admit_secret (root_secret ''ns'' ''ray-root-cert'' ''crt'' ''ckey'')]"
  "sto_serviceaccounts (mem_store ready_world) = [(''ns'', ''ray'') \<mapsto> \<lparr>sa_meta = new_meta ''ns'' ''ray''\<rparr>]"
  by (simp_all add: ready_world_def empty_world_def empty_store_def mem_store_def Let_def keyed_def fun_eq_iff
      root_secret_def)

lemma ready_world_boot: "boot_ready (mem_store ready_world) ''ns'' ''ray''"
  by (simp add: boot_ready_def ready_world_store RootCaSecretSuffix_def)

lemma ready_world_secrets:
  "sto_secrets (mem_store ready_world) (''ns'', GetSshKeysSecretName ''ray'') = None"
  "sto_secrets (mem_store ready_world) (node_secret_key sample_request) = None"
  by (simp_all add: ready_world_store GetSshKeysSecretName_def node_secret_name_def suffix_defs sample_request_def)

lemma ready_world_head:
  "\<exists>s w'. CreateCloudInitSecret mem_runtime mem_client (\<lambda>_. Inr ''y'') sample_request ready_world =
     (Inr (s, False), w')"
  using mem.CreateCloudInitSecret_succeeds [of "\<lambda>_. Inr ''y''" ready_world sample_request]
    ready_world_boot ready_world_secrets by (simp add: sample_request_def)

lemma show_2048: "show_nat 2048 = ''2048''"
  by code_simp

lemma ready_world_key:
  "fst (node_ssh_key mem_runtime mem_client sample_request ready_world) = Inr ''BEGIN RSA PRIVATE KEY rsa-2048''"
proof -
  have none: "sto_secrets (mem_store ready_world) (''ns'', GetSshKeysSecretName ''ray'') = None"
    by (rule ready_world_secrets)
  have key: "createPrivateSshKey mem_runtime ready_world =
      (''BEGIN RSA PRIVATE KEY rsa-2048'', ready_world\<lparr>mw_clock := Suc (mw_clock ready_world)\<rparr>)"
    by (simp add: createPrivateSshKey_def mem_runtime_def marshalRSAPrivate_def show_2048)
  show ?thesis
    by (simp add: node_ssh_key_def sample_request_def getOrCreatePrivateKeySecret_def readPrivateKeyForCluster_def
        none key mem_api_def ssh_secret_admit)
qed


text \<open>
  In an environment without faults, asking for the cloud-init secret of a node again
  returns the secret that is stored since the first time, marked as existing, and changes nothing.
\<close>

theorem CreateCloudInitSecret_idempotent:
  assumes "reliable_env kc store vm_admit vs_admit rt"
    and "CreateCloudInitSecret rt kc yaml req w = (Inr (s, existed), w1)"
  shows "\<exists>stored w2. sto_secrets (store w1) (node_secret_key req) = Some stored \<and> sec_meta stored = sec_meta s \<and>
    CreateCloudInitSecret rt kc yaml' req w1 = (Inr (stored, True), w2) \<and> store w2 = store w1"
proof -
  note op = reliable_env.axioms(1) [OF assms(1)]
  from operator_env.CreateCloudInitSecret_post [OF op assms(2)] obtain k stored where
    stored: "sto_secrets (store w1) (node_secret_key req) = Some stored" "sec_meta stored = sec_meta s" and
    key: "has_ssh_key (store w1) (vdr_Namespace req) (vdr_ClusterName req) k" by auto
  obtain w2 where 1: "node_ssh_key rt kc req w1 = (Inr k, w2)" and s2: "store w2 = store w1"
    using reliable_env.node_ssh_key_existing [OF assms(1) key] by blast
  have "\<exists>w3. rget (kc_secrets kc) (vdr_Namespace req) (node_secret_name req) w2 = (Inr stored, w3) \<and> store w3 = store w2"
    using reliable_env.get_secret_present [OF assms(1), of w2] stored(1) s2 by metis
  with 1 s2 stored show ?thesis by (auto simp: CreateCloudInitSecret_def)
qed

theorem CreateCloudInitSecret_idempotent_witness:
  "\<exists>s stored w1 w2. CreateCloudInitSecret mem_runtime mem_client (\<lambda>_. Inr ''y'') sample_request ready_world =
     (Inr (s, False), w1) \<and> sec_meta stored = sec_meta s \<and>
   CreateCloudInitSecret mem_runtime mem_client (\<lambda>_. Inr ''z'') sample_request w1 = (Inr (stored, True), w2) \<and>
   mem_store w2 = mem_store w1"
proof -
  obtain s w' where c: "CreateCloudInitSecret mem_runtime mem_client (\<lambda>_. Inr ''y'') sample_request ready_world =
     (Inr (s, False), w')" using ready_world_head by blast
  from CreateCloudInitSecret_idempotent [OF mem_reliable_env c, of "\<lambda>_. Inr ''z''"] c show ?thesis by blast
qed

text \<open>
  the login command for a registry. Without a secret name there is none. Otherwise the
  secret must be readable and have a user name and a password, the first one missing being
  the one reported; the registry is optional.
\<close>

theorem GetDockerLoginCmd_result:
  "fst (GetDockerLoginCmd kc ns name w) =
     (if name = '''' then Inr ''''
      else (case fst (rget (kc_secrets kc) ns name w) of
              Inl err \<Rightarrow> Inl err
            | Inr s \<Rightarrow> let missing = filter (\<lambda>k. map_of (sec_Data s) k = None) [''username'', ''password''] in
                if missing \<noteq> [] then Inl (errorMissingKey (hd missing) name)
                else Inr (''docker login '' @ (case map_of (sec_Data s) ''registry'' of None \<Rightarrow> '''' | Some r \<Rightarrow> r) @
                       '' --username '' @ the (map_of (sec_Data s) ''username'') @
                       '' --password '' @ the (map_of (sec_Data s) ''password''))))"
  by (auto simp: GetDockerLoginCmd_def DockerUsernameKey_def DockerPasswordKey_def DockerRegistryKey_def
      dockerLoginCmd_def newErrorMissingKey_def Let_def split: prod.splits sum.splits option.splits)

end
