(* ===== verification/Vmop_Provider.thy ===== *)
theory Vmop_Provider
  imports Vmop_Utils Vm_Provider
begin

text \<open>
  The provider that deploys machines through the VM operator,
  \<^verbatim>\<open>pkg/provider/vmop/vmop_provider.go\<close>, with the translation to and from the VM operator's
  \<^verbatim>\<open>VirtualMachine\<close> (\<^verbatim>\<open>translator/translator.go\<close>). The main result is that it keeps the
  contract \<^verbatim>\<open>vm_provider\<close> over any API server that keeps its own; others say which machine a
  deployment creates, what the head's service exposes, and what deletion leaves behind.
\<close>

section \<open>Translation\<close>

definition TranslateToVmCRD ::
  "string \<Rightarrow> string \<Rightarrow> string \<Rightarrow> string gomap \<Rightarrow> string \<Rightarrow> CommonNodeConfig \<Rightarrow> VirtualMachine" where
  "TranslateToVmCRD ns vmName cloudConfigSecretName labels vmclass nodeconfig =
     \<lparr>vm_meta = (new_meta ns vmName)\<lparr>om_Labels := Some labels\<rparr>,
      vm_ImageName = nc_VMImage nodeconfig,
      vm_ClassName = vmclass,
      vm_PowerState = ''PoweredOn'',
      vm_StorageClass = nc_StorageClass nodeconfig,
      vm_Network = nc_Network nodeconfig,
      vm_RawCloudConfig = \<lparr>sks_Name = cloudConfigSecretName, sks_Key = CloudInitConfigUserDataKey\<rparr>,
      vm_StatusNetwork = None,
      vm_StatusConditions = []\<rparr>"

definition ExtractVmStatus :: "VirtualMachine \<Rightarrow> VMRayNodeStatus" where
  "ExtractVmStatus vm =
     \<lparr>ns_Ip = (case vm_StatusNetwork vm of None \<Rightarrow> '''' | Some primaryIP4 \<Rightarrow> primaryIP4),
      ns_Conditions = vm_StatusConditions vm, ns_VmStatus = '''', ns_RayStatus = ''''\<rparr>"

section \<open>Constants\<close>

definition HeadVMServiceAnnotation :: string where
  "HeadVMServiceAnnotation = ''vmray.kubernetes.io/ray-cluster-head''"
definition RayHeadDefaultPortName :: string where "RayHeadDefaultPortName = ''ray-port''"
definition RayDashboardPortName :: string where "RayDashboardPortName = ''ray-dashboard-port''"
definition RayDashboardPort :: int32 where "RayDashboardPort = 8265"
definition SshPortName :: string where "SshPortName = ''ssh-port''"
definition SshPort :: int32 where "SshPort = 22"
definition RayClientPortName :: string where "RayClientPortName = ''ray-client-port''"
definition RayClientPort :: int32 where "RayClientPort = 10001"
definition Protocol_TCP :: string where "Protocol_TCP = ''TCP''"

section \<open>Machines\<close>

definition getVmClass :: "string \<Rightarrow> CommonNodeConfig \<Rightarrow> go_error + string" where
  "getVmClass nodetype nodeconfig =
     (case map_of (nc_NodeTypes nodeconfig) nodetype of
        Some nt \<Rightarrow> Inr (nt_VMClass nt)
      | None \<Rightarrow> Inl (ErrorString (''Invalid node type '' @ [CHR 0x60] @ nodetype @ [CHR 0x60] @ '' requested'')))"

text \<open>
  \<^verbatim>\<open>Deploy\<close>: the identity for a head node, the cloud-init secret, the machine class, and the
  machine. The translator never returns an error.
\<close>

definition submit_vm ::
  "'w go_runtime \<Rightarrow> 'w kube_client \<Rightarrow> (RayBootstrapConfig \<Rightarrow> go_error + string) \<Rightarrow>
   VmDeploymentRequest \<Rightarrow> string gomap \<Rightarrow> 'w \<Rightarrow> go_error option \<times> 'w" where
  "submit_vm rt kc yaml_marshal req annotationmap w =
     (case CreateCloudInitSecret rt kc yaml_marshal req w of
        (Inl err, w1) \<Rightarrow> (Some err, w1)
      | (Inr (secret, _), w1) \<Rightarrow>
     (case getVmClass (vdr_NodeType req) (vdr_NodeConfig req) of
        Inl err \<Rightarrow> (Some err, w1)
      | Inr vmclass \<Rightarrow>
     (case rcreate (kc_virtualmachines kc)
          (TranslateToVmCRD (vdr_Namespace req) (vdr_VmName req) (om_Name (sec_meta secret)) annotationmap
             vmclass (vdr_NodeConfig req)) w1 of
        (Inl err, w2) \<Rightarrow> (Some err, w2)
      | (Inr _, w2) \<Rightarrow> (None, w2))))"

definition Deploy ::
  "'w go_runtime \<Rightarrow> 'w kube_client \<Rightarrow> (RayBootstrapConfig \<Rightarrow> go_error + string) \<Rightarrow>
   VmDeploymentRequest \<Rightarrow> 'w \<Rightarrow> go_error option \<times> 'w" where
  "Deploy rt kc yaml_marshal req w =
     (if vdr_HeadNodeStatus req = None
      then (case CreateServiceAccountAndRole kc (vdr_Namespace req) (vdr_ClusterName req) w of
              (Some err, w1) \<Rightarrow> (Some err, w1)
            | (None, w1) \<Rightarrow>
                submit_vm rt kc yaml_marshal req [(HeadVMServiceAnnotation, vdr_VmName req)] w1)
      else submit_vm rt kc yaml_marshal req [] w)"

definition DeleteAuxiliaryResources ::
  "'w kube_client \<Rightarrow> string \<Rightarrow> string \<Rightarrow> 'w \<Rightarrow> go_error option \<times> 'w" where
  "DeleteAuxiliaryResources kc ns clusterName =
     and_then (DeleteAllCloudInitSecret kc ns clusterName) (DeleteServiceAccountAndRole kc ns clusterName)"

definition deleteVMService :: "'w kube_client \<Rightarrow> string \<Rightarrow> string \<Rightarrow> 'w \<Rightarrow> go_error option \<times> 'w" where
  "deleteVMService kc ns name w =
     (case rget (kc_vmservices kc) ns name w of
        (Inl err, w1) \<Rightarrow> (IgnoreNotFound err, w1)
      | (Inr vmservice, w1) \<Rightarrow> rdelete (kc_vmservices kc) vmservice w1)"

definition Delete :: "'w kube_client \<Rightarrow> string \<Rightarrow> string \<Rightarrow> 'w \<Rightarrow> go_error option \<times> 'w" where
  "Delete kc ns name w =
     (case deleteVMService kc ns name w of (err, w1) \<Rightarrow>
        if (case err of None \<Rightarrow> False | Some e \<Rightarrow> IgnoreNotFound e \<noteq> None) then (err, w1)
        else (case rget (kc_virtualmachines kc) ns name w1 of
                (Inl err, w2) \<Rightarrow> (IgnoreNotFound err, w2)
              | (Inr vm, w2) \<Rightarrow> rdelete (kc_virtualmachines kc) vm w2))"

definition FetchVmStatus ::
  "'w kube_client \<Rightarrow> string \<Rightarrow> string \<Rightarrow> 'w \<Rightarrow> (VMRayNodeStatus option \<times> go_error option) \<times> 'w" where
  "FetchVmStatus kc ns name w =
     (case rget (kc_virtualmachines kc) ns name w of
        (Inl err, w1) \<Rightarrow> ((None, Some err), w1)
      | (Inr vm, w1) \<Rightarrow> ((Some (ExtractVmStatus vm), None), w1))"

section \<open>The head's service\<close>

definition vm_service_port :: "string \<times> int32 \<Rightarrow> VirtualMachineServicePort" where
  "vm_service_port np = (case np of (n, p) \<Rightarrow>
     \<lparr>sp_Name = n, sp_Protocol = Protocol_TCP, sp_Port = p, sp_TargetPort = p\<rparr>)"

definition createVMService ::
  "'w go_runtime \<Rightarrow> 'w kube_client \<Rightarrow> string \<Rightarrow> string \<Rightarrow> int32 gomap \<Rightarrow> string gomap \<Rightarrow> 'w \<Rightarrow>
   go_error option \<times> 'w" where
  "createVMService rt kc ns name ports selector w =
     (case rt_range rt w of (cs, w1) \<Rightarrow>
      let vmservice = \<lparr>vs_meta = new_meta ns name, vs_Selector = selector,
            vs_Ports = map vm_service_port (go_range cs ports), vs_Type = ''LoadBalancer'', vs_Ingress = []\<rparr>
      in (case rcreate (kc_vmservices kc) vmservice w1 of
            (Inl err, w2) \<Rightarrow> (Some err, w2)
          | (Inr _, w2) \<Rightarrow> (None, w2)))"

definition service_ports :: "VmDeploymentRequest \<Rightarrow> int32 gomap" where
  "service_ports req =
     (let port = (case hn_Port (vdr_HeadNodeConfig req) of None \<Rightarrow> RayHeadDefaultPort | Some p \<Rightarrow> int32_of_uint p);
          ports = gomap_set [] RayHeadDefaultPortName port;
          ports = gomap_set ports RayDashboardPortName RayDashboardPort;
          ports = gomap_set ports RayClientPortName RayClientPort
      in gomap_set ports SshPortName SshPort)"

definition DeployVmService ::
  "'w go_runtime \<Rightarrow> 'w kube_client \<Rightarrow> VmDeploymentRequest \<Rightarrow> 'w \<Rightarrow> (string \<times> go_error option) \<times> 'w" where
  "DeployVmService rt kc req w =
     (let headvmname = GetHeadNodeName (vdr_ClusterName req) (vdr_Nounce req) in
      (case rget (kc_vmservices kc) (vdr_Namespace req) headvmname w of
         (Inl err, w1) \<Rightarrow>
           (if IgnoreNotFound err = None
            then (case createVMService rt kc (vdr_Namespace req) headvmname (service_ports req)
                       [(HeadVMServiceAnnotation, headvmname)] w1 of
                    (Some err', w2) \<Rightarrow> (('''', Some err'), w2)
                  | (None, w2) \<Rightarrow> (('''', None), w2))
            else (('''', None), w1))
       | (Inr vmservice, w1) \<Rightarrow>
           (case vs_Ingress vmservice of
              ip # _ \<Rightarrow> ((ip, None), w1)
            | [] \<Rightarrow> (('''', Some (ErrorString ''Head node VM service IP is not assigned'')), w1))))"

definition NewVmOperatorProvider ::
  "'w go_runtime \<Rightarrow> 'w kube_client \<Rightarrow> (RayBootstrapConfig \<Rightarrow> go_error + string) \<Rightarrow> 'w VmProvider" where
  "NewVmOperatorProvider rt kc yaml_marshal =
     \<lparr>pv_Deploy = Deploy rt kc yaml_marshal, pv_DeployVmService = DeployVmService rt kc,
      pv_Delete = Delete kc, pv_FetchVmStatus = FetchVmStatus kc,
      pv_DeleteAuxiliaryResources = DeleteAuxiliaryResources kc\<rparr>"

section \<open>What each operation leaves\<close>

text \<open>The machines that exist and are not being deleted.\<close>

definition live_vms :: "api_store \<Rightarrow> object_key set" where
  "live_vms s = {k. \<not> gone vm_meta (sto_virtualmachines s) k}"

lemma live_vms_cong: "sto_virtualmachines s = sto_virtualmachines s' \<Longrightarrow> live_vms s = live_vms s'"
  by (simp add: live_vms_def)

lemma live_vms_upd:
  assumes "sto_virtualmachines s' = (sto_virtualmachines s)(k := z)"
  shows "live_vms s' = (if terminated vm_meta z then live_vms s - {k} else insert k (live_vms s))"
  unfolding live_vms_def gone_terminated assms by (auto split: if_splits)

lemma TranslateToVmCRD_meta [simp]:
  "meta_key (vm_meta (TranslateToVmCRD ns n sec labels cls nc)) = (ns, n)"
  "om_DeletionTimestamp (vm_meta (TranslateToVmCRD ns n sec labels cls nc)) = None"
  by (simp_all add: TranslateToVmCRD_def meta_key_def)

lemma secrets_upd_vms: "secrets_upd K s s' \<Longrightarrow> sto_virtualmachines s' = sto_virtualmachines s"
  by (auto simp: secrets_upd_def)

lemma same_but_identity_vms: "same_but_identity k s s' \<Longrightarrow> sto_virtualmachines s' = sto_virtualmachines s"
  by (auto simp: same_but_identity_def)

lemma deleteVMService_eq: "deleteVMService kc ns n w = delete_if_exists (kc_vmservices kc) ns n w"
  by (simp add: deleteVMService_def delete_if_exists_def)

context operator_env
begin

text \<open>The one machine a deployment can create, over the frame of the other objects.\<close>

lemma submit_vm_post:
  assumes "submit_vm rt kc yaml req labels w = (r, w')"
  shows "\<exists>z. sto_virtualmachines (store w') = (sto_virtualmachines (store w))(vdr_key req := z) \<and>
    (r = None \<longrightarrow> (\<exists>cls sec existed w1. getVmClass (vdr_NodeType req) (vdr_NodeConfig req) = Inr cls \<and>
       CreateCloudInitSecret rt kc yaml req w = (Inr (sec, existed), w1) \<and>
       z = Some (vm_admit (TranslateToVmCRD (vdr_Namespace req) (vdr_VmName req) (om_Name (sec_meta sec))
         labels cls (vdr_NodeConfig req))) \<and>
       store w' = (store w1)\<lparr>sto_virtualmachines := (sto_virtualmachines (store w1))(vdr_key req := z)\<rparr>))"
proof -
  obtain r1 w1 where 1: "CreateCloudInitSecret rt kc yaml req w = (r1, w1)" by fastforce
  note sec = CreateCloudInitSecret_post [OF 1]
  then have vms: "sto_virtualmachines (store w1) = sto_virtualmachines (store w)" by (auto dest: secrets_upd_vms)
  show ?thesis
  proof (cases "\<exists>s b c. r1 = Inr (s, b) \<and> getVmClass (vdr_NodeType req) (vdr_NodeConfig req) = Inr c")
    case False
    with assms 1 have "w' = w1 \<and> r \<noteq> None" by (auto simp: submit_vm_def split: sum.splits)
    with vms show ?thesis by (intro exI [of _ "sto_virtualmachines (store w) (vdr_key req)"]) auto
  next
    case True
    then obtain s b c where ok: "r1 = Inr (s, b)" "getVmClass (vdr_NodeType req) (vdr_NodeConfig req) = Inr c" by blast
    let ?vm = "TranslateToVmCRD (vdr_Namespace req) (vdr_VmName req) (om_Name (sec_meta s)) labels c (vdr_NodeConfig req)"
    obtain r2 w2 where 2: "rcreate (kc_virtualmachines kc) ?vm w1 = (r2, w2)" by fastforce
    with assms 1 ok have w': "w' = w2" and r: "r = (case r2 of Inl e \<Rightarrow> Some e | Inr _ \<Rightarrow> None)"
      by (auto simp: submit_vm_def split: sum.splits)
    show ?thesis
    proof (cases r2)
      case (Inl e)
      with virtualmachines.create_error 2 w' vms r show ?thesis by fastforce
    next
      case (Inr y)
      with virtualmachines.create_ok 2 have
        "store w2 = (store w1)\<lparr>sto_virtualmachines := (sto_virtualmachines (store w1))(vdr_key req \<mapsto> vm_admit ?vm)\<rparr>"
        by fastforce
      with vms w' 1 ok show ?thesis by (intro exI [of _ "Some (vm_admit ?vm)"]) simp
    qed
  qed
qed

lemma CreateCloudInitSecret_name:
  assumes "CreateCloudInitSecret rt kc yaml req w = (Inr (s, existed), w')"
  shows "meta_key (sec_meta s) = node_secret_key req"
proof -
  obtain k w1 where 1: "node_ssh_key rt kc req w = (Inr k, w1)"
    using assms by (auto simp: CreateCloudInitSecret_def split: prod.splits sum.splits)
  obtain g w2 where 2: "rget (kc_secrets kc) (vdr_Namespace req) (node_secret_name req) w1 = (g, w2)" by fastforce
  show ?thesis
  proof (cases g)
    case (Inr x)
    with assms 1 2 secrets.get_found show ?thesis by (fastforce simp: CreateCloudInitSecret_def)
  next
    case (Inl e)
    obtain r3 w3 where 3: "new_cloud_init_secret rt kc yaml req k w2 = (r3, w3)" by fastforce
    with assms 1 2 Inl have "r3 = Inr s"
      by (auto simp: CreateCloudInitSecret_def split: if_splits sum.splits)
    with new_cloud_init_secret_post [OF 3] obtain stored where "made_with yaml req k stored" "sec_meta stored = sec_meta s"
      by blast
    then show ?thesis by (auto simp: made_with_def secrets.admit_meta dest!: CreateCloudInitConfigSecret_key)
  qed
qed

lemma Deploy_cases:
  assumes "Deploy rt kc yaml req w = (r, w')"
  obtains (early) e where "vdr_HeadNodeStatus req = None" "r = Some e"
      "same_but_identity (vdr_Namespace req, vdr_ClusterName req) (store w) (store w')"
  | (submit) labels w1 where "submit_vm rt kc yaml req labels w1 = (r, w')"
      "same_but_identity (vdr_Namespace req, vdr_ClusterName req) (store w) (store w1)"
      "labels = (if vdr_HeadNodeStatus req = None then [(HeadVMServiceAnnotation, vdr_VmName req)] else [])"
      "vdr_HeadNodeStatus req = None \<Longrightarrow> has_identity (store w1) (vdr_Namespace req, vdr_ClusterName req)"
proof (cases "vdr_HeadNodeStatus req = None")
  case False
  with assms show ?thesis by (intro submit [of _ w]) (auto simp: Deploy_def same_but_identity_refl)
next
  case True
  obtain r1 w1 where 1: "CreateServiceAccountAndRole kc (vdr_Namespace req) (vdr_ClusterName req) w = (r1, w1)" by fastforce
  note frame = CreateServiceAccountAndRole_frame [OF 1]
  show ?thesis
  proof (cases r1)
    case (Some e)
    with True assms 1 frame show ?thesis by (intro early) (auto simp: Deploy_def)
  next
    case None
    have "has_identity (store w1) (vdr_Namespace req, vdr_ClusterName req)"
      unfolding CreateServiceAccountAndRole_post [OF 1 [unfolded None]] has_identity_def
      by (simp split: option.splits)
    with True assms 1 None frame show ?thesis by (intro submit [of _ w1]) (auto simp: Deploy_def)
  qed
qed

lemma Deploy_vms:
  assumes "Deploy rt kc yaml req w = (r, w')"
  shows "\<exists>z. sto_virtualmachines (store w') = (sto_virtualmachines (store w))(vdr_key req := z) \<and>
    (r = None \<longrightarrow> \<not> terminated vm_meta z)"
  using assms
proof (cases rule: Deploy_cases)
  case (early e)
  then show ?thesis
    by (intro exI [of _ "sto_virtualmachines (store w) (vdr_key req)"])
       (auto dest: same_but_identity_vms)
next
  case (submit labels w1)
  from submit_vm_post [OF submit(1)] same_but_identity_vms [OF submit(2)] show ?thesis
    by (fastforce simp: terminated_def virtualmachines.admit_meta)
qed

lemma createVMService_post:
  assumes "createVMService rt kc ns n ports sel w = (r, w')"
  shows "\<exists>z. store w' = (store w)\<lparr>sto_vmservices := (sto_vmservices (store w))((ns, n) := z)\<rparr> \<and>
    (r = None \<longrightarrow> (\<exists>cs. z = Some (vs_admit \<lparr>vs_meta = new_meta ns n, vs_Selector = sel,
       vs_Ports = map vm_service_port (go_range cs ports), vs_Type = ''LoadBalancer'', vs_Ingress = []\<rparr>)))"
proof -
  obtain cs w1 where 1: "rt_range rt w = (cs, w1)" by fastforce
  note s1 = range_store [OF 1]
  let ?vs = "\<lparr>vs_meta = new_meta ns n, vs_Selector = sel, vs_Ports = map vm_service_port (go_range cs ports),
     vs_Type = ''LoadBalancer'', vs_Ingress = []\<rparr>"
  obtain c w2 where 2: "rcreate (kc_vmservices kc) ?vs w1 = (c, w2)" by fastforce
  with assms 1 have w': "w' = w2" and r: "r = (case c of Inl e \<Rightarrow> Some e | Inr _ \<Rightarrow> None)"
    by (auto simp: createVMService_def split: sum.splits)
  show ?thesis
  proof (cases c)
    case (Inl e)
    with vmservices.create_error [OF 2 [unfolded Inl]] s1 w' r show ?thesis by auto
  next
    case (Inr y)
    with vmservices.create_ok [OF 2 [unfolded Inr]] s1 w' r show ?thesis by auto
  qed
qed

lemma DeployVmService_frame:
  assumes "DeployVmService rt kc req w = (r, w')"
  shows "\<exists>z. store w' = (store w)\<lparr>sto_vmservices := (sto_vmservices (store w))
    ((vdr_Namespace req, GetHeadNodeName (vdr_ClusterName req) (vdr_Nounce req)) := z)\<rparr>"
proof -
  let ?n = "GetHeadNodeName (vdr_ClusterName req) (vdr_Nounce req)"
  have same: ?thesis if "store w' = store w"
    using that by (intro exI [of _ "sto_vmservices (store w) (vdr_Namespace req, ?n)"]) simp
  obtain g w1 where 1: "rget (kc_vmservices kc) (vdr_Namespace req) ?n w = (g, w1)" by fastforce
  show ?thesis
  proof (cases g)
    case (Inr s)
    with assms 1 have "w' = w1" by (auto simp: DeployVmService_def Let_def split: list.splits)
    with same vmservices.get_found [OF 1 [unfolded Inr]] show ?thesis by blast
  next
    case (Inl e)
    then have s1: "store w1 = store w" using vmservices.get_error 1 by blast
    obtain c w2 where 2: "createVMService rt kc (vdr_Namespace req) ?n (service_ports req)
        [(HeadVMServiceAnnotation, ?n)] w1 = (c, w2)" by fastforce
    from assms 1 2 Inl have "w' = w1 \<or> w' = w2" by (auto simp: DeployVmService_def Let_def split: if_splits option.splits)
    with same s1 createVMService_post [OF 2] show ?thesis by auto
  qed
qed

lemma Delete_post:
  assumes "Delete kc ns n w = (r, w')"
  shows "\<exists>x z. store w' = (store w)\<lparr>sto_vmservices := (sto_vmservices (store w))((ns, n) := x),
      sto_virtualmachines := (sto_virtualmachines (store w))((ns, n) := z)\<rparr> \<and>
    (r = None \<longrightarrow> terminated vs_meta x \<and> terminated vm_meta z) \<and>
    (terminated vm_meta z \<or> z = sto_virtualmachines (store w) (ns, n))"
proof -
  obtain e w1 where 1: "deleteVMService kc ns n w = (e, w1)" by fastforce
  from vmservices.delete_if_exists_post [OF 1 [unfolded deleteVMService_eq]] obtain x where
    x: "store w1 = (store w)\<lparr>sto_vmservices := (sto_vmservices (store w))((ns, n) := x)\<rparr>"
    "e = None \<longrightarrow> terminated vs_meta x" by blast
  show ?thesis
  proof (cases e)
    case (Some e')
    then have "\<not> IsNotFound e'" using vmservices.delete_if_exists_error 1 [unfolded deleteVMService_eq] by blast
    with Some 1 assms have "r = Some e'" "w' = w1" by (simp_all add: Delete_def)
    with x show ?thesis by (intro exI [of _ x] exI [of _ "sto_virtualmachines (store w) (ns, n)"]) simp
  next
    case None
    with 1 assms have "delete_if_exists (kc_virtualmachines kc) ns n w1 = (r, w')"
      by (simp add: Delete_def delete_if_exists_def)
    from virtualmachines.delete_if_exists_post [OF this] obtain z where
      "store w' = (store w1)\<lparr>sto_virtualmachines := (sto_virtualmachines (store w1))((ns, n) := z)\<rparr>"
      "r = None \<longrightarrow> terminated vm_meta z"
      "terminated vm_meta z \<or> z = sto_virtualmachines (store w1) (ns, n)" by blast
    with x None show ?thesis by (intro exI [of _ x] exI [of _ z]) simp
  qed
qed

lemma DeleteAuxiliaryResources_vms:
  assumes "DeleteAuxiliaryResources kc ns c w = (r, w')"
  shows "sto_virtualmachines (store w') = sto_virtualmachines (store w)"
  using assms unfolding DeleteAuxiliaryResources_def
proof (cases rule: and_then_cases)
  case (1 e)
  from DeleteAllCloudInitSecret_frame [OF this(1)] show ?thesis by auto
next
  case (2 w1)
  from DeleteAllCloudInitSecret_frame [OF this(1)] DeleteServiceAccountAndRole_post [OF this(2)] show ?thesis by auto
qed

lemma get_service_found:
  "rget (kc_vmservices kc) ns n w = (Inr s, w') \<Longrightarrow> sto_vmservices (store w) (ns, n) = Some s"
  using vmservices.get_found by blast

lemma vm_admit_meta: "vm_meta (vm_admit vm) = vm_meta vm"
  by (rule virtualmachines.admit_meta)

lemma FetchVmStatus_store:
  assumes "FetchVmStatus kc ns n w = (r, w')"
  shows "store w' = store w"
  using assms by (auto simp: FetchVmStatus_def split: prod.splits sum.splits
      dest!: virtualmachines.get_found virtualmachines.get_error)

lemma FetchVmStatus_not_found:
  assumes "FetchVmStatus kc ns n w = ((st, Some e), w')" and "IsNotFound e"
  shows "sto_virtualmachines (store w) (ns, n) = None"
  using assms by (auto simp: FetchVmStatus_def split: prod.splits sum.splits dest!: virtualmachines.get_error)

lemma Deploy_installed:
  assumes "Deploy rt kc yaml req w = (None, w')"
  shows "\<exists>cls. getVmClass (vdr_NodeType req) (vdr_NodeConfig req) = Inr cls \<and>
    sto_virtualmachines (store w') (vdr_key req) = Some (vm_admit
      (TranslateToVmCRD (vdr_Namespace req) (vdr_VmName req) (node_secret_name req)
        (if vdr_HeadNodeStatus req = None then [(HeadVMServiceAnnotation, vdr_VmName req)] else [])
        cls (vdr_NodeConfig req))) \<and>
    sto_secrets (store w') (node_secret_key req) \<noteq> None \<and>
    (vdr_HeadNodeStatus req = None \<longrightarrow> has_identity (store w') (vdr_Namespace req, vdr_ClusterName req))"
  using assms
proof (cases rule: Deploy_cases)
  case (submit labels w1)
  from submit_vm_post [OF submit(1)] obtain cls sec existed w2 where
    cls: "getVmClass (vdr_NodeType req) (vdr_NodeConfig req) = Inr cls" and
    sec: "CreateCloudInitSecret rt kc yaml req w1 = (Inr (sec, existed), w2)" and
    w': "store w' = (store w2)\<lparr>sto_virtualmachines := (sto_virtualmachines (store w2))(vdr_key req \<mapsto>
      vm_admit (TranslateToVmCRD (vdr_Namespace req) (vdr_VmName req) (om_Name (sec_meta sec)) labels cls
        (vdr_NodeConfig req)))\<rparr>" by auto
  note post = CreateCloudInitSecret_post [OF sec]
  have "om_Name (sec_meta sec) = node_secret_name req"
    using CreateCloudInitSecret_name [OF sec] by (simp add: meta_key_def)
  moreover have "has_identity (store w') k = has_identity (store w1) k" for k
    using post by (auto simp: w' has_identity_def secrets_upd_def)
  ultimately show ?thesis using cls w' post submit(3,4) by auto
qed simp

text \<open>No call of the provider touches the cluster resources.\<close>

lemma submit_vm_clusters:
  assumes "submit_vm rt kc yaml req labels w = (r, w')"
  shows "sto_clusters (store w') = sto_clusters (store w)"
proof -
  obtain r1 w1 where 1: "CreateCloudInitSecret rt kc yaml req w = (r1, w1)" by fastforce
  then have "sto_clusters (store w1) = sto_clusters (store w)"
    using CreateCloudInitSecret_post by (fastforce simp: secrets_upd_def)
  moreover have "sto_clusters (store w') = sto_clusters (store w1)"
    using assms 1 by (auto simp: submit_vm_def split: sum.splits prod.splits
        dest!: virtualmachines.create_ok virtualmachines.create_error)
  ultimately show ?thesis by simp
qed

lemma Deploy_clusters:
  assumes "Deploy rt kc yaml req w = (r, w')"
  shows "sto_clusters (store w') = sto_clusters (store w)"
  using assms
  by (cases rule: Deploy_cases) (auto simp: same_but_identity_def dest: submit_vm_clusters)

lemma DeleteAuxiliaryResources_clusters:
  assumes "DeleteAuxiliaryResources kc ns c w = (r, w')"
  shows "sto_clusters (store w') = sto_clusters (store w)"
  using assms unfolding DeleteAuxiliaryResources_def
proof (cases rule: and_then_cases)
  case (1 e)
  from DeleteAllCloudInitSecret_frame [OF this(1)] show ?thesis by auto
next
  case (2 w1)
  from DeleteAllCloudInitSecret_frame [OF this(1)] DeleteServiceAccountAndRole_post [OF this(2)] show ?thesis by auto
qed

end

section \<open>The contract\<close>

locale vmop_env = operator_env kc store vm_admit vs_admit rt
  for kc :: "'w kube_client"
    and store :: "'w \<Rightarrow> api_store"
    and vm_admit :: "VirtualMachine \<Rightarrow> VirtualMachine"
    and vs_admit :: "VirtualMachineService \<Rightarrow> VirtualMachineService"
    and rt :: "'w go_runtime" +
  fixes yaml :: "RayBootstrapConfig \<Rightarrow> go_error + string"

lemmas provider_sel = NewVmOperatorProvider_def VmProvider.select_convs

lemma vmop_vm_provider:
  assumes "operator_env kc store vm_admit vs_admit rt"
  shows "vm_provider (NewVmOperatorProvider rt kc yaml) (\<lambda>w. live_vms (store w))"
proof (unfold_locales, unfold provider_sel, goal_cases)
  case (1 req w w')
  from operator_env.Deploy_vms [OF assms 1] obtain z where
    "sto_virtualmachines (store w') = (sto_virtualmachines (store w))(vdr_key req := z)" "\<not> terminated vm_meta z" by auto
  then show ?case by (simp add: live_vms_upd)
next
  case (2 req w e w')
  from operator_env.Deploy_vms [OF assms 2] obtain z where
    "sto_virtualmachines (store w') = (sto_virtualmachines (store w))(vdr_key req := z)" by auto
  from live_vms_upd [OF this] show ?case by auto
next
  case (3 req w r w')
  from operator_env.DeployVmService_frame [OF assms 3] show ?case by (auto simp: live_vms_def)
next
  case (4 ns n w w')
  from operator_env.Delete_post [OF assms 4] obtain x z where
    "store w' = (store w)\<lparr>sto_vmservices := x, sto_virtualmachines := (sto_virtualmachines (store w))((ns, n) := z)\<rparr>"
    "terminated vm_meta z" by blast
  then show ?case by (simp add: live_vms_upd)
next
  case (5 ns n w e w')
  from operator_env.Delete_post [OF assms 5] obtain x z where
    "store w' = (store w)\<lparr>sto_vmservices := x, sto_virtualmachines := (sto_virtualmachines (store w))((ns, n) := z)\<rparr>"
    and "terminated vm_meta z \<or> z = sto_virtualmachines (store w) (ns, n)" by blast
  then show ?case by (elim disjE) (simp add: live_vms_upd, simp add: live_vms_def)
next
  case (6 ns n w r w')
  then have "store w' = store w"
    using operator_env.FetchVmStatus_store [OF assms] by blast
  then show ?case by simp
next
  case (7 ns n w st w')
  then show ?case by (auto simp: FetchVmStatus_def split: prod.splits sum.splits)
next
  case (8 ns n w st e w')
  then show ?case using operator_env.FetchVmStatus_not_found [OF assms]
    by (auto simp: live_vms_def gone_def)
next
  case (9 ns c w r w')
  from operator_env.DeleteAuxiliaryResources_vms [OF assms 9] show ?case by (rule live_vms_cong)
qed

sublocale vmop_env \<subseteq> vmop: vm_provider "NewVmOperatorProvider rt kc yaml" "\<lambda>w. live_vms (store w)"
  by (rule vmop_vm_provider [OF operator_env_axioms])

definition mem_yaml :: "RayBootstrapConfig \<Rightarrow> go_error + string" where
  "mem_yaml c = Inr (''cluster_name: '' @ rbc_ClusterName c)"

lemma mem_yaml_total: "\<exists>y. mem_yaml c = Inr y"
  by (simp add: mem_yaml_def)

interpretation memvmop: vmop_env mem_client mem_store id id mem_runtime mem_yaml
  by (intro vmop_env.intro mem_operator_env)

text \<open>
  C10: the provider built on the VM operator keeps the contract the controller relies on:
  over any API server that keeps its own, a successful deployment adds its machine and a
  successful deletion removes it, failed calls touch no machine of another name, and
  fetching a status changes nothing, returns a status when there is no error, and reports
  "not found" only for a machine that is not there.
\<close>

theorem VmOperatorProvider_contract:
  assumes "operator_env kc store vm_admit vs_admit rt"
  shows "vm_provider (NewVmOperatorProvider rt kc yaml) (\<lambda>w. live_vms (store w))"
  using assms by (rule vmop_vm_provider)

theorem VmOperatorProvider_contract_witness:
  "vm_provider (NewVmOperatorProvider mem_runtime mem_client mem_yaml) (\<lambda>w. live_vms (mem_store w))"
  by (rule VmOperatorProvider_contract [OF mem_operator_env])

section \<open>Deployment\<close>

text \<open>
  C18: what a successful deployment has put in place: the machine named in the request, of
  the class its node type names, with the image, storage class and network of the cluster,
  powered on, booting from the user data of a secret that exists; for a head node the
  service account, role and binding as well, and the label its service selects.
\<close>

theorem Deploy_result:
  assumes "operator_env kc store vm_admit vs_admit rt" and "Deploy rt kc yaml req w = (None, w')"
  shows "\<exists>nt. map_of (nc_NodeTypes (vdr_NodeConfig req)) (vdr_NodeType req) = Some nt \<and>
    sto_virtualmachines (store w') (vdr_Namespace req, vdr_VmName req) = Some (vm_admit
      \<lparr>vm_meta = (new_meta (vdr_Namespace req) (vdr_VmName req))\<lparr>om_Labels := Some
         (if vdr_HeadNodeStatus req = None then [(HeadVMServiceAnnotation, vdr_VmName req)] else [])\<rparr>,
       vm_ImageName = nc_VMImage (vdr_NodeConfig req), vm_ClassName = nt_VMClass nt,
       vm_PowerState = ''PoweredOn'', vm_StorageClass = nc_StorageClass (vdr_NodeConfig req),
       vm_Network = nc_Network (vdr_NodeConfig req),
       vm_RawCloudConfig = \<lparr>sks_Name = node_secret_name req, sks_Key = ''user-data''\<rparr>,
       vm_StatusNetwork = None, vm_StatusConditions = []\<rparr>) \<and>
    sto_secrets (store w') (vdr_Namespace req, node_secret_name req) \<noteq> None \<and>
    (vdr_HeadNodeStatus req = None \<longrightarrow> has_identity (store w') (vdr_Namespace req, vdr_ClusterName req))"
  using operator_env.Deploy_installed [OF assms]
  by (auto simp: TranslateToVmCRD_def CloudInitConfigUserDataKey_def getVmClass_def split: option.splits)

text \<open>What a head deployment needs, and that it is enough when nothing fails.\<close>

definition head_deployable :: "api_store \<Rightarrow> VmDeploymentRequest \<Rightarrow> bool" where
  "head_deployable s req \<longleftrightarrow> vdr_HeadNodeStatus req = None \<and>
     dr_AuthSecretName (vdr_DockerConfig req) = '''' \<and>
     vdr_NodeType req \<in> gomap_keys (nc_NodeTypes (vdr_NodeConfig req)) \<and>
     (\<exists>r crt key. sto_secrets s (vdr_Namespace req, vdr_ClusterName req @ RootCaSecretSuffix) = Some r \<and>
        map_of (sec_Data r) rootCaCertKey = Some crt \<and> map_of (sec_Data r) rootCaKeyKey = Some key) \<and>
     (sto_secrets s (vdr_Namespace req, GetSshKeysSecretName (vdr_ClusterName req)) = None \<or>
       (\<exists>k. has_ssh_key s (vdr_Namespace req) (vdr_ClusterName req) k)) \<and>
     sto_virtualmachines s (vdr_key req) = None"

lemma getVmClass_present:
  "nodetype \<in> gomap_keys (nc_NodeTypes nc) \<Longrightarrow> \<exists>cls. getVmClass nodetype nc = Inr cls"
  by (auto simp: getVmClass_def split: option.splits dest: weak_map_of_SomeI)

context reliable_env
begin

lemma submit_vm_succeeds:
  assumes "CreateCloudInitSecret rt kc yaml req w = (Inr (sec, existed), w1)"
    and "vdr_NodeType req \<in> gomap_keys (nc_NodeTypes (vdr_NodeConfig req))"
    and "sto_virtualmachines (store w) (vdr_key req) = None"
  shows "\<exists>w'. submit_vm rt kc yaml req labels w = (None, w')"
proof -
  from getVmClass_present [OF assms(2)] obtain cls where
    cls: "getVmClass (vdr_NodeType req) (vdr_NodeConfig req) = Inr cls" by blast
  let ?vm = "TranslateToVmCRD (vdr_Namespace req) (vdr_VmName req) (om_Name (sec_meta sec)) labels cls (vdr_NodeConfig req)"
  have "sto_virtualmachines (store w1) (meta_key (vm_meta ?vm)) = None"
    using assms(3) CreateCloudInitSecret_post [OF assms(1)] by (auto simp: secrets_upd_vms)
  from rvirtualmachines.create_absent [OF this] assms(1) cls show ?thesis
    by (auto simp: submit_vm_def)
qed

lemma Deploy_succeeds:
  assumes "head_deployable (store w) req" and "\<And>c. \<exists>y. yaml c = Inr y"
  shows "\<exists>w'. Deploy rt kc yaml req w = (None, w')"
proof -
  obtain w1 where 1: "CreateServiceAccountAndRole kc (vdr_Namespace req) (vdr_ClusterName req) w = (None, w1)"
    using CreateServiceAccountAndRole_succeeds by blast
  note post = CreateServiceAccountAndRole_post [OF 1]
  have "boot_ready (store w1) (vdr_Namespace req) (vdr_ClusterName req)"
    using assms(1) unfolding post by (auto simp: head_deployable_def boot_ready_def split: option.splits)
  moreover have "sto_secrets (store w1) = sto_secrets (store w)" "sto_virtualmachines (store w1) = sto_virtualmachines (store w)"
    unfolding post by simp_all
  ultimately obtain sec ex w2 where "CreateCloudInitSecret rt kc yaml req w1 = (Inr (sec, ex), w2)"
    using CreateCloudInitSecret_succeeds [of yaml w1 req, OF assms(2)] assms(1)
    by (fastforce simp: head_deployable_def has_ssh_key_def)
  from submit_vm_succeeds [OF this] assms(1) \<open>sto_virtualmachines (store w1) = sto_virtualmachines (store w)\<close>
  show ?thesis using 1 by (auto simp: Deploy_def head_deployable_def)
qed

lemma get_vm_present:
  assumes "sto_virtualmachines (store w) (ns, n) = Some vm"
  shows "\<exists>w'. rget (kc_virtualmachines kc) ns n w = (Inr vm, w')"
  by (rule rvirtualmachines.get_present [OF assms])

lemma DeleteAuxiliaryResources_succeeds: "\<exists>w'. DeleteAuxiliaryResources kc ns c w = (None, w')"
  unfolding DeleteAuxiliaryResources_def
  by (intro and_then_succeeds DeleteAllCloudInitSecret_succeeds DeleteServiceAccountAndRole_succeeds)

lemma Delete_succeeds: "\<exists>w'. Delete kc ns n w = (None, w')"
proof -
  obtain w1 where 1: "deleteVMService kc ns n w = (None, w1)"
    using rvmservices.delete_if_exists_succeeds unfolding deleteVMService_eq by blast
  obtain w2 where "delete_if_exists (kc_virtualmachines kc) ns n w1 = (None, w2)"
    using rvirtualmachines.delete_if_exists_succeeds by blast
  with 1 show ?thesis by (simp add: Delete_def delete_if_exists_def)
qed

end

lemma ready_world_deployable: "head_deployable (mem_store ready_world) sample_request"
  using ready_world_boot ready_world_secrets(1)
  by (auto simp: head_deployable_def boot_ready_def sample_request_def)
     (simp_all add: ready_world_def empty_world_def empty_store_def mem_store_def Let_def keyed_def)

lemma ready_world_Deploy: "\<exists>w'. Deploy mem_runtime mem_client mem_yaml sample_request ready_world = (None, w')"
  by (intro mem.Deploy_succeeds ready_world_deployable mem_yaml_total)

theorem Deploy_result_witness:
  "\<exists>w' vm. Deploy mem_runtime mem_client mem_yaml sample_request ready_world = (None, w') \<and>
     sto_virtualmachines (mem_store w') (''ns'', ''ray-h-ab1cd'') = Some vm \<and> vm_ClassName vm = ''large'' \<and>
     has_identity (mem_store w') (''ns'', ''ray'')"
proof -
  obtain w' where d: "Deploy mem_runtime mem_client mem_yaml sample_request ready_world = (None, w')"
    using ready_world_Deploy by blast
  from Deploy_result [OF mem_operator_env d] d show ?thesis by (simp add: sample_request_def)
qed

text \<open>
  Without faults, the head machine of a cluster whose root certificate is in place, whose
  node type exists and which needs no registry login is deployed by one call, and its
  status can be fetched right after, not yet with an address if the VM operator adds none.
\<close>

theorem head_deploys:
  assumes "reliable_env kc store vm_admit vs_admit rt" and "head_deployable (store w) req"
    and "\<And>c. \<exists>y. yaml c = Inr y" and "\<And>vm. vm_StatusNetwork (vm_admit vm) = vm_StatusNetwork vm"
  shows "\<exists>w1 st w2. Deploy rt kc yaml req w = (None, w1) \<and>
    FetchVmStatus kc (vdr_Namespace req) (vdr_VmName req) w1 = ((Some st, None), w2) \<and> ns_Ip st = ''''"
proof -
  note op = reliable_env.axioms(1) [OF assms(1)]
  obtain w1 where d: "Deploy rt kc yaml req w = (None, w1)"
    using reliable_env.Deploy_succeeds [OF assms(1,2), of yaml] assms(3) by blast
  from operator_env.Deploy_installed [OF op d] obtain vm where
    "sto_virtualmachines (store w1) (vdr_key req) = Some (vm_admit vm)" "vm_StatusNetwork vm = None"
    by (auto simp: TranslateToVmCRD_def)
  with reliable_env.get_vm_present [OF assms(1)] obtain w2 where
    "rget (kc_virtualmachines kc) (vdr_Namespace req) (vdr_VmName req) w1 = (Inr (vm_admit vm), w2)" by blast
  with d \<open>vm_StatusNetwork vm = None\<close> assms(4) show ?thesis
    by (simp add: FetchVmStatus_def ExtractVmStatus_def)
qed

theorem head_deploys_witness:
  "\<exists>w1 st w2. Deploy mem_runtime mem_client mem_yaml sample_request ready_world = (None, w1) \<and>
    FetchVmStatus mem_client (vdr_Namespace sample_request) (vdr_VmName sample_request) w1 = ((Some st, None), w2) \<and>
    ns_Ip st = ''''"
  by (rule head_deploys [OF mem_reliable_env ready_world_deployable mem_yaml_total]) simp

section \<open>Deletion\<close>

lemma DeleteAuxiliaryResources_frame:
  assumes "operator_env kc store vm_admit vs_admit rt" and "DeleteAuxiliaryResources kc ns c w = (r, w')"
  shows "\<exists>m x y z. store w' = (store w)\<lparr>sto_secrets := m, sto_rolebindings := (sto_rolebindings (store w))((ns, c) := x),
      sto_roles := (sto_roles (store w))((ns, c) := y),
      sto_serviceaccounts := (sto_serviceaccounts (store w))((ns, c) := z)\<rparr> \<and>
    (\<forall>k. k \<notin> {ns} \<times> set (cluster_secret_names c) \<longrightarrow> m k = sto_secrets (store w) k) \<and>
    (r = None \<longrightarrow> (\<forall>n\<in>set (cluster_secret_names c). terminated sec_meta (m (ns, n))) \<and>
       terminated rb_meta x \<and> terminated role_meta y \<and> terminated sa_meta z)"
proof -
  note api = operator_env.axioms(1) [OF assms(1)]
  note secrets = kube_api.delete_secrets_post [OF api]
  have pair: "k \<notin> {ns} \<times> set (cluster_secret_names c) \<longleftrightarrow> k \<notin> Pair ns ` set (cluster_secret_names c)" for k
    by (cases k) auto
  from assms(2) show ?thesis unfolding DeleteAuxiliaryResources_def
  proof (cases rule: and_then_cases)
    case (1 e)
    from secrets [OF this(1) [unfolded DeleteAllCloudInitSecret_list]] obtain m where
      "store w' = (store w)\<lparr>sto_secrets := m\<rparr>"
      "\<forall>k. k \<notin> {ns} \<times> set (cluster_secret_names c) \<longrightarrow> m k = sto_secrets (store w) k" unfolding pair by blast
    with "1"(2) show ?thesis
      by (intro exI [of _ m] exI [of _ "sto_rolebindings (store w) (ns, c)"] exI [of _ "sto_roles (store w) (ns, c)"]
          exI [of _ "sto_serviceaccounts (store w) (ns, c)"]) simp
  next
    case (2 w1)
    from secrets [OF this(1) [unfolded DeleteAllCloudInitSecret_list]] obtain m where m: "store w1 = (store w)\<lparr>sto_secrets := m\<rparr>"
      "\<forall>k. k \<notin> {ns} \<times> set (cluster_secret_names c) \<longrightarrow> m k = sto_secrets (store w) k"
      "\<forall>n\<in>set (cluster_secret_names c). terminated sec_meta (m (ns, n))" unfolding pair by blast
    from kube_api.DeleteServiceAccountAndRole_post [OF api "2"(2)] obtain x y z where
      w': "store w' = (store w1)\<lparr>sto_rolebindings := (sto_rolebindings (store w1))((ns, c) := x),
        sto_roles := (sto_roles (store w1))((ns, c) := y),
        sto_serviceaccounts := (sto_serviceaccounts (store w1))((ns, c) := z)\<rparr>"
      and gone: "r = None \<longrightarrow> terminated rb_meta x \<and> terminated role_meta y \<and> terminated sa_meta z" by blast
    show ?thesis using m gone
      by (intro exI [of _ m] exI [of _ x] exI [of _ y] exI [of _ z]) (simp add: w')
  qed
qed

lemma DeleteAuxiliaryResources_post:
  assumes "operator_env kc store vm_admit vs_admit rt" and "DeleteAuxiliaryResources kc ns c w = (None, w')"
  shows "(\<forall>n\<in>set (cluster_secret_names c). gone sec_meta (sto_secrets (store w')) (ns, n)) \<and>
    identity_gone (store w') (ns, c)"
  using DeleteAuxiliaryResources_frame [OF assms] by (auto simp: identity_gone_def gone_terminated)

text \<open>
  C19: deleting the auxiliary resources of a cluster returns nil when nothing fails; whenever
  it returns nil, the five secrets, the service account, the role and the binding are gone.
  However it ends, it touches nothing else: no secret but these five, in no namespace, no
  service account, role or binding but the three of this name in this namespace, and no
  machine, service, image, class or cluster resource. The secrets of a cluster with another
  name or in another namespace are none of the five.
\<close>

theorem DeleteAuxiliaryResources_result:
  assumes "operator_env kc store vm_admit vs_admit rt" and "DeleteAuxiliaryResources kc ns c w = (r, w')"
  shows "(reliable_env kc store vm_admit vs_admit rt \<longrightarrow> r = None) \<and>
    (r = None \<longrightarrow> (\<forall>n\<in>set (cluster_secret_names c). gone sec_meta (sto_secrets (store w')) (ns, n)) \<and>
       identity_gone (store w') (ns, c)) \<and>
    store w' = (store w)\<lparr>sto_secrets := sto_secrets (store w'), sto_serviceaccounts := sto_serviceaccounts (store w'),
      sto_roles := sto_roles (store w'), sto_rolebindings := sto_rolebindings (store w')\<rparr> \<and>
    (\<forall>k. k \<notin> {ns} \<times> set (cluster_secret_names c) \<longrightarrow> sto_secrets (store w') k = sto_secrets (store w) k) \<and>
    (\<forall>k. k \<noteq> (ns, c) \<longrightarrow> sto_serviceaccounts (store w') k = sto_serviceaccounts (store w) k \<and>
       sto_roles (store w') k = sto_roles (store w) k \<and> sto_rolebindings (store w') k = sto_rolebindings (store w) k) \<and>
    (\<forall>ns' d n. (ns', d) \<noteq> (ns, c) \<longrightarrow> n \<in> set (cluster_secret_names d) \<longrightarrow>
       sto_secrets (store w') (ns', n) = sto_secrets (store w) (ns', n))"
proof -
  from DeleteAuxiliaryResources_frame [OF assms] obtain m x y z where
    w': "store w' = (store w)\<lparr>sto_secrets := m, sto_rolebindings := (sto_rolebindings (store w))((ns, c) := x),
      sto_roles := (sto_roles (store w))((ns, c) := y),
      sto_serviceaccounts := (sto_serviceaccounts (store w))((ns, c) := z)\<rparr>"
    and m: "\<And>k. k \<notin> {ns} \<times> set (cluster_secret_names c) \<Longrightarrow> m k = sto_secrets (store w) k" by blast
  have other: "m (ns', n) = sto_secrets (store w) (ns', n)"
    if "(ns', d) \<noteq> (ns, c)" "n \<in> set (cluster_secret_names d)" for ns' d n
    using that cluster_secret_names_disjoint [of d c n] by (intro m) auto
  have "r = None" if "reliable_env kc store vm_admit vs_admit rt"
    using reliable_env.DeleteAuxiliaryResources_succeeds [OF that, of ns c w] assms(2) by auto
  moreover have "(\<forall>n\<in>set (cluster_secret_names c). gone sec_meta (sto_secrets (store w')) (ns, n)) \<and>
      identity_gone (store w') (ns, c)" if "r = None"
    using DeleteAuxiliaryResources_post [OF assms(1)] assms(2) that by blast
  ultimately show ?thesis using m other by (simp add: w')
qed

theorem DeleteAuxiliaryResources_result_witness:
  "\<exists>w'. DeleteAuxiliaryResources mem_client ''ns'' ''a'' two_clusters = (None, w') \<and>
     (\<forall>n\<in>set (cluster_secret_names ''a''). gone sec_meta (sto_secrets (mem_store w')) (''ns'', n)) \<and>
     sto_secrets (mem_store w') (''ns'', GetSshKeysSecretName ''b'') =
       sto_secrets (mem_store two_clusters) (''ns'', GetSshKeysSecretName ''b'')"
proof -
  obtain r w' where d: "DeleteAuxiliaryResources mem_client ''ns'' ''a'' two_clusters = (r, w')" by fastforce
  note result = DeleteAuxiliaryResources_result [OF mem_operator_env d]
  have "(''ns'', ''b'') \<noteq> (''ns'', ''a'')" "GetSshKeysSecretName ''b'' \<in> set (cluster_secret_names ''b'')"
    by (simp_all add: cluster_secret_names_def)
  with result have "sto_secrets (mem_store w') (''ns'', GetSshKeysSecretName ''b'') =
       sto_secrets (mem_store two_clusters) (''ns'', GetSshKeysSecretName ''b'')" by metis
  with d result mem_reliable_env show ?thesis by metis
qed

section \<open>The head's service\<close>

lemma set_service_ports:
  "set (service_ports (cc_VmDeploymentRequest cc)) = {(''ray-port'', getRayPort cc), (''ray-dashboard-port'', 8265),
      (''ray-client-port'', 10001), (''ssh-port'', 22)}"
  "length (service_ports req) = 4"
  by (auto simp: service_ports_def gomap_set_def getRayPort_def RayHeadDefaultPortName_def RayDashboardPortName_def
      RayClientPortName_def SshPortName_def RayDashboardPort_def RayClientPort_def SshPort_def Let_def)

text \<open>
  C32: the service made for a head that has none is stored under the head's name, selects the
  head's label, and exposes exactly four TCP ports, in whatever order Go ranges over them:
  the Ray port, which is the one the start commands use, the dashboard's, the Ray client's
  and SSH. The call returns no address yet.
\<close>

theorem DeployVmService_creates:
  assumes "operator_env kc store vm_admit vs_admit rt"
    and "rget (kc_vmservices kc) (vdr_Namespace req) (GetHeadNodeName (vdr_ClusterName req) (vdr_Nounce req)) w = (Inl e, w1)"
    and "IsNotFound e" and "DeployVmService rt kc req w = ((ip, None), w')"
    and "cc_VmDeploymentRequest cc = req"
  shows "ip = '''' \<and> (\<exists>ports. sto_vmservices (store w')
      (vdr_Namespace req, GetHeadNodeName (vdr_ClusterName req) (vdr_Nounce req)) = Some (vs_admit
      \<lparr>vs_meta = new_meta (vdr_Namespace req) (GetHeadNodeName (vdr_ClusterName req) (vdr_Nounce req)),
       vs_Selector = [(''vmray.kubernetes.io/ray-cluster-head'', GetHeadNodeName (vdr_ClusterName req) (vdr_Nounce req))],
       vs_Ports = ports, vs_Type = ''LoadBalancer'', vs_Ingress = []\<rparr>) \<and>
     length ports = 4 \<and> set ports = (\<lambda>(n, p). \<lparr>sp_Name = n, sp_Protocol = ''TCP'', sp_Port = p, sp_TargetPort = p\<rparr>) `
       {(''ray-port'', getRayPort cc), (''ray-dashboard-port'', 8265), (''ray-client-port'', 10001), (''ssh-port'', 22)})"
proof -
  let ?n = "GetHeadNodeName (vdr_ClusterName req) (vdr_Nounce req)"
  obtain r w2 where c: "createVMService rt kc (vdr_Namespace req) ?n (service_ports req)
      [(HeadVMServiceAnnotation, ?n)] w1 = (r, w2)" by fastforce
  with assms(2,3,4) have r: "r = None" "w' = w2" and ip: "ip = ''''"
    by (auto simp: DeployVmService_def Let_def split: option.splits)
  from operator_env.createVMService_post [OF assms(1) c] r obtain cs where
    stored: "sto_vmservices (store w') (vdr_Namespace req, ?n) = Some (vs_admit \<lparr>vs_meta = new_meta (vdr_Namespace req) ?n,
       vs_Selector = [(HeadVMServiceAnnotation, ?n)], vs_Ports = map vm_service_port (go_range cs (service_ports req)),
       vs_Type = ''LoadBalancer'', vs_Ingress = []\<rparr>)" by auto
  let ?ports = "map vm_service_port (go_range cs (service_ports req))"
  have "set ?ports = (\<lambda>(n, p). \<lparr>sp_Name = n, sp_Protocol = ''TCP'', sp_Port = p, sp_TargetPort = p\<rparr>) `
       {(''ray-port'', getRayPort cc), (''ray-dashboard-port'', 8265), (''ray-client-port'', 10001), (''ssh-port'', 22)}"
    unfolding assms(5) [symmetric]
    by (simp only: set_map set_go_range set_service_ports image_insert image_empty vm_service_port_def
        Protocol_TCP_def prod.case)
  moreover have "length ?ports = 4" by (simp add: set_service_ports(2))
  ultimately show ?thesis using stored ip unfolding HeadVMServiceAnnotation_def by blast
qed

lemma empty_world_no_service:
  "rget (kc_vmservices mem_client) ns n empty_world = (Inl (not_found n), empty_world)"
  by (simp add: mem_api_def mem_store_def empty_world_def empty_store_def keyed_def Let_def)

theorem DeployVmService_creates_witness:
  "\<exists>w' s. DeployVmService mem_runtime mem_client sample_request empty_world = (('''', None), w') \<and>
     sto_vmservices (mem_store w') (''ns'', GetHeadNodeName ''ray'' ''ab1cd'') = Some s \<and>
     length (vs_Ports s) = 4"
proof -
  let ?n = "GetHeadNodeName (vdr_ClusterName sample_request) (vdr_Nounce sample_request)"
  have "\<exists>w2. createVMService mem_runtime mem_client (vdr_Namespace sample_request) ?n (service_ports sample_request)
      [(HeadVMServiceAnnotation, ?n)] empty_world = (None, w2)"
    by (simp add: createVMService_def mem_runtime_def mem_api_def mem_store_def empty_world_def empty_store_def
        keyed_def Let_def)
  then obtain w' where "createVMService mem_runtime mem_client (vdr_Namespace sample_request) ?n
      (service_ports sample_request) [(HeadVMServiceAnnotation, ?n)] empty_world = (None, w')" by blast
  then have d: "DeployVmService mem_runtime mem_client sample_request empty_world = (('''', None), w')"
    unfolding DeployVmService_def Let_def empty_world_no_service by simp
  have "cc_VmDeploymentRequest sample_config = sample_request" by (simp add: sample_config_def)
  from DeployVmService_creates [OF mem_operator_env empty_world_no_service mem_error_class(1) d this]
  obtain ports where "sto_vmservices (mem_store w') (vdr_Namespace sample_request, ?n) = Some (id
      \<lparr>vs_meta = new_meta (vdr_Namespace sample_request) ?n,
       vs_Selector = [(''vmray.kubernetes.io/ray-cluster-head'', ?n)],
       vs_Ports = ports, vs_Type = ''LoadBalancer'', vs_Ingress = []\<rparr>)" "length ports = 4"
    by blast
  with d show ?thesis by (simp add: sample_request_def)
qed

text \<open>
  C34: an address is returned only if a service of the head's name is stored and has it as its
  first ingress. Any error of the lookup other than "not found" is dropped: the caller gets
  an empty address and no error.
\<close>

theorem DeployVmService_address:
  assumes "operator_env kc store vm_admit vs_admit rt"
  shows "(fst (DeployVmService rt kc req w) = (ip, None) \<and> ip \<noteq> '''' \<longrightarrow>
      (\<exists>s rest. sto_vmservices (store w)
        (vdr_Namespace req, GetHeadNodeName (vdr_ClusterName req) (vdr_Nounce req)) = Some s \<and> vs_Ingress s = ip # rest)) \<and>
    (fst (rget (kc_vmservices kc) (vdr_Namespace req) (GetHeadNodeName (vdr_ClusterName req) (vdr_Nounce req)) w) = Inl e \<and>
      \<not> IsNotFound e \<longrightarrow> fst (DeployVmService rt kc req w) = ('''', None))"
proof -
  let ?n = "GetHeadNodeName (vdr_ClusterName req) (vdr_Nounce req)"
  obtain g w1 where g: "rget (kc_vmservices kc) (vdr_Namespace req) ?n w = (g, w1)" by fastforce
  show ?thesis
  proof (cases g)
    case (Inl e')
    with g show ?thesis by (auto simp: DeployVmService_def Let_def split: prod.splits option.splits)
  next
    case (Inr s)
    then have "sto_vmservices (store w) (vdr_Namespace req, ?n) = Some s"
      using operator_env.get_service_found [OF assms] g by blast
    with Inr g show ?thesis by (auto simp: DeployVmService_def Let_def split: list.splits)
  qed
qed

theorem DeployVmService_address_witness:
  "let s = \<lparr>vs_meta = new_meta ''ns'' ''ray-h-ab1cd'', vs_Selector = [], vs_Ports = [], vs_Type = '''',
        vs_Ingress = [''10.2.2.2'']\<rparr>;
       w = empty_world\<lparr>mw_store := empty_store\<lparr>sto_vmservices := [(''ns'', ''ray-h-ab1cd'') \<mapsto> s]\<rparr>\<rparr> in
   \<exists>s rest. sto_vmservices (mem_store w) (''ns'', GetHeadNodeName ''ray'' ''ab1cd'') = Some s \<and>
     vs_Ingress s = ''10.2.2.2'' # rest"
proof -
  let ?s = "\<lparr>vs_meta = new_meta ''ns'' ''ray-h-ab1cd'', vs_Selector = [], vs_Ports = [], vs_Type = '''',
        vs_Ingress = [''10.2.2.2'']\<rparr>"
  let ?w = "empty_world\<lparr>mw_store := empty_store\<lparr>sto_vmservices := [(''ns'', ''ray-h-ab1cd'') \<mapsto> ?s]\<rparr>\<rparr>"
  have "fst (DeployVmService mem_runtime mem_client sample_request ?w) = (''10.2.2.2'', None)"
    by (simp add: DeployVmService_def sample_request_def GetHeadNodeName_def headsuffix_def mem_api_def mem_store_def
        keyed_def Let_def)
  with DeployVmService_address [OF mem_operator_env, of sample_request ?w "''10.2.2.2''"] show ?thesis
    by (simp add: sample_request_def)
qed

text \<open>Every entry of a selector is a label.\<close>

definition selects :: "string gomap \<Rightarrow> string gomap \<Rightarrow> bool" where
  "selects selector labels \<longleftrightarrow> (\<forall>(k, v) \<in> set selector. map_of labels k = Some v)"

text \<open>
  C33: the selector of a head's service picks the machine deployed for that head and no other
  machine: a worker has no such label, and another cluster's head carries another name.
\<close>

theorem head_service_selects:
  assumes "operator_env kc store vm_admit vs_admit rt" and "Deploy rt kc yaml req w = (None, w')"
  shows "\<exists>vm. sto_virtualmachines (store w') (vdr_Namespace req, vdr_VmName req) = Some vm \<and>
    (selects [(HeadVMServiceAnnotation, GetHeadNodeName c n)] (entries (om_Labels (vm_meta vm))) \<longleftrightarrow>
     vdr_HeadNodeStatus req = None \<and> vdr_VmName req = GetHeadNodeName c n)"
proof -
  from operator_env.Deploy_installed [OF assms] obtain cls where
    "sto_virtualmachines (store w') (vdr_key req) = Some (vm_admit
      (TranslateToVmCRD (vdr_Namespace req) (vdr_VmName req) (node_secret_name req)
        (if vdr_HeadNodeStatus req = None then [(HeadVMServiceAnnotation, vdr_VmName req)] else [])
        cls (vdr_NodeConfig req)))" by blast
  moreover have "vm_meta (vm_admit vm) = vm_meta vm" for vm
    by (rule operator_env.vm_admit_meta [OF assms(1)])
  ultimately show ?thesis by (auto simp: selects_def TranslateToVmCRD_def)
qed

theorem head_service_selects_witness:
  "\<exists>w' vm. Deploy mem_runtime mem_client mem_yaml sample_request ready_world = (None, w') \<and>
     sto_virtualmachines (mem_store w') (''ns'', ''ray-h-ab1cd'') = Some vm \<and>
     selects [(HeadVMServiceAnnotation, GetHeadNodeName ''ray'' ''ab1cd'')] (entries (om_Labels (vm_meta vm)))"
proof -
  obtain w' where d: "Deploy mem_runtime mem_client mem_yaml sample_request ready_world = (None, w')"
    using ready_world_Deploy by blast
  have "vdr_VmName sample_request = GetHeadNodeName ''ray'' ''ab1cd''" "vdr_HeadNodeStatus sample_request = None"
    by (simp_all add: sample_request_def GetHeadNodeName_def headsuffix_def)
  with head_service_selects [OF mem_operator_env d, of "''ray''" "''ab1cd''"] d show ?thesis
    by (auto simp: sample_request_def)
qed

end
