(* ===== verification/Regex.thy ===== *)
theory Regex
  imports VMRay_Prelude
begin

text \<open>
  Regular expressions as the webhook uses them: both of its patterns are anchored at either
  end and built from character classes, sequence, choice, option and star, so
  \<^verbatim>\<open>regexp.MatchString\<close> asks whether the whole text is in their language. Matching is
  executable by derivatives and proved to decide the language.
\<close>

datatype rx = RZero | ROne | RClass "char \<Rightarrow> bool" | RAlt rx rx | RSeq rx rx | RStar rx

fun nullable :: "rx \<Rightarrow> bool" where
  "nullable RZero = False"
| "nullable ROne = True"
| "nullable (RClass p) = False"
| "nullable (RAlt r s) = (nullable r \<or> nullable s)"
| "nullable (RSeq r s) = (nullable r \<and> nullable s)"
| "nullable (RStar r) = True"

fun deriv :: "char \<Rightarrow> rx \<Rightarrow> rx" where
  "deriv c RZero = RZero"
| "deriv c ROne = RZero"
| "deriv c (RClass p) = (if p c then ROne else RZero)"
| "deriv c (RAlt r s) = RAlt (deriv c r) (deriv c s)"
| "deriv c (RSeq r s) =
     (if nullable r then RAlt (RSeq (deriv c r) s) (deriv c s) else RSeq (deriv c r) s)"
| "deriv c (RStar r) = RSeq (deriv c r) (RStar r)"

fun MatchString :: "rx \<Rightarrow> string \<Rightarrow> bool" where
  "MatchString r [] = nullable r"
| "MatchString r (c # s) = MatchString (deriv c r) s"

text \<open>The language of an expression.\<close>

fun lang :: "rx \<Rightarrow> string set" where
  "lang RZero = {}"
| "lang ROne = {[]}"
| "lang (RClass p) = {[c] | c. p c}"
| "lang (RAlt r s) = lang r \<union> lang s"
| "lang (RSeq r s) = {x @ y | x y. x \<in> lang r \<and> y \<in> lang s}"
| "lang (RStar r) = {concat ws | ws. set ws \<subseteq> lang r}"

lemma nullable_lang: "nullable r \<longleftrightarrow> [] \<in> lang r"
proof (induction r)
  case (RStar r)
  then show ?case by (auto intro!: exI [of _ "[]"])
qed auto

lemma star_Cons:
  "c # s \<in> lang (RStar r) \<longleftrightarrow> (\<exists>x y. s = x @ y \<and> c # x \<in> lang r \<and> y \<in> lang (RStar r))"
proof
  assume "c # s \<in> lang (RStar r)"
  then obtain ws where "set ws \<subseteq> lang r" "concat ws = c # s" by auto
  then show "\<exists>x y. s = x @ y \<and> c # x \<in> lang r \<and> y \<in> lang (RStar r)"
  proof (induction ws)
    case (Cons w ws)
    show ?case
    proof (cases w)
      case Nil
      with Cons show ?thesis by auto
    next
      case (Cons d x)
      with Cons.prems have "d = c" "s = x @ concat ws" "c # x \<in> lang r" "set ws \<subseteq> lang r" by auto
      then show ?thesis by auto
    qed
  qed simp
next
  assume "\<exists>x y. s = x @ y \<and> c # x \<in> lang r \<and> y \<in> lang (RStar r)"
  then obtain x ws where "s = x @ concat ws" "c # x \<in> lang r" "set ws \<subseteq> lang r" by auto
  then have "c # s = concat ((c # x) # ws)" "set ((c # x) # ws) \<subseteq> lang r" by auto
  then show "c # s \<in> lang (RStar r)" unfolding lang.simps by blast
qed

lemma in_seq: "s \<in> lang (RSeq r t) \<longleftrightarrow> (\<exists>x y. s = x @ y \<and> x \<in> lang r \<and> y \<in> lang t)"
  by auto

declare lang.simps(5,6) [simp del]

lemma seq_Cons:
  "c # s \<in> lang (RSeq r t) \<longleftrightarrow>
     (\<exists>x y. s = x @ y \<and> c # x \<in> lang r \<and> y \<in> lang t) \<or> [] \<in> lang r \<and> c # s \<in> lang t"
  unfolding in_seq Cons_eq_append_conv by blast

lemma class_seq: "c # s \<in> lang (RSeq (RClass p) r) \<longleftrightarrow> p c \<and> s \<in> lang r"
  by (simp add: seq_Cons)

lemma deriv_lang: "s \<in> lang (deriv c r) \<longleftrightarrow> c # s \<in> lang r"
proof (induction r arbitrary: s)
  case (RSeq r1 r2)
  then show ?case unfolding seq_Cons by (simp add: nullable_lang in_seq)
next
  case (RStar r)
  then show ?case by (simp add: star_Cons in_seq)
qed auto

lemma MatchString_lang: "MatchString r s \<longleftrightarrow> s \<in> lang r"
  by (induction s arbitrary: r) (simp_all add: nullable_lang deriv_lang)

text \<open>Stars of classes and words with guarded ends, the building blocks of both patterns.\<close>

lemma lang_star_class: "s \<in> lang (RStar (RClass p)) \<longleftrightarrow> list_all p s"
proof
  assume "s \<in> lang (RStar (RClass p))"
  then obtain ws where "set ws \<subseteq> lang (RClass p)" "s = concat ws" by (auto simp: lang.simps(6))
  then show "list_all p s" by (induction ws arbitrary: s) auto
next
  assume "list_all p s"
  then have "s = concat (map (\<lambda>c. [c]) s)" "set (map (\<lambda>c. [c]) s) \<subseteq> lang (RClass p)"
    by (auto simp: list_all_iff)
  then show "s \<in> lang (RStar (RClass p))" unfolding lang.simps(6) by blast
qed

text \<open>A word over \<open>inner\<close> that starts with \<open>first\<close> and ends with \<open>last\<close>.\<close>

definition guarded_word :: "(char \<Rightarrow> bool) \<Rightarrow> (char \<Rightarrow> bool) \<Rightarrow> (char \<Rightarrow> bool) \<Rightarrow> string \<Rightarrow> bool" where
  "guarded_word p q r s \<longleftrightarrow> s \<noteq> [] \<and> p (hd s) \<and> list_all q s \<and> r (last s)"

lemma lang_star_then_class:
  "s \<in> lang (RSeq (RStar (RClass q)) (RClass r)) \<longleftrightarrow> s \<noteq> [] \<and> list_all q (butlast s) \<and> r (last s)"
proof
  assume "s \<in> lang (RSeq (RStar (RClass q)) (RClass r))"
  then obtain x c where "s = x @ [c]" "x \<in> lang (RStar (RClass q))" "r c" by (auto simp: in_seq)
  then show "s \<noteq> [] \<and> list_all q (butlast s) \<and> r (last s)" by (simp add: lang_star_class)
next
  assume s: "s \<noteq> [] \<and> list_all q (butlast s) \<and> r (last s)"
  then have "butlast s \<in> lang (RStar (RClass q))" "[last s] \<in> lang (RClass r)" by (simp_all add: lang_star_class)
  moreover from s have "s = butlast s @ [last s]" by simp
  ultimately show "s \<in> lang (RSeq (RStar (RClass q)) (RClass r))" unfolding in_seq by blast
qed

lemma lang_guarded:
  assumes "\<And>c. p c \<Longrightarrow> q c" and "\<And>c. r c \<Longrightarrow> q c"
  shows "c # t \<in> lang (RSeq (RClass p) (RSeq (RStar (RClass q)) (RClass r))) \<longleftrightarrow>
    t \<noteq> [] \<and> guarded_word p q r (c # t)"
proof -
  have "c # t \<in> lang (RSeq (RClass p) (RSeq (RStar (RClass q)) (RClass r))) \<longleftrightarrow>
    p c \<and> t \<in> lang (RSeq (RStar (RClass q)) (RClass r))" by (rule class_seq)
  also have "\<dots> \<longleftrightarrow> p c \<and> t \<noteq> [] \<and> list_all q (butlast t) \<and> r (last t)"
    by (simp only: lang_star_then_class)
  also have "\<dots> \<longleftrightarrow> t \<noteq> [] \<and> guarded_word p q r (c # t)"
  proof (cases "t = []")
    case False
    then have "list_all q t \<longleftrightarrow> list_all q (butlast t @ [last t])" by simp
    then have "list_all q t \<longleftrightarrow> list_all q (butlast t) \<and> q (last t)"
      by (simp del: append_butlast_last_id)
    with False show ?thesis using assms by (auto simp: guarded_word_def)
  qed simp
  finally show ?thesis .
qed

end
