(* ===== verification/Webhook.thy ===== *)
theory Webhook
  imports Regex Vm_Provider
begin

text \<open>
  The admission webhook, \<^verbatim>\<open>api/v1alpha1/vmraycluster_webhook.go\<close>: the five checks of a
  submitted cluster and the error they add up to. Sums of worker counts wrap around at 64
  bits as in Go. The pattern for image references belongs to a package outside the
  repository and is a parameter, a predicate with its printed form. The lemmas characterise
  the accepted clusters without reference to iteration order.
\<close>

section \<open>The patterns\<close>

definition is_lower :: "char \<Rightarrow> bool" where
  "is_lower c \<longleftrightarrow> of_char c \<in> {97::nat..122}"

definition is_upper :: "char \<Rightarrow> bool" where
  "is_upper c \<longleftrightarrow> of_char c \<in> {65::nat..90}"

definition is_digit :: "char \<Rightarrow> bool" where
  "is_digit c \<longleftrightarrow> of_char c \<in> {48::nat..57}"

definition is_hyphen :: "char \<Rightarrow> bool" where
  "is_hyphen c \<longleftrightarrow> c = CHR ''-''"

abbreviation is_lower_alnum :: "char \<Rightarrow> bool" where
  "is_lower_alnum c \<equiv> is_lower c \<or> is_digit c"

abbreviation is_alnum :: "char \<Rightarrow> bool" where
  "is_alnum c \<equiv> is_lower c \<or> is_upper c \<or> is_digit c"

definition nameRegex :: rx where
  "nameRegex = RSeq (RClass is_lower)
     (RAlt ROne (RSeq (RStar (RClass (\<lambda>c. is_hyphen c \<or> is_lower_alnum c))) (RClass (\<lambda>c. is_lower_alnum c))))"

definition dns_label :: rx where
  "dns_label = RAlt (RClass (\<lambda>c. is_alnum c))
     (RSeq (RClass (\<lambda>c. is_alnum c))
        (RSeq (RStar (RClass (\<lambda>c. is_alnum c \<or> is_hyphen c))) (RClass (\<lambda>c. is_alnum c))))"

definition dnsComplaintRegex :: rx where
  "dnsComplaintRegex = RSeq (RStar (RSeq dns_label (RClass (\<lambda>c. c = CHR ''.'')))) dns_label"

section \<open>Errors\<close>

text \<open>\<^verbatim>\<open>field.Invalid\<close>: the path, the offending value and the detail.\<close>

record field_error =
  fe_Path :: "string list"
  fe_Value :: string
  fe_Detail :: string

text \<open>\<^verbatim>\<open>apierrors.NewInvalid\<close> of a group, a kind, a name and the list of errors.\<close>

record invalid_error =
  inv_Group :: string
  inv_Kind :: string
  inv_Name :: string
  inv_Errs :: "field_error list"

section \<open>The checks\<close>

definition validateName :: "VMRayCluster \<Rightarrow> field_error option" where
  "validateName r =
     (if \<not> MatchString nameRegex (vc_Name r)
      then Some \<lparr>fe_Path = [''metadata'', ''name''], fe_Value = vc_Name r,
        fe_Detail = ''name must consist of lower case alphanumeric characters or '' @ [CHR 0x27] @ ''-'' @ [CHR 0x27] @
          '', start with an alphabetic character, and end with an alphanumeric character (e.g. '' @ [CHR 0x27] @
          ''my-name'' @ [CHR 0x27] @ '',  or '' @ [CHR 0x27] @ ''abc-123'' @ [CHR 0x27] @
          '', regex used for validation is '' @ [CHR 0x27] @ ''[a-z]([-a-z0-9]*[a-z0-9])?'' @ [CHR 0x27] @ '')''\<rparr>
      else None)"

text \<open>
  The loop of \<^verbatim>\<open>validateNodeTypes\<close> over the node types in the order they are visited, with its
  two variables.
\<close>

fun node_types_loop ::
  "VMRayClusterSpec \<Rightarrow> (string \<times> NodeType) list \<Rightarrow> uint \<Rightarrow> bool \<Rightarrow> field_error + uint \<times> bool" where
  "node_types_loop spec [] total_min_worker head_node_type_exists = Inr (total_min_worker, head_node_type_exists)"
| "node_types_loop spec ((name, nt) # rest) total_min_worker head_node_type_exists =
     (if nt_MinWorkers nt > nt_MaxWorkers nt
      then Inl \<lparr>fe_Path = [''spec'', ''common_node_config'', ''node_types'', name], fe_Value = ''min_workers/max_workers'',
        fe_Detail = ''Min workers cannot be more than Max workers, min_workers: '' @ show_uint (nt_MinWorkers nt) @
          '', max_workers: '' @ show_uint (nt_MaxWorkers nt)\<rparr>
      else if nt_MaxWorkers nt > nc_MaxWorkers (spec_NodeConfig spec)
      then Inl \<lparr>fe_Path = [''spec'', ''common_node_config'', ''node_types'', name], fe_Value = ''max_workers'',
        fe_Detail = ''Available node type max worker count shoudn'' @ [CHR 0x27] @
          ''t be more than cluster max_worker count, node_type: '' @ name @
          '', spec.common_node_config.max_workers: '' @ show_uint (nc_MaxWorkers (spec_NodeConfig spec))\<rparr>
      else node_types_loop spec rest (total_min_worker + nt_MinWorkers nt)
             (if hn_NodeType (spec_HeadNode spec) = name then True else head_node_type_exists))"

definition validateNodeTypes :: "nat list \<Rightarrow> VMRayCluster \<Rightarrow> field_error option" where
  "validateNodeTypes cs r = (let spec = vc_Spec r in
     (case node_types_loop spec (go_range cs (nc_NodeTypes (spec_NodeConfig spec))) 0 False of
        Inl err \<Rightarrow> Some err
      | Inr (total_min_worker, head_node_type_exists) \<Rightarrow>
          (if \<not> head_node_type_exists
           then Some \<lparr>fe_Path = [''spec'', ''head_node''], fe_Value = ''node_type'',
             fe_Detail = ''Head node type provided doesn'' @ [CHR 0x27] @ ''t exist in available_node_types, key: '' @
               hn_NodeType (spec_HeadNode spec)\<rparr>
           else if total_min_worker > nc_MaxWorkers (spec_NodeConfig spec)
           then Some \<lparr>fe_Path = [''spec'', ''common_node_config''], fe_Value = ''min_workers'',
             fe_Detail = ''Expected spec.common_node_config.max_workers is: '' @ show_uint (nc_MaxWorkers (spec_NodeConfig spec)) @
               '', but total desired min worker for all available node type is: '' @ show_uint total_min_worker\<rparr>
           else None)))"

definition validateMinNodeTypes :: "VMRayCluster \<Rightarrow> field_error option" where
  "validateMinNodeTypes r =
     (if length (nc_NodeTypes (spec_NodeConfig (vc_Spec r))) > 0 then None
      else Some \<lparr>fe_Path = [''spec'', ''common_node_config''], fe_Value = ''node_types'',
        fe_Detail = ''Should atleast have one or more node config''\<rparr>)"

definition validateDockerImage ::
  "(string \<Rightarrow> bool) \<Rightarrow> string \<Rightarrow> string list \<Rightarrow> string \<Rightarrow> field_error option" where
  "validateDockerImage ref_match ref_text fieldPath dockerImageName =
     (if \<not> ref_match dockerImageName
      then Some \<lparr>fe_Path = fieldPath, fe_Value = dockerImageName,
        fe_Detail = ''Docker image is invalid. The regex used is '' @ [CHR 0x27] @ ref_text @ [CHR 0x27]\<rparr>
      else None)"

fun desired_workers_loop :: "string list \<Rightarrow> string list \<Rightarrow> field_error option" where
  "desired_workers_loop fieldPath [] = None"
| "desired_workers_loop fieldPath (k # ks) =
     (if \<not> MatchString dnsComplaintRegex k
      then Some \<lparr>fe_Path = fieldPath, fe_Value = ''name'', fe_Detail = ''Must be DNS compliant name '' @ k\<rparr>
      else desired_workers_loop fieldPath ks)"

definition validateDesiredWorkers :: "nat list \<Rightarrow> VMRayCluster \<Rightarrow> string list \<Rightarrow> field_error option" where
  "validateDesiredWorkers cs r fieldPath =
     desired_workers_loop fieldPath (map fst (go_range cs (entries (spec_AutoscalerDesiredWorkers (vc_Spec r)))))"

definition validateVMRayCluster ::
  "(string \<Rightarrow> bool) \<Rightarrow> string \<Rightarrow> nat list \<Rightarrow> nat list \<Rightarrow> VMRayCluster \<Rightarrow> invalid_error option" where
  "validateVMRayCluster ref_match ref_text cs1 cs2 r =
     (let allErrs = [] @ (case validateName r of None \<Rightarrow> [] | Some err \<Rightarrow> [err]);
          allErrs = allErrs @ (case validateNodeTypes cs1 r of None \<Rightarrow> [] | Some err \<Rightarrow> [err]);
          allErrs = allErrs @ (case validateMinNodeTypes r of None \<Rightarrow> [] | Some err \<Rightarrow> [err]);
          allErrs = allErrs @ (case validateDockerImage ref_match ref_text [''spec'', ''image''] (spec_Image (vc_Spec r)) of
            None \<Rightarrow> [] | Some err \<Rightarrow> [err]);
          allErrs = allErrs @ (case validateDesiredWorkers cs2 r [''spec'', ''autoscaler_desired_workers''] of
            None \<Rightarrow> [] | Some err \<Rightarrow> [err])
      in if length allErrs = 0 then None
         else Some \<lparr>inv_Group = ''ray.io'', inv_Kind = ''RayCluster'', inv_Name = vc_Name r, inv_Errs = allErrs\<rparr>)"

text \<open>The three entry points of the validator; the defaulter changes nothing.\<close>

definition Default :: "VMRayCluster \<Rightarrow> VMRayCluster" where
  "Default r = r"

definition ValidateCreate ::
  "(string \<Rightarrow> bool) \<Rightarrow> string \<Rightarrow> nat list \<Rightarrow> nat list \<Rightarrow> VMRayCluster \<Rightarrow> invalid_error option" where
  "ValidateCreate ref_match ref_text cs1 cs2 r = validateVMRayCluster ref_match ref_text cs1 cs2 r"

definition ValidateUpdate ::
  "(string \<Rightarrow> bool) \<Rightarrow> string \<Rightarrow> nat list \<Rightarrow> nat list \<Rightarrow> VMRayCluster \<Rightarrow> VMRayCluster \<Rightarrow> invalid_error option" where
  "ValidateUpdate ref_match ref_text cs1 cs2 r old = validateVMRayCluster ref_match ref_text cs1 cs2 r"

definition ValidateDelete :: "VMRayCluster \<Rightarrow> invalid_error option" where
  "ValidateDelete r = None"

section \<open>What the patterns accept\<close>

lemma nameRegex_iff:
  "MatchString nameRegex s \<longleftrightarrow>
   guarded_word is_lower (\<lambda>c. is_hyphen c \<or> is_lower_alnum c) (\<lambda>c. is_lower_alnum c) s"
proof (cases s)
  case Nil
  then show ?thesis by (simp add: MatchString_lang nameRegex_def in_seq guarded_word_def)
next
  case (Cons c t)
  let ?q = "\<lambda>c. is_hyphen c \<or> is_lower_alnum c" and ?r = "\<lambda>c. is_lower_alnum c"
  have "MatchString nameRegex s \<longleftrightarrow> is_lower c \<and> t = [] \<or>
      s \<in> lang (RSeq (RClass is_lower) (RSeq (RStar (RClass ?q)) (RClass ?r)))"
    using Cons by (auto simp: MatchString_lang nameRegex_def class_seq)
  also have "\<dots> \<longleftrightarrow> guarded_word is_lower ?q ?r s"
    unfolding Cons using lang_guarded [of is_lower ?q ?r c t]
    by (cases "t = []") (auto simp: guarded_word_def)
  finally show ?thesis .
qed

definition is_dns_label :: "string \<Rightarrow> bool" where
  "is_dns_label = guarded_word (\<lambda>c. is_alnum c) (\<lambda>c. is_alnum c \<or> is_hyphen c) (\<lambda>c. is_alnum c)"

lemma dns_label_iff: "s \<in> lang dns_label \<longleftrightarrow> is_dns_label s"
proof (cases s)
  case Nil
  then show ?thesis by (simp add: dns_label_def in_seq is_dns_label_def guarded_word_def)
next
  case (Cons c t)
  let ?a = "\<lambda>c. is_alnum c" and ?q = "\<lambda>c. is_alnum c \<or> is_hyphen c"
  have "s \<in> lang dns_label \<longleftrightarrow> is_alnum c \<and> t = [] \<or> s \<in> lang (RSeq (RClass ?a) (RSeq (RStar (RClass ?q)) (RClass ?a)))"
    using Cons by (auto simp: dns_label_def)
  then show ?thesis
    unfolding Cons is_dns_label_def using lang_guarded [of ?a ?q ?a c t]
    by (cases "t = []") (auto simp: guarded_word_def)
qed

fun split_dots :: "string \<Rightarrow> string list" where
  "split_dots [] = ['''']"
| "split_dots (c # s) =
     (if c = CHR ''.'' then '''' # split_dots s
      else (case split_dots s of l # ls \<Rightarrow> (c # l) # ls | [] \<Rightarrow> [[c]]))"

lemma split_dots_nonempty [simp]: "split_dots s \<noteq> []"
  by (cases s) (auto split: list.splits)

lemma split_dots_append: "CHR ''.'' \<notin> set l \<Longrightarrow> split_dots (l @ CHR ''.'' # s) = l # split_dots s"
  by (induction l) auto

lemma split_dots_single: "CHR ''.'' \<notin> set l \<Longrightarrow> split_dots l = [l]"
  by (induction l) auto

lemma split_dots_cases:
  obtains (one) "CHR ''.'' \<notin> set s" | (more) l t where "s = l @ CHR ''.'' # t" "CHR ''.'' \<notin> set l"
  using split_list_first by metis

lemma dns_label_no_dot: "is_dns_label l \<Longrightarrow> CHR ''.'' \<notin> set l"
  by (auto simp: is_dns_label_def guarded_word_def list_all_iff is_lower_def is_upper_def is_digit_def is_hyphen_def)

lemma dotted_lang:
  "w \<in> lang (RSeq dns_label (RClass (\<lambda>c. c = CHR ''.''))) \<longleftrightarrow> (\<exists>l. w = l @ ''.'' \<and> is_dns_label l)"
  by (auto simp: in_seq dns_label_iff)

lemma dnsComplaintRegex_iff:
  "MatchString dnsComplaintRegex s \<longleftrightarrow> list_all is_dns_label (split_dots s)"
proof -
  let ?W = "lang (RSeq dns_label (RClass (\<lambda>c. c = CHR ''.'')))"
  have 1: "list_all is_dns_label (split_dots (concat ws @ y))" if "set ws \<subseteq> ?W" "is_dns_label y" for ws y
    using that
    by (induction ws) (auto simp: dotted_lang split_dots_single split_dots_append dns_label_no_dot)
  have 2: "\<exists>ws y. s = concat ws @ y \<and> set ws \<subseteq> ?W \<and> is_dns_label y" if "list_all is_dns_label (split_dots s)"
    using that
  proof (induction "length s" arbitrary: s rule: less_induct)
    case less
    show ?case
    proof (cases s rule: split_dots_cases)
      case one
      with less.prems show ?thesis by (intro exI [of _ "[]"] exI [of _ s]) (simp add: split_dots_single)
    next
      case (more l t)
      with less.prems have "length t < length s" "list_all is_dns_label (split_dots t)"
        by (simp_all add: split_dots_append)
      then obtain ws y where "t = concat ws @ y" "set ws \<subseteq> ?W" "is_dns_label y" using less.hyps by blast
      with more less.prems show ?thesis
        by (intro exI [of _ "(l @ ''.'') # ws"] exI [of _ y]) (auto simp: dotted_lang split_dots_append)
    qed
  qed
  have "MatchString dnsComplaintRegex s \<longleftrightarrow> (\<exists>ws y. s = concat ws @ y \<and> set ws \<subseteq> ?W \<and> is_dns_label y)"
    by (auto simp: MatchString_lang dnsComplaintRegex_def in_seq [of s] lang.simps(6) dns_label_iff)
  with 1 2 show ?thesis by blast
qed

section \<open>What the webhook accepts\<close>

definition type_in_bounds :: "VMRayClusterSpec \<Rightarrow> NodeType \<Rightarrow> bool" where
  "type_in_bounds spec nt \<longleftrightarrow> nt_MinWorkers nt \<le> nt_MaxWorkers nt \<and> nt_MaxWorkers nt \<le> nc_MaxWorkers (spec_NodeConfig spec)"

definition min_workers_of :: "VMRayClusterSpec \<Rightarrow> uint list" where
  "min_workers_of spec = map (nt_MinWorkers \<circ> snd) (nc_NodeTypes (spec_NodeConfig spec))"

lemma node_types_loop_ok:
  assumes "\<forall>(n, nt)\<in>set xs. type_in_bounds spec nt"
  shows "node_types_loop spec xs t h =
    Inr (t + sum_list (map (nt_MinWorkers \<circ> snd) xs), h \<or> hn_NodeType (spec_HeadNode spec) \<in> fst ` set xs)"
  using assms
proof (induction spec xs t h rule: node_types_loop.induct)
  case (2 spec name nt rest t h)
  then have "\<not> nt_MaxWorkers nt < nt_MinWorkers nt" "\<not> nc_MaxWorkers (spec_NodeConfig spec) < nt_MaxWorkers nt"
    by (simp_all add: type_in_bounds_def not_less)
  with 2 show ?case by (auto simp: add.assoc)
qed simp

lemma node_types_loop_error:
  assumes "\<exists>(n, nt)\<in>set xs. \<not> type_in_bounds spec nt"
  shows "\<exists>e. node_types_loop spec xs t h = Inl e"
  using assms
proof (induction spec xs t h rule: node_types_loop.induct)
  case (2 spec name nt rest t h)
  show ?case
  proof (cases "type_in_bounds spec nt")
    case True
    then have "\<not> nt_MaxWorkers nt < nt_MinWorkers nt" "\<not> nc_MaxWorkers (spec_NodeConfig spec) < nt_MaxWorkers nt"
      by (simp_all add: type_in_bounds_def not_less)
    moreover from True "2.prems" have "\<exists>(n, nt)\<in>set rest. \<not> type_in_bounds spec nt" by auto
    ultimately show ?thesis using "2.IH" by simp
  qed (auto simp: type_in_bounds_def not_le)
qed simp

lemma sum_list_go_range: "sum_list (map f (go_range cs xs)) = sum_list (map f xs)"
  for f :: "_ \<Rightarrow> 'a::comm_monoid_add"
  by (metis mset_go_range mset_map sum_mset_sum_list)

lemma validateNodeTypes_None:
  "validateNodeTypes cs r = None \<longleftrightarrow>
     (\<forall>(n, nt)\<in>set (nc_NodeTypes (spec_NodeConfig (vc_Spec r))). type_in_bounds (vc_Spec r) nt) \<and>
     hn_NodeType (spec_HeadNode (vc_Spec r)) \<in> gomap_keys (nc_NodeTypes (spec_NodeConfig (vc_Spec r))) \<and>
     sum_list (min_workers_of (vc_Spec r)) \<le> nc_MaxWorkers (spec_NodeConfig (vc_Spec r))"
proof -
  let ?nts = "nc_NodeTypes (spec_NodeConfig (vc_Spec r))"
  show ?thesis
  proof (cases "\<forall>(n, nt)\<in>set ?nts. type_in_bounds (vc_Spec r) nt")
    case True
    then have "\<forall>(n, nt)\<in>set (go_range cs ?nts). type_in_bounds (vc_Spec r) nt" by simp
    from node_types_loop_ok [OF this, of 0 False] True show ?thesis
      by (auto simp: validateNodeTypes_def Let_def sum_list_go_range min_workers_of_def not_less)
  next
    case False
    then have "\<exists>(n, nt)\<in>set (go_range cs ?nts). \<not> type_in_bounds (vc_Spec r) nt" by auto
    from node_types_loop_error [OF this, of 0 False] False show ?thesis
      by (auto simp: validateNodeTypes_def Let_def)
  qed
qed

lemma desired_workers_loop_None:
  "desired_workers_loop fp ks = None \<longleftrightarrow> (\<forall>k\<in>set ks. list_all is_dns_label (split_dots k))"
  by (induction ks) (auto simp: dnsComplaintRegex_iff)

lemma accepts_iff:
  "validateVMRayCluster ref_match ref_text cs1 cs2 r = None \<longleftrightarrow>
     guarded_word is_lower (\<lambda>c. is_hyphen c \<or> is_lower_alnum c) (\<lambda>c. is_lower_alnum c) (vc_Name r) \<and>
     list_all (\<lambda>(n, nt). type_in_bounds (vc_Spec r) nt) (nc_NodeTypes (spec_NodeConfig (vc_Spec r))) \<and>
     hn_NodeType (spec_HeadNode (vc_Spec r)) \<in> gomap_keys (nc_NodeTypes (spec_NodeConfig (vc_Spec r))) \<and>
     sum_list (min_workers_of (vc_Spec r)) \<le> nc_MaxWorkers (spec_NodeConfig (vc_Spec r)) \<and>
     ref_match (spec_Image (vc_Spec r)) \<and>
     list_all (\<lambda>k. list_all is_dns_label (split_dots k)) (map fst (entries (spec_AutoscalerDesiredWorkers (vc_Spec r))))"
proof -
  have dw: "validateDesiredWorkers cs2 r fp = None \<longleftrightarrow>
    list_all (\<lambda>k. list_all is_dns_label (split_dots k)) (map fst (entries (spec_AutoscalerDesiredWorkers (vc_Spec r))))" for fp
    by (simp add: validateDesiredWorkers_def desired_workers_loop_None list_all_iff)
  have nt: "validateMinNodeTypes r = None" if "validateNodeTypes cs1 r = None"
    using that by (auto simp: validateNodeTypes_None validateMinNodeTypes_def)
  have nm: "validateName r = None \<longleftrightarrow>
    guarded_word is_lower (\<lambda>c. is_hyphen c \<or> is_lower_alnum c) (\<lambda>c. is_lower_alnum c) (vc_Name r)"
    by (simp add: validateName_def nameRegex_iff)
  have im: "validateDockerImage ref_match ref_text fp i = None \<longleftrightarrow> ref_match i" for fp i
    by (simp add: validateDockerImage_def)
  have "validateVMRayCluster ref_match ref_text cs1 cs2 r = None \<longleftrightarrow>
    validateName r = None \<and> validateNodeTypes cs1 r = None \<and> validateMinNodeTypes r = None \<and>
    validateDockerImage ref_match ref_text [''spec'', ''image''] (spec_Image (vc_Spec r)) = None \<and>
    validateDesiredWorkers cs2 r [''spec'', ''autoscaler_desired_workers''] = None"
    by (auto simp: validateVMRayCluster_def Let_def split: option.splits)
  with nt show ?thesis
    unfolding dw nm im validateNodeTypes_None list_all_iff by blast
qed

text \<open>
  C14: exactly which clusters the webhook accepts, in whatever order Go ranges over the maps:
  the name is a lower case label that starts with a letter; every node type has
  \<open>min \<le> max \<le>\<close> the cluster's maximum; the head's node type is one of them; the sum of the
  minima, as a 64-bit sum, is at most the cluster's maximum; the image is a reference; and
  every desired worker has a DNS name.
\<close>

theorem validateVMRayCluster_accepts:
  "validateVMRayCluster ref_match ref_text cs1 cs2 r = None \<longleftrightarrow>
     guarded_word is_lower (\<lambda>c. is_hyphen c \<or> is_lower_alnum c) (\<lambda>c. is_lower_alnum c) (vc_Name r) \<and>
     list_all (\<lambda>(n, nt). type_in_bounds (vc_Spec r) nt) (nc_NodeTypes (spec_NodeConfig (vc_Spec r))) \<and>
     hn_NodeType (spec_HeadNode (vc_Spec r)) \<in> gomap_keys (nc_NodeTypes (spec_NodeConfig (vc_Spec r))) \<and>
     sum_list (min_workers_of (vc_Spec r)) \<le> nc_MaxWorkers (spec_NodeConfig (vc_Spec r)) \<and>
     ref_match (spec_Image (vc_Spec r)) \<and>
     list_all (\<lambda>k. list_all is_dns_label (split_dots k)) (map fst (entries (spec_AutoscalerDesiredWorkers (vc_Spec r))))"
  by (rule accepts_iff)

section \<open>Worker counts\<close>

lemma unat_sum_list: "unat (sum_list ws) = sum_list (map unat ws) mod 2 ^ 64" for ws :: "uint list"
  by (induction ws) (simp_all add: unat_word_ariths mod_simps)

lemma sum_list_bound: "(\<And>x. x \<in> set xs \<Longrightarrow> x \<le> b) \<Longrightarrow> sum_list xs \<le> length xs * b" for xs :: "nat list"
  by (induction xs) fastforce+

text \<open>
  C26: if the number of node types times the cluster's maximum fits into 64 bits, an accepted
  cluster never asks for more workers in total, by the minima of its node types, than its
  maximum allows.
\<close>

theorem accepted_min_workers:
  assumes "validateVMRayCluster ref_match ref_text cs1 cs2 r = None"
    and "length (nc_NodeTypes (spec_NodeConfig (vc_Spec r))) * unat (nc_MaxWorkers (spec_NodeConfig (vc_Spec r))) < 2 ^ 64"
  shows "sum_list (map unat (min_workers_of (vc_Spec r))) \<le> unat (nc_MaxWorkers (spec_NodeConfig (vc_Spec r)))"
proof -
  let ?spec = "vc_Spec r"
  let ?max = "unat (nc_MaxWorkers (spec_NodeConfig ?spec))"
  from assms(1) have "validateNodeTypes cs1 r = None"
    by (auto simp: validateVMRayCluster_def Let_def split: option.splits if_splits)
  then have b: "\<forall>(n, nt)\<in>set (nc_NodeTypes (spec_NodeConfig ?spec)). type_in_bounds ?spec nt"
    and s: "sum_list (min_workers_of ?spec) \<le> nc_MaxWorkers (spec_NodeConfig ?spec)"
    by (simp_all add: validateNodeTypes_None)
  have "x \<le> ?max" if "x \<in> set (map unat (min_workers_of ?spec))" for x
    using that b by (force simp: min_workers_of_def type_in_bounds_def word_le_nat_alt)
  then have "sum_list (map unat (min_workers_of ?spec)) \<le> length (map unat (min_workers_of ?spec)) * ?max"
    by (rule sum_list_bound)
  then have "sum_list (map unat (min_workers_of ?spec)) < 2 ^ 64"
    using assms(2) by (simp add: min_workers_of_def)
  then show ?thesis using s by (simp add: word_le_nat_alt unat_sum_list)
qed

text \<open>A cluster for witnesses, with the two given numbers as minimum and maximum of both its node types.\<close>

definition webhook_cluster :: "uint \<Rightarrow> uint \<Rightarrow> VMRayCluster" where
  "webhook_cluster mn mx =
     \<lparr>vc_ObjectMeta = new_meta ''ns'' ''ray-1'',
      vc_Spec = \<lparr>spec_Image = ''rayproject/ray:2.9'', spec_ApiServer = \<lparr>as_CaCert = '''', as_Location = ''10.0.0.1''\<rparr>,
        spec_HeadNode = \<lparr>hn_SetupCommands = [], hn_Port = None, hn_NodeType = ''head''\<rparr>,
        spec_WorkerNode = \<lparr>wn_SetupCommands = []\<rparr>,
        spec_NodeConfig = \<lparr>nc_VMImage = ''vmi-1'', nc_StorageClass = ''fast'', nc_VMUser = ''rayvm'',
          nc_VMPasswordSaltHash = ''salthash'', nc_Network = None,
          nc_NodeTypes = [(''head'', \<lparr>nt_VMClass = ''large'', nt_MinWorkers = mn, nt_MaxWorkers = mx,
              nt_Resources = \<lparr>nr_CPU = 4, nr_Memory = 1024, nr_GPU = 0\<rparr>\<rparr>),
            (''worker'', \<lparr>nt_VMClass = ''small'', nt_MinWorkers = mn, nt_MaxWorkers = mx,
              nt_Resources = \<lparr>nr_CPU = 2, nr_Memory = 512, nr_GPU = 0\<rparr>\<rparr>)],
          nc_MaxWorkers = mx, nc_IdleTimeoutMinutes = 5, nc_SetupCommands = [], nc_InitializationCommands = []\<rparr>,
        spec_AutoscalerDesiredWorkers = Some [(''ray-1-w.a'', ''worker'')], spec_EnableTLS = True,
        spec_DockerConfig = \<lparr>dr_AuthSecretName = ''''\<rparr>\<rparr>,
      vc_Status = \<lparr>st_HeadNodeStatus = zero_VMRayNodeStatus, st_CurrentWorkers = None, st_ClusterState = '''',
        st_Conditions = [], st_VMServiceStatus = \<lparr>svc_Ip = ''''\<rparr>\<rparr>\<rparr>"

lemma webhook_cluster_strings:
  "MatchString nameRegex ''ray-1''" "MatchString dnsComplaintRegex ''ray-1-w.a''"
  by code_simp+

lemma webhook_cluster_accepted:
  assumes "mn \<le> mx" and "mn + mn \<le> mx"
  shows "validateVMRayCluster (\<lambda>_. True) '''' cs1 cs2 (webhook_cluster mn mx) = None"
proof -
  have "validateNodeTypes cs1 (webhook_cluster mn mx) = None"
    using assms by (simp add: validateNodeTypes_None webhook_cluster_def type_in_bounds_def min_workers_of_def)
  moreover have "validateDesiredWorkers cs2 (webhook_cluster mn mx) fp = None" for fp
    using webhook_cluster_strings(2) [unfolded dnsComplaintRegex_iff]
    by (simp add: validateDesiredWorkers_def desired_workers_loop_None webhook_cluster_def)
  moreover have "validateName (webhook_cluster mn mx) = None"
    using webhook_cluster_strings(1) by (simp add: validateName_def webhook_cluster_def)
  ultimately show ?thesis
    by (simp add: validateVMRayCluster_def validateMinNodeTypes_def validateDockerImage_def)
       (simp add: webhook_cluster_def)
qed

theorem accepted_min_workers_witness:
  "sum_list (map unat (min_workers_of (vc_Spec (webhook_cluster 2 5)))) \<le> 5"
proof -
  have "validateVMRayCluster (\<lambda>_. True) '''' [] [] (webhook_cluster 2 5) = None"
    by (rule webhook_cluster_accepted) simp_all
  from accepted_min_workers [OF this] show ?thesis by (simp add: webhook_cluster_def)
qed

text \<open>
  C27: beyond that the check can be passed by wrapping around: with two node types of
  \<open>2 ^ 63\<close> workers each at least, and a maximum of \<open>2 ^ 63\<close>, the 64-bit sum of the minima is
  zero and the cluster is accepted, although it asks for twice its maximum.
\<close>

theorem min_workers_overflow:
  "validateVMRayCluster (\<lambda>_. True) '''' cs1 cs2 (webhook_cluster (2 ^ 63) (2 ^ 63)) = None \<and>
   sum_list (map unat (min_workers_of (vc_Spec (webhook_cluster (2 ^ 63) (2 ^ 63))))) =
     2 * unat (nc_MaxWorkers (spec_NodeConfig (vc_Spec (webhook_cluster (2 ^ 63) (2 ^ 63))))) \<and>
   0 < unat (nc_MaxWorkers (spec_NodeConfig (vc_Spec (webhook_cluster (2 ^ 63) (2 ^ 63)))))"
proof -
  have "validateVMRayCluster (\<lambda>_. True) '''' cs1 cs2 (webhook_cluster (2 ^ 63) (2 ^ 63)) = None"
    by (rule webhook_cluster_accepted) simp_all
  then show ?thesis by (simp add: webhook_cluster_def min_workers_of_def)
qed

section \<open>Names of accepted clusters\<close>

text \<open>
  For a cluster with an accepted name and a nounce of lower case letters and digits, the
  name of the head machine is again such a name and a single DNS label, so the API server
  can take it as the name of a machine and of a service as far as its form goes.
\<close>

theorem head_name_valid:
  assumes "MatchString nameRegex c" and "list_all (\<lambda>x. is_lower_alnum x) nounce"
  shows "MatchString nameRegex (GetHeadNodeName c nounce) \<and> is_dns_label (GetHeadNodeName c nounce)"
proof -
  let ?n = "GetHeadNodeName c nounce"
  from assms(1) have c: "c \<noteq> []" "is_lower (hd c)" "list_all (\<lambda>x. is_hyphen x \<or> is_lower_alnum x) c"
    by (simp_all add: nameRegex_iff guarded_word_def)
  have n: "?n = c @ ''-h'' \<and> nounce = [] \<or> ?n = (c @ ''-h-'') @ nounce \<and> nounce \<noteq> []"
    by (cases nounce) (simp_all add: GetHeadNodeName_def headsuffix_def)
  have chars: "is_hyphen (CHR ''-'')" "is_lower (CHR ''h'')" by (simp_all add: is_hyphen_def is_lower_def)
  have "hd ?n = hd c" "?n \<noteq> []" using n c(1) by auto
  moreover have "list_all (\<lambda>x. is_hyphen x \<or> is_lower_alnum x) ?n"
    using n c(3) assms(2) chars by (auto simp: list_all_iff)
  moreover have "is_lower_alnum (last ?n)"
    using n assms(2) chars by (auto simp: list_all_iff)
  ultimately show ?thesis using c(2)
    by (auto simp: nameRegex_iff is_dns_label_def guarded_word_def list_all_iff)
qed

theorem head_name_valid_witness:
  "MatchString nameRegex (GetHeadNodeName ''ray-1'' ''ab1cd'') \<and> is_dns_label (GetHeadNodeName ''ray-1'' ''ab1cd'')"
  by (rule head_name_valid [OF webhook_cluster_strings(1)]) (simp add: is_lower_def is_digit_def)

end
