(* ===== verification/Operator_System.thy ===== *)
theory Operator_System
  imports Controller_Env Vmop_Provider Webhook
begin

text \<open>
  The operator as a whole: the reconciler with the VM operator provider behind it and the
  admission webhook in front, in a cluster in which users create, edit and delete resources
  and machines disappear. The runs of the system are an inductive relation; its invariants
  are proved by rule induction over the effect of one call of the reconciler.
\<close>

section \<open>The provider behind the reconciler\<close>

lemma vmop_controller_env:
  assumes "operator_env kc store vm_admit vs_admit rt" and "finalizer_util cu"
  shows "controller_env kc store vm_admit vs_admit rt (NewVmOperatorProvider rt kc yaml) (\<lambda>w. live_vms (store w)) cu"
proof (intro controller_env.intro assms vmop_vm_provider [OF assms(1)] controller_env_axioms.intro, unfold provider_sel)
  fix w w' :: 'a and req :: VmDeploymentRequest and ns n :: string and r :: "go_error option" and sr fr
  show "live_vms (store w') = live_vms (store w)" if "sto_virtualmachines (store w') = sto_virtualmachines (store w)"
    using that by (rule live_vms_cong)
  show "sto_clusters (store w') = sto_clusters (store w)" if "Deploy rt kc yaml req w = (r, w')"
    using that by (rule operator_env.Deploy_clusters [OF assms(1)])
  show "sto_clusters (store w') = sto_clusters (store w)" if "DeployVmService rt kc req w = (sr, w')"
    using operator_env.DeployVmService_frame [OF assms(1) that] by auto
  show "sto_clusters (store w') = sto_clusters (store w)" if "Delete kc ns n w = (r, w')"
    using operator_env.Delete_post [OF assms(1) that] by auto
  show "sto_clusters (store w') = sto_clusters (store w)" if "FetchVmStatus kc ns n w = (fr, w')"
    using operator_env.FetchVmStatus_store [OF assms(1) that] by simp
  show "sto_clusters (store w') = sto_clusters (store w)" if "DeleteAuxiliaryResources kc ns n w = (r, w')"
    using that by (rule operator_env.DeleteAuxiliaryResources_clusters [OF assms(1)])
qed

abbreviation mem_provider :: "mem_world VmProvider" where
  "mem_provider \<equiv> NewVmOperatorProvider mem_runtime mem_client mem_yaml"

interpretation memsys: controller_env mem_client mem_store id id mem_runtime mem_provider
  "\<lambda>w. live_vms (mem_store w)" list_finalizers
  by (rule vmop_controller_env [OF mem_operator_env list_finalizer_util])

section \<open>Runs of the system\<close>

text \<open>
  One step: a call of the reconciler for some resource, with or without an error; a user
  creating a resource the webhook accepts (the API server ignores a status given at
  creation), editing its specification, or asking for its deletion, which removes it at once
  when it has no finalizers; or something outside losing machines. Left out are only calls of
  the reconciler that deploy a new machine and then return an error: if writing the status
  back fails, the record of the new machine is lost.
\<close>

inductive operator_step ::
  "(string \<Rightarrow> bool) \<Rightarrow> 'w go_runtime \<Rightarrow> 'w kube_client \<Rightarrow> controllerutil \<Rightarrow> 'w VmProvider \<Rightarrow>
   ('w \<Rightarrow> api_store) \<Rightarrow> ('w \<Rightarrow> object_key set) \<Rightarrow> 'w \<Rightarrow> 'w \<Rightarrow> bool"
  for ref_match rt kc cu pv store vms where
  reconcile: "Reconcile rt kc cu pv ns name w = (Returns (d, err), w') \<Longrightarrow> err = None \<or> vms w' \<subseteq> vms w \<Longrightarrow>
    operator_step ref_match rt kc cu pv store vms w w'"
| create: "ValidateCreate ref_match ref_text cs1 cs2 c = None \<Longrightarrow>
    st_HeadNodeStatus (vc_Status c) = zero_VMRayNodeStatus \<Longrightarrow> st_CurrentWorkers (vc_Status c) = None \<Longrightarrow>
    meta_key (vc_ObjectMeta c) = k \<Longrightarrow> sto_clusters (store w) k = None \<Longrightarrow>
    store w' = (store w)\<lparr>sto_clusters := (sto_clusters (store w))(k \<mapsto> c)\<rparr> \<Longrightarrow> vms w' = vms w \<Longrightarrow>
    operator_step ref_match rt kc cu pv store vms w w'"
| edit: "sto_clusters (store w) k = Some c \<Longrightarrow>
    ValidateUpdate ref_match ref_text cs1 cs2 (c\<lparr>vc_Spec := spec\<rparr>) c = None \<Longrightarrow>
    store w' = (store w)\<lparr>sto_clusters := (sto_clusters (store w))(k \<mapsto> c\<lparr>vc_Spec := spec\<rparr>)\<rparr> \<Longrightarrow> vms w' = vms w \<Longrightarrow>
    operator_step ref_match rt kc cu pv store vms w w'"
| mark: "sto_clusters (store w) k = Some c \<Longrightarrow> ValidateDelete c = None \<Longrightarrow> om_Finalizers (vc_ObjectMeta c) \<noteq> [] \<Longrightarrow>
    store w' = (store w)\<lparr>sto_clusters := (sto_clusters (store w))
      (k \<mapsto> c\<lparr>vc_ObjectMeta := (vc_ObjectMeta c)\<lparr>om_DeletionTimestamp := Some t\<rparr>\<rparr>)\<rparr> \<Longrightarrow> vms w' = vms w \<Longrightarrow>
    operator_step ref_match rt kc cu pv store vms w w'"
| remove: "sto_clusters (store w) k = Some c \<Longrightarrow> ValidateDelete c = None \<Longrightarrow> om_Finalizers (vc_ObjectMeta c) = [] \<Longrightarrow>
    store w' = (store w)\<lparr>sto_clusters := (sto_clusters (store w))(k := None)\<rparr> \<Longrightarrow> vms w' = vms w \<Longrightarrow>
    operator_step ref_match rt kc cu pv store vms w w'"
| lose: "sto_clusters (store w') = sto_clusters (store w) \<Longrightarrow> vms w' \<subseteq> vms w \<Longrightarrow>
    operator_step ref_match rt kc cu pv store vms w w'"

inductive operator_reachable ::
  "(string \<Rightarrow> bool) \<Rightarrow> 'w go_runtime \<Rightarrow> 'w kube_client \<Rightarrow> controllerutil \<Rightarrow> 'w VmProvider \<Rightarrow>
   ('w \<Rightarrow> api_store) \<Rightarrow> ('w \<Rightarrow> object_key set) \<Rightarrow> 'w \<Rightarrow> bool"
  for ref_match rt kc cu pv store vms where
  start: "sto_clusters (store w) = Map.empty \<Longrightarrow> vms w = {} \<Longrightarrow> operator_reachable ref_match rt kc cu pv store vms w"
| step: "operator_reachable ref_match rt kc cu pv store vms w \<Longrightarrow> operator_step ref_match rt kc cu pv store vms w w' \<Longrightarrow>
    operator_reachable ref_match rt kc cu pv store vms w'"

text \<open>
  The invariant: every stored cluster is one the webhook accepts, under its own key, with
  well-formed node records, and every machine belongs to a stored cluster.
\<close>

definition admissible :: "(string \<Rightarrow> bool) \<Rightarrow> VMRayCluster \<Rightarrow> bool" where
  "admissible ref_match c \<longleftrightarrow> validateVMRayCluster ref_match '''' [] [] c = None"

definition machines_of :: "(object_key \<rightharpoonup> VMRayCluster) \<Rightarrow> object_key set" where
  "machines_of m = (\<Union>c \<in> ran m. counted c)"

definition sys_inv :: "(string \<Rightarrow> bool) \<Rightarrow> (object_key \<rightharpoonup> VMRayCluster) \<Rightarrow> object_key set \<Rightarrow> bool" where
  "sys_inv ref_match m V \<longleftrightarrow>
     (\<forall>k c. m k = Some c \<longrightarrow> meta_key (vc_ObjectMeta c) = k \<and> status_inv (vc_Status c) \<and> admissible ref_match c) \<and>
     V \<subseteq> machines_of m"

lemma ran_upd_delete: "ran (m(k \<mapsto> c)) = insert c (ran (m(k := None)))"
  using ran_map_upd [of "m(k := None)" k c] by simp

lemma machines_of_upd: "machines_of (m(k \<mapsto> c)) = counted c \<union> machines_of (m(k := None))"
  by (simp add: machines_of_def ran_upd_delete)

lemma machines_of_Some: "m k = Some c \<Longrightarrow> machines_of m = counted c \<union> machines_of (m(k := None))"
  using machines_of_upd [of m k c] by (simp add: fun_upd_idem)

lemma sys_inv_cluster:
  assumes "sys_inv ref_match m V" and "m k = Some c"
  shows "meta_key (vc_ObjectMeta c) = k" "status_inv (vc_Status c)" "admissible ref_match c"
  using assms unfolding sys_inv_def by blast+

lemma sys_inv_upd:
  assumes "sys_inv ref_match m V" and "V' \<subseteq> counted c' \<union> machines_of (m(k := None))"
    and "meta_key (vc_ObjectMeta c') = k" "status_inv (vc_Status c')" "admissible ref_match c'"
  shows "sys_inv ref_match (m(k \<mapsto> c')) V'"
  unfolding sys_inv_def machines_of_upd
proof (intro conjI allI impI assms(2))
  fix k1 c1
  assume "(m(k \<mapsto> c')) k1 = Some c1"
  then have "k1 = k \<and> c1 = c' \<or> m k1 = Some c1" by (auto split: if_splits)
  then show "meta_key (vc_ObjectMeta c1) = k1" "status_inv (vc_Status c1)" "admissible ref_match c1"
    using assms(3-5) sys_inv_cluster [OF assms(1)] by blast+
qed

lemma admissible_iff: "validateVMRayCluster ref_match ref_text cs1 cs2 c = None \<longleftrightarrow> admissible ref_match c"
  unfolding admissible_def accepts_iff by blast

lemma admissible_cong: "vc_Name c' = vc_Name c \<Longrightarrow> vc_Spec c' = vc_Spec c \<Longrightarrow> admissible ref_match c' = admissible ref_match c"
  by (simp add: admissible_def accepts_iff)

lemma counted_meta:
  "vc_Status c' = vc_Status c \<Longrightarrow> om_Labels (vc_ObjectMeta c') = om_Labels (vc_ObjectMeta c) \<Longrightarrow>
   meta_key (vc_ObjectMeta c') = meta_key (vc_ObjectMeta c) \<Longrightarrow>
   om_Finalizers (vc_ObjectMeta c') = om_Finalizers (vc_ObjectMeta c) \<Longrightarrow> counted c' = counted c"
  by (simp add: counted_def tracked_def label_of_def meta_key_def)

lemma sys_inv_replace:
  assumes "sys_inv ref_match m V" and "m k = Some c" and "V' - counted c' \<subseteq> V - counted c"
    and "meta_key (vc_ObjectMeta c') = k" "status_inv (vc_Status c')" "admissible ref_match c'"
  shows "sys_inv ref_match (m(k \<mapsto> c')) V'"
proof (rule sys_inv_upd [OF assms(1) _ assms(4-6)])
  have "V \<subseteq> counted c \<union> machines_of (m(k := None))"
    using assms(1) machines_of_Some [of m k c, OF assms(2)] by (simp add: sys_inv_def)
  with assms(3) show "V' \<subseteq> counted c' \<union> machines_of (m(k := None))" by blast
qed

lemma sys_inv_drop:
  assumes "sys_inv ref_match m V" and "m k = Some c" and "V' \<subseteq> V - counted c"
  shows "sys_inv ref_match (m(k := None)) V'"
proof -
  have "V' \<subseteq> machines_of (m(k := None))"
    using assms(1,3) machines_of_Some [of m k c, OF assms(2)] by (auto simp: sys_inv_def)
  moreover have "m k1 = Some c1" if "(m(k := None)) k1 = Some c1" for k1 c1 using that by (auto split: if_splits)
  ultimately show ?thesis using sys_inv_cluster [OF assms(1)] unfolding sys_inv_def by blast
qed

lemma cluster_step_inv:
  assumes "cluster_step m V m' V'" and "sys_inv ref_match m V"
  shows "sys_inv ref_match m' V'"
proof -
  from assms(1) obtain k c where c: "m k = Some c" and cases: "m' = m(k := None) \<and> V' \<subseteq> V - counted c \<or>
      (\<exists>c'. m' = m(k \<mapsto> c') \<and> meta_key (vc_ObjectMeta c') = k \<and> vc_Spec c' = vc_Spec c \<and>
         (status_inv (vc_Status c) \<longrightarrow> status_inv (vc_Status c')) \<and> V' - counted c' \<subseteq> V - counted c)"
    unfolding cluster_step_def by blast
  note inv = sys_inv_cluster [OF assms(2) c]
  from cases show ?thesis
  proof
    assume "m' = m(k := None) \<and> V' \<subseteq> V - counted c"
    with assms(2) c show ?thesis using sys_inv_drop by blast
  next
    assume "\<exists>c'. m' = m(k \<mapsto> c') \<and> meta_key (vc_ObjectMeta c') = k \<and> vc_Spec c' = vc_Spec c \<and>
      (status_inv (vc_Status c) \<longrightarrow> status_inv (vc_Status c')) \<and> V' - counted c' \<subseteq> V - counted c"
    then obtain c' where c': "m' = m(k \<mapsto> c')" "meta_key (vc_ObjectMeta c') = k" "vc_Spec c' = vc_Spec c"
      "status_inv (vc_Status c')" "V' - counted c' \<subseteq> V - counted c" using inv by blast
    moreover have "admissible ref_match c'"
      using inv c' admissible_cong [of c' c ref_match] by (auto simp: meta_key_def)
    ultimately show ?thesis using assms(2) c sys_inv_replace [of ref_match m V k c V' c'] by simp
  qed
qed

context controller_env
begin

lemma Reconcile_inv:
  assumes "Reconcile rt kc cu pv ns name w = (Returns (d, err), w')" and "err = None \<or> vms w' \<subseteq> vms w"
    and "sys_inv ref_match (clusters w) (vms w)"
  shows "sys_inv ref_match (clusters w') (vms w')"
proof (cases err)
  case None
  from Reconcile_step [OF assms(1) [unfolded None]] assms(3) show ?thesis using cluster_step_inv by auto
next
  case (Some e)
  with assms(2) have sub: "vms w' \<subseteq> vms w" by simp
  from Reconcile_error_step [OF assms(1) [unfolded Some]] show ?thesis
  proof
    assume "clusters w' = clusters w"
    with assms(3) sub show ?thesis by (auto simp: sys_inv_def)
  next
    assume "cluster_step (clusters w) (vms w) (clusters w') (vms w \<inter> vms w')"
    then have "sys_inv ref_match (clusters w') (vms w \<inter> vms w')" using assms(3) by (rule cluster_step_inv)
    with sub show ?thesis by (simp add: inf_absorb2)
  qed
qed

lemma operator_step_inv:
  assumes "operator_step ref_match rt kc cu pv store vms w w'" and "sys_inv ref_match (clusters w) (vms w)"
  shows "sys_inv ref_match (clusters w') (vms w')"
  using assms
proof (induction rule: operator_step.induct)
  case (reconcile ns name w d err w')
  then show ?case by (rule Reconcile_inv)
next
  case (create ref_text cs1 cs2 c k w w')
  have "vms w \<subseteq> machines_of (clusters w)" using create.prems by (simp add: sys_inv_def)
  then have "vms w \<subseteq> counted c \<union> machines_of ((clusters w)(k := None))" using create(5) by (auto simp: fun_upd_idem)
  moreover have "status_inv (vc_Status c)" using create(2,3) by (simp add: status_inv_def node_inv_zero)
  moreover have "admissible ref_match c" using create(1) by (simp add: ValidateCreate_def admissible_iff)
  ultimately have "sys_inv ref_match ((clusters w)(k \<mapsto> c)) (vms w)"
    using create.prems create(4) by (intro sys_inv_upd)
  moreover have "clusters w' = (clusters w)(k \<mapsto> c)" using create(6) by simp
  ultimately show ?case using create(7) by (simp only:)
next
  case (edit w k c ref_text cs1 cs2 spec w')
  let ?c = "c\<lparr>vc_Spec := spec\<rparr>"
  note inv = sys_inv_cluster [OF edit.prems edit(1)]
  have "admissible ref_match ?c" using edit(2) by (simp add: ValidateUpdate_def admissible_iff)
  moreover have "counted ?c = counted c" by (rule counted_meta) simp_all
  ultimately have "sys_inv ref_match ((clusters w)(k \<mapsto> ?c)) (vms w)"
    using edit inv by (intro sys_inv_replace [of ref_match _ "vms w" k c]) auto
  moreover have "clusters w' = (clusters w)(k \<mapsto> ?c)" using edit(3) by simp
  ultimately show ?case using edit(4) by (simp only:)
next
  case (mark w k c w' t)
  let ?c = "c\<lparr>vc_ObjectMeta := (vc_ObjectMeta c)\<lparr>om_DeletionTimestamp := Some t\<rparr>\<rparr>"
  note inv = sys_inv_cluster [OF mark.prems mark(1)]
  have "counted ?c = counted c" by (rule counted_meta) (simp_all add: meta_key_def)
  moreover have "admissible ref_match ?c" using inv(3) admissible_cong [of ?c c ref_match] by simp
  ultimately have "sys_inv ref_match ((clusters w)(k \<mapsto> ?c)) (vms w)"
    using mark inv by (intro sys_inv_replace [of ref_match _ "vms w" k c]) (auto simp: meta_key_def)
  moreover have "clusters w' = (clusters w)(k \<mapsto> ?c)" using mark(4) by simp
  ultimately show ?case using mark(5) by (simp only:)
next
  case (remove w k c w')
  have "counted c = {}" using remove(3) by (simp add: counted_def)
  then have "sys_inv ref_match ((clusters w)(k := None)) (vms w)"
    using sys_inv_drop [OF remove.prems, of k c "vms w"] remove(1) by blast
  moreover have "clusters w' = (clusters w)(k := None)" using remove(4) by simp
  ultimately show ?case using remove(5) by (simp only:)
next
  case (lose w' w)
  then show ?case by (auto simp: sys_inv_def)
qed

end

section \<open>A run in memory\<close>

text \<open>
  A server on which everything a cluster depends on is in place and its head service has an
  address, a cluster submitted with its nounce, and the call that deploys its head.
\<close>

definition sys_start :: mem_world where
  "sys_start = empty_world\<lparr>mw_store := empty_store
     \<lparr>sto_secrets := [(''ns'', ''ray-1-root-cert'') \<mapsto> admit_secret (root_secret ''ns'' ''ray-1-root-cert'' ''crt'' ''ckey'')],
      sto_vmservices := [(''ns'', ''ray-1-h-ab1cd'') \<mapsto> \<lparr>vs_meta = new_meta ''ns'' ''ray-1-h-ab1cd'', vs_Selector = [],
        vs_Ports = [], vs_Type = ''LoadBalancer'', vs_Ingress = [''10.1.1.1'']\<rparr>],
      sto_vmimages := [(''ns'', ''vmi-1'') \<mapsto> \<lparr>no_meta = new_meta ''ns'' ''vmi-1''\<rparr>],
      sto_storageclasses := [''fast'' \<mapsto> \<lparr>no_meta = new_meta '''' ''fast''\<rparr>],
      sto_vmclasses := [(''ns'', ''large'') \<mapsto> \<lparr>no_meta = new_meta ''ns'' ''large''\<rparr>,
        (''ns'', ''small'') \<mapsto> \<lparr>no_meta = new_meta ''ns'' ''small''\<rparr>]\<rparr>\<rparr>"

definition sys_cluster :: VMRayCluster where
  "sys_cluster = (webhook_cluster 1 3)\<lparr>vc_ObjectMeta := (new_meta ''ns'' ''ray-1'')
     \<lparr>om_Labels := Some [(HeadNodeNounceLabel, ''ab1cd'')], om_Finalizers := [finalizerName]\<rparr>\<rparr>"

definition add_cluster :: "VMRayCluster \<Rightarrow> mem_world \<Rightarrow> mem_world" where
  "add_cluster c w = w\<lparr>mw_store := (mem_store w)\<lparr>sto_clusters := (sto_clusters (mem_store w))(meta_key (vc_ObjectMeta c) \<mapsto> c)\<rparr>\<rparr>"

lemma add_cluster_store [simp]:
  "mem_store (add_cluster c w) = (mem_store w)\<lparr>sto_clusters := (sto_clusters (mem_store w))(meta_key (vc_ObjectMeta c) \<mapsto> c)\<rparr>"
  by (simp add: add_cluster_def)

lemma sys_start_store:
  "mem_store sys_start = mw_store sys_start"
  by (simp add: sys_start_def empty_world_def empty_store_def mem_store_def Let_def keyed_def fun_eq_iff root_secret_def
      meta_key_def)

lemma sys_cluster_sel:
  "vc_Name sys_cluster = ''ray-1''" "vc_Namespace sys_cluster = ''ns''" "meta_key (vc_ObjectMeta sys_cluster) = (''ns'', ''ray-1'')"
  "head_name sys_cluster = ''ray-1-h-ab1cd''" "om_DeletionTimestamp (vc_ObjectMeta sys_cluster) = None"
  "finalizerName \<in> set (om_Finalizers (vc_ObjectMeta sys_cluster))"
  "vc_Spec sys_cluster = vc_Spec (webhook_cluster 1 3)" "vc_Status sys_cluster = vc_Status (webhook_cluster 1 3)"
  by (simp_all add: sys_cluster_def meta_key_def label_of_def GetHeadNodeName_def headsuffix_def)
  
lemma sys_cluster_accepted: "ValidateCreate (\<lambda>_. True) '''' [] [] sys_cluster = None"
proof -
  have "admissible (\<lambda>_. True) (webhook_cluster 1 3)"
    unfolding admissible_def by (rule webhook_cluster_accepted) simp_all
  then show ?thesis unfolding ValidateCreate_def admissible_iff
    by (subst admissible_cong [of sys_cluster "webhook_cluster 1 3"]) (simp_all add: sys_cluster_sel, simp add: webhook_cluster_def)
qed

lemma sys_dependencies: "dependencies_met (mem_store (add_cluster sys_cluster sys_start)) sys_cluster"
  by (simp add: dependencies_met_def sys_cluster_sel sys_start_store) (simp add: webhook_cluster_def sys_start_def)

abbreviation sys_world :: mem_world where
  "sys_world \<equiv> add_cluster sys_cluster sys_start"

abbreviation cleared :: "VMRayCluster \<Rightarrow> VMRayCluster" where
  "cleared c \<equiv> upd_status (\<lambda>st. st\<lparr>st_Conditions := [], st_ClusterState := HEALTHY\<rparr>) c"

lemma go_range_in_order: "go_range [] xs = xs"
  by (induction xs) simp_all

lemma sys_validate: "ValidateAuxiliaryDependencies mem_runtime mem_client (cleared sys_cluster) sys_world =
    ((cleared sys_cluster, False, None), sys_world)"
proof -
  have nts: "map (nt_VMClass \<circ> snd) (nc_NodeTypes (spec_NodeConfig (vc_Spec sys_cluster))) = [''large'', ''small'']"
    "nc_VMImage (spec_NodeConfig (vc_Spec sys_cluster)) = ''vmi-1''"
    "nc_StorageClass (spec_NodeConfig (vc_Spec sys_cluster)) = ''fast''"
    by (simp_all add: sys_cluster_sel webhook_cluster_def)
  have "mw_choices sys_world = []" by (simp add: add_cluster_def sys_start_def empty_world_def)
  then have "rt_range mem_runtime sys_world = ([], sys_world)" by (simp add: mem_runtime_def)
  moreover have "rget (kc_vmimages mem_client) ''ns'' ''vmi-1'' sys_world = (Inr \<lparr>no_meta = new_meta ''ns'' ''vmi-1''\<rparr>, sys_world)"
    "kc_get_storageclass mem_client ''ns'' ''fast'' sys_world = (Inr \<lparr>no_meta = new_meta '''' ''fast''\<rparr>, sys_world)"
    "rget (kc_vmclasses mem_client) ''ns'' ''large'' sys_world = (Inr \<lparr>no_meta = new_meta ''ns'' ''large''\<rparr>, sys_world)"
    "rget (kc_vmclasses mem_client) ''ns'' ''small'' sys_world = (Inr \<lparr>no_meta = new_meta ''ns'' ''small''\<rparr>, sys_world)"
    by (simp_all add: mem_client_def mem_api_def sys_start_store) (simp_all add: sys_start_def)
  ultimately show ?thesis
    by (simp add: ValidateAuxiliaryDependencies_def Let_def nts go_range_in_order check_dependency_def sys_cluster_sel(2))
qed

lemma sys_deployable:
  "head_deployable (mem_store sys_world) ((deploymentRequest (head_request (cleared sys_cluster)))\<lparr>vdr_VmService := ''10.1.1.1''\<rparr>)"
  by (simp add: head_deployable_def deploymentRequest_def head_request_def Let_def sys_cluster_sel sys_start_store)
     (simp add: webhook_cluster_def sys_start_def empty_world_def empty_store_def GetSshKeysSecretName_def suffix_defs
       RootCaSecretSuffix_def)

lemma sys_head:
  "\<exists>w1. reconcileHeadNode mem_provider (cleared sys_cluster) sys_world =
    (upd_status (\<lambda>st. st\<lparr>st_HeadNodeStatus := (st_HeadNodeStatus st)\<lparr>ns_VmStatus := INITIALIZED\<rparr>,
        st_VMServiceStatus := \<lparr>svc_Ip = ''10.1.1.1''\<rparr>\<rparr>) (cleared sys_cluster), Returns None, w1) \<and>
    (''ns'', ''ray-1-h-ab1cd'') \<in> live_vms (mem_store w1) \<and>
    sto_clusters (mem_store w1) = sto_clusters (mem_store sys_world)"
proof -
  let ?req = "head_request (cleared sys_cluster)"
  let ?dr = "(deploymentRequest ?req)\<lparr>vdr_VmService := ''10.1.1.1''\<rparr>"
  obtain w1 where d: "Deploy mem_runtime mem_client mem_yaml ?dr sys_world = (None, w1)"
    using mem.Deploy_succeeds [OF sys_deployable, of mem_yaml] mem_yaml_total by blast
  have keys: "vdr_ClusterName (deploymentRequest ?req) = ''ray-1''" "vdr_Nounce (deploymentRequest ?req) = ''ab1cd''"
    "vdr_key ?dr = (''ns'', ''ray-1-h-ab1cd'')" "vdr_Namespace (deploymentRequest ?req) = ''ns''"
    using sys_cluster_sel by (simp_all add: deploymentRequest_def head_request_def Let_def sys_cluster_def label_of_def)
  have "rget (kc_vmservices mem_client) ''ns'' ''ray-1-h-ab1cd'' sys_world = (Inr \<lparr>vs_meta = new_meta ''ns'' ''ray-1-h-ab1cd'',
      vs_Selector = [], vs_Ports = [], vs_Type = ''LoadBalancer'', vs_Ingress = [''10.1.1.1'']\<rparr>, sys_world)"
    by (simp add: mem_api_def sys_start_store) (simp add: sys_start_def)
  then have "DeployVmService mem_runtime mem_client (deploymentRequest ?req) sys_world = ((''10.1.1.1'', None), sys_world)"
    using keys by (simp add: DeployVmService_def GetHeadNodeName_def headsuffix_def)
  then have "ProcessNodeVmState mem_provider ?req sys_world =
      (set_VmStatus INITIALIZED (?req\<lparr>lr_VMServiceStatus := Some \<lparr>svc_Ip = ''10.1.1.1''\<rparr>\<rparr>), Returns None, w1)"
    using d by (simp add: ProcessNodeVmState_def process_EMPTY_def deploy_node_def provider_sel head_request_def Let_def
        sys_cluster_sel webhook_cluster_def zero_VMRayNodeStatus_def)
  then have "reconcileHeadNode mem_provider (cleared sys_cluster) sys_world =
    (upd_status (\<lambda>st. st\<lparr>st_HeadNodeStatus := (st_HeadNodeStatus st)\<lparr>ns_VmStatus := INITIALIZED\<rparr>,
        st_VMServiceStatus := \<lparr>svc_Ip = ''10.1.1.1''\<rparr>\<rparr>) (cleared sys_cluster), Returns None, w1)"
    by (simp add: reconcileHeadNode_def set_status_def head_request_def Let_def)
  moreover have "pv_Deploy mem_provider ?dr sys_world = (None, w1)" using d by (simp add: provider_sel)
  from memvmop.vmop.deploy_ok [OF this] memsys.deploy_clusters [OF this]
  have "(''ns'', ''ray-1-h-ab1cd'') \<in> live_vms (mem_store w1)" "sto_clusters (mem_store w1) = sto_clusters (mem_store sys_world)"
    using keys(3) by simp_all
  ultimately show ?thesis by blast
qed

lemma sys_steps:
  "\<exists>c1 w1. reconcile_steps mem_runtime mem_client list_finalizers mem_provider sys_cluster sys_world = (c1, ExitUpdate 60, w1) \<and>
    vc_ObjectMeta c1 = vc_ObjectMeta sys_cluster \<and> (''ns'', ''ray-1-h-ab1cd'') \<in> live_vms (mem_store w1) \<and>
    sto_clusters (mem_store w1) = sto_clusters (mem_store sys_world)"
proof -
  obtain c1 w1 where h: "reconcileHeadNode mem_provider (cleared sys_cluster) sys_world = (c1, Returns None, w1)"
    and c1: "vc_ObjectMeta c1 = vc_ObjectMeta sys_cluster" "ns_RayStatus (st_HeadNodeStatus (vc_Status c1)) = ''''"
    and w1: "(''ns'', ''ray-1-h-ab1cd'') \<in> live_vms (mem_store w1)" "sto_clusters (mem_store w1) = sto_clusters (mem_store sys_world)"
    using sys_head by (auto simp: sys_cluster_sel webhook_cluster_def zero_VMRayNodeStatus_def)
  have "CreateVMRayClusterRootSecret mem_runtime mem_client ''ns'' ''ray-1'' sys_world = (None, sys_world)"
    by (simp add: CreateVMRayClusterRootSecret_def Let_def mem_api_def sys_start_store RootCaSecretSuffix_def) (simp add: sys_start_def)
  then have steps: "reconcile_steps mem_runtime mem_client list_finalizers mem_provider sys_cluster sys_world = (c1, ExitUpdate 60, w1)"
    using sys_validate h c1(2)
    by (simp add: reconcile_steps_def Let_def addFinalizerAndNounce_def list_finalizers.contains sys_cluster_sel
        reconcile_head_step_def reconcile_workers_step_def RAY_RUNNING_def defaultRequeueDuration_def)
  with c1(1) w1 show ?thesis by blast
qed

lemma sys_reconcile:
  "\<exists>w'. Reconcile mem_runtime mem_client list_finalizers mem_provider ''ns'' ''ray-1'' sys_world = (Returns (60, None), w') \<and>
    (''ns'', ''ray-1-h-ab1cd'') \<in> live_vms (mem_store w')"
proof -
  obtain c1 w1 where steps: "reconcile_steps mem_runtime mem_client list_finalizers mem_provider sys_cluster sys_world = (c1, ExitUpdate 60, w1)"
    and c1: "vc_ObjectMeta c1 = vc_ObjectMeta sys_cluster"
    and w1: "(''ns'', ''ray-1-h-ab1cd'') \<in> live_vms (mem_store w1)" "sto_clusters (mem_store w1) = sto_clusters (mem_store sys_world)"
    using sys_steps by blast
  have stored: "sto_clusters (mem_store w1) (meta_key (vc_ObjectMeta c1)) = Some sys_cluster"
    using w1(2) c1 by (simp add: sys_cluster_sel)
  obtain c2 w' where "kc_patch_status mem_client sys_cluster c1 w1 = (Inr c2, w')"
    using stored by (simp add: mem_client_def Let_def)
  then have patch: "updateStatus mem_client sys_cluster c1 60 w1 = ((60, None), w')" by (simp add: updateStatus_def)
  from memsys.updateStatus_stored [OF patch stored refl] w1(1)
  have "(''ns'', ''ray-1-h-ab1cd'') \<in> live_vms (mem_store w')" by simp
  moreover have "kc_get_cluster mem_client ''ns'' ''ray-1'' sys_world = (Inr sys_cluster, sys_world)"
    by (simp add: mem_client_def sys_cluster_sel)
  ultimately show ?thesis using steps patch
    by (simp add: Reconcile_def fetchVMRayCluster_def VMRayClusterReconcile_def sys_cluster_sel)
qed

section \<open>Properties of the system\<close>

context controller_env
begin

lemma operator_reachable_inv:
  assumes "operator_reachable ref_match rt kc cu pv store vms w"
  shows "sys_inv ref_match (clusters w) (vms w)"
  using assms
proof (induction rule: operator_reachable.induct)
  case (start w)
  then show ?case by (simp add: sys_inv_def)
next
  case (step w w')
  then show ?case by (blast intro: operator_step_inv)
qed

end

abbreviation reachable_vmop ::
  "(string \<Rightarrow> bool) \<Rightarrow> 'w go_runtime \<Rightarrow> 'w kube_client \<Rightarrow> controllerutil \<Rightarrow> (RayBootstrapConfig \<Rightarrow> go_error + string) \<Rightarrow>
   ('w \<Rightarrow> api_store) \<Rightarrow> 'w \<Rightarrow> bool" where
  "reachable_vmop ref_match rt kc cu yaml store w \<equiv>
     operator_reachable ref_match rt kc cu (NewVmOperatorProvider rt kc yaml) store (\<lambda>w. live_vms (store w)) w"

lemma reachable_vmop_inv:
  assumes "operator_env kc store vm_admit vs_admit rt" and "finalizer_util cu"
    and "reachable_vmop ref_match rt kc cu yaml store w"
  shows "sys_inv ref_match (sto_clusters (store w)) (live_vms (store w))"
  by (rule controller_env.operator_reachable_inv [OF vmop_controller_env [OF assms(1,2)] assms(3)])

lemma sys_start_reachable:
  "reachable_vmop (\<lambda>_. True) mem_runtime mem_client list_finalizers mem_yaml mem_store sys_start"
  by (rule operator_reachable.start)
     (simp_all add: sys_start_store, simp_all add: sys_start_def empty_world_def empty_store_def live_vms_def gone_def)

lemma sys_world_reachable:
  "reachable_vmop (\<lambda>_. True) mem_runtime mem_client list_finalizers mem_yaml mem_store sys_world"
proof (rule operator_reachable.step [OF sys_start_reachable operator_step.create [OF sys_cluster_accepted]])
  show "st_HeadNodeStatus (vc_Status sys_cluster) = zero_VMRayNodeStatus" "st_CurrentWorkers (vc_Status sys_cluster) = None"
    by (simp_all add: sys_cluster_sel webhook_cluster_def)
  show "meta_key (vc_ObjectMeta sys_cluster) = (''ns'', ''ray-1'')" by (simp add: sys_cluster_sel)
  show "sto_clusters (mem_store sys_start) (''ns'', ''ray-1'') = None"
    by (simp add: sys_start_store) (simp add: sys_start_def empty_store_def)
qed (simp_all add: sys_cluster_sel live_vms_def)

lemma sys_deployed_reachable:
  "\<exists>w'. reachable_vmop (\<lambda>_. True) mem_runtime mem_client list_finalizers mem_yaml mem_store w' \<and>
    (''ns'', ''ray-1-h-ab1cd'') \<in> live_vms (mem_store w')"
proof -
  obtain w' where r: "Reconcile mem_runtime mem_client list_finalizers mem_provider ''ns'' ''ray-1'' sys_world = (Returns (60, None), w')"
    and "(''ns'', ''ray-1-h-ab1cd'') \<in> live_vms (mem_store w')" using sys_reconcile by blast
  with operator_reachable.step [OF sys_world_reachable operator_step.reconcile [OF r]] show ?thesis by blast
qed

text \<open>
  C1: the operator leaks no machines. In every state reached by calls of the reconciler, with users
  creating, editing and deleting clusters in between and machines disappearing, every machine that exists belongs to a cluster resource that exists
  in its namespace, has its finalizer, and names the machine as its head or has it on record
  as a worker. Calls may fail at any point, but not after they have deployed a new machine.
\<close>

theorem no_orphan_machines:
  assumes "operator_env kc store vm_admit vs_admit rt" and "finalizer_util cu"
    and "reachable_vmop ref_match rt kc cu yaml store w"
    and "(ns, n) \<in> live_vms (store w)"
  shows "\<exists>c. sto_clusters (store w) (ns, vc_Name c) = Some c \<and> vc_Namespace c = ns \<and>
    finalizerName \<in> set (om_Finalizers (vc_ObjectMeta c)) \<and> (n = head_name c \<or> n \<in> worker_keys c)"
proof -
  note inv = reachable_vmop_inv [OF assms(1-3)]
  with assms(4) have "(ns, n) \<in> machines_of (sto_clusters (store w))" by (auto simp: sys_inv_def)
  then obtain k c where c: "sto_clusters (store w) k = Some c" "(ns, n) \<in> counted c"
    by (auto simp: machines_of_def ran_def)
  from sys_inv_cluster(1) [OF inv c(1)] c show ?thesis
    by (intro exI [of _ c]) (auto simp: meta_key_def counted_def tracked_def split: if_splits)
qed

theorem no_orphan_machines_witness:
  "\<exists>w c. (''ns'', ''ray-1-h-ab1cd'') \<in> live_vms (mem_store w) \<and> sto_clusters (mem_store w) (''ns'', vc_Name c) = Some c \<and>
     (''ray-1-h-ab1cd'' = head_name c \<or> ''ray-1-h-ab1cd'' \<in> worker_keys c)"
proof -
  obtain w where w: "reachable_vmop (\<lambda>_. True) mem_runtime mem_client list_finalizers mem_yaml mem_store w"
    "(''ns'', ''ray-1-h-ab1cd'') \<in> live_vms (mem_store w)" using sys_deployed_reachable by blast
  from no_orphan_machines [OF mem_operator_env list_finalizer_util w] w(2) show ?thesis by blast
qed

text \<open>
  C4: what the stored clusters say can be trusted in the same states: each passes the checks of
  the webhook, and a node it records as running Ray, head or worker, is recorded with a running
  machine and an address.
\<close>

theorem stored_clusters_sound:
  assumes "operator_env kc store vm_admit vs_admit rt" and "finalizer_util cu"
    and "reachable_vmop ref_match rt kc cu yaml store w" and "sto_clusters (store w) (ns, name) = Some c"
  shows "vc_Namespace c = ns \<and> vc_Name c = name \<and> ValidateUpdate ref_match ref_text cs1 cs2 c c = None \<and>
    (\<forall>s. s = st_HeadNodeStatus (vc_Status c) \<or> (\<exists>n. map_of (entries (st_CurrentWorkers (vc_Status c))) n = Some s) \<longrightarrow>
       ns_RayStatus s = RAY_RUNNING \<longrightarrow> ns_VmStatus s = RUNNING \<and> ns_Ip s \<noteq> '''')"
proof -
  note inv = sys_inv_cluster [OF reachable_vmop_inv [OF assms(1-3)] assms(4)]
  have "ValidateUpdate ref_match ref_text cs1 cs2 c c = None"
    using inv(3) by (simp add: ValidateUpdate_def admissible_iff)
  moreover have "node_inv s" if "s = st_HeadNodeStatus (vc_Status c) \<or> (\<exists>n. worker_status c n = Some s)" for s
    using that inv(2) by (auto simp: status_inv_def workers_inv_def)
  ultimately show ?thesis using inv(1) by (auto simp: meta_key_def node_inv_def)
qed

theorem stored_clusters_sound_witness:
  "vc_Name sys_cluster = ''ray-1'' \<and> ValidateUpdate (\<lambda>_. True) ''ref'' [1] [] sys_cluster sys_cluster = None"
proof -
  have "sto_clusters (mem_store sys_world) (''ns'', ''ray-1'') = Some sys_cluster" by (simp add: sys_cluster_sel)
  from stored_clusters_sound [OF mem_operator_env list_finalizer_util sys_world_reachable this] show ?thesis by simp
qed

text \<open>
  C9: the reconciler never panics: whatever the API server answers, for every provider that
  keeps the contract of the interface, every call returns a result. The nil pointers and nil
  maps the code handles are never dereferenced or written to.
\<close>

theorem Reconcile_no_panic:
  assumes "vm_provider pv vms"
  shows "\<exists>requeue err w'. Reconcile rt kc cu pv ns name w = (Returns (requeue, err), w')"
  using vm_provider.Reconcile_returns [OF assms, of rt kc cu ns name w] by auto

theorem Reconcile_no_panic_witness:
  "\<exists>requeue err w'. Reconcile mem_runtime mem_client list_finalizers mem_provider ''ns'' ''ray-1'' sys_world =
     (Returns (requeue, err), w')"
  by (rule Reconcile_no_panic [OF memvmop.vmop.vm_provider_axioms])

section \<open>Properties of one reconciliation\<close>

text \<open>
  C6: reconciling the workers. Machines outside the recorded and the desired workers are never
  touched; no machine drops off the record while it exists, and none is deployed without
  going on the record, whether the call succeeds or not; and when it returns nil the record
  names exactly the desired workers and the machines of all others are gone.
\<close>

theorem workers_converge:
  assumes "controller_env kc store vm_admit vs_admit rt pv vms cu"
    and "reconcileWorkerNodes rt pv c w = (c', Returns r, w')"
  shows "vms w' - {vc_Namespace c} \<times> (worker_keys c \<union> desired_keys c) = vms w - {vc_Namespace c} \<times> (worker_keys c \<union> desired_keys c) \<and>
    vms w' - {vc_Namespace c} \<times> worker_keys c' \<subseteq> vms w - {vc_Namespace c} \<times> worker_keys c \<and>
    (r = None \<longrightarrow> worker_keys c' = desired_keys c \<and>
      vms w' \<inter> {vc_Namespace c} \<times> (worker_keys c - desired_keys c) = {})"
proof -
  note env = controller_env.reconcileWorkerNodes_env [OF assms]
  have keys: "r = None \<longrightarrow> worker_keys c' = desired_keys c" using reconcileWorkerNodes_result [OF assms(2)] by simp
  moreover have "vms w' \<inter> {vc_Namespace c} \<times> (worker_keys c - desired_keys c) = {}" if "r = None"
  proof -
    have "vms w' - {vc_Namespace c} \<times> desired_keys c \<subseteq> vms w - {vc_Namespace c} \<times> worker_keys c"
      using env keys that by simp
    then show ?thesis by blast
  qed
  ultimately show ?thesis using env by simp
qed

definition stale_worker :: VMRayCluster where
  "stale_worker = set_workers (Some [(''w1'', \<lparr>ns_Ip = ''10.0.0.5'', ns_Conditions = [], ns_VmStatus = RUNNING,
     ns_RayStatus = RAY_RUNNING\<rparr>)])
     (sys_cluster\<lparr>vc_Spec := (vc_Spec sys_cluster)\<lparr>spec_AutoscalerDesiredWorkers := None\<rparr>\<rparr>)"

lemma one_worker_removed:
  assumes "vc_Namespace c = ''ns''" and "spec_AutoscalerDesiredWorkers (vc_Spec c) = None"
    and "st_CurrentWorkers (vc_Status c) = Some [(n, s)]"
  shows "\<exists>c' w'. reconcileWorkerNodes mem_runtime mem_provider c w = (c', Returns None, w')"
proof -
  obtain w1 where "Delete mem_client ''ns'' n w = (None, w1)" using mem.Delete_succeeds by blast
  moreover have "vc_Namespace (init_workers c) = ''ns''" "entries (st_CurrentWorkers (vc_Status (init_workers c))) = [(n, s)]"
    "entries (spec_AutoscalerDesiredWorkers (vc_Spec (init_workers c))) = []"
    using assms by (simp_all add: init_workers_def)
  moreover have "map fst (go_range cs [(n, s)]) = [n]" for cs
    by (cases cs) simp_all
  moreover have "rt_range mem_runtime w = (mw_choices w, w)" for w by (simp add: mem_runtime_def)
  moreover have "pv_Delete mem_provider = Delete mem_client" by (simp add: provider_sel)
  ultimately show ?thesis
    by (simp add: reconcileWorkerNodes_def deleteWorkerNodes_def Let_def reconcileDesiredWorkers_def)
qed

lemma stale_worker_run:
  "\<exists>c' w'. reconcileWorkerNodes mem_runtime mem_provider stale_worker w = (c', Returns None, w')"
  by (rule one_worker_removed) (simp_all add: stale_worker_def sys_cluster_sel)

theorem workers_converge_witness:
  "\<exists>c' w'. reconcileWorkerNodes mem_runtime mem_provider stale_worker sys_world = (c', Returns None, w') \<and>
     worker_keys c' = {} \<and> (''ns'', ''w1'') \<notin> live_vms (mem_store w')"
proof -
  obtain c' w' where r: "reconcileWorkerNodes mem_runtime mem_provider stale_worker sys_world = (c', Returns None, w')"
    using stale_worker_run by blast
  have "desired_keys stale_worker = {}" "worker_keys stale_worker = {''w1''}" "vc_Namespace stale_worker = ''ns''"
    by (simp_all add: stale_worker_def sys_cluster_sel)
  with workers_converge [OF memsys.controller_env_axioms r] r show ?thesis by auto
qed

text \<open>
  C8: workers wait for the head. A reconciliation that touches any machine but the head, or the
  record of the workers, has just recorded the head with Ray running, on a running machine
  with an address.
\<close>

theorem workers_wait_for_head:
  assumes "controller_env kc store vm_admit vs_admit rt pv vms cu" and "status_inv (vc_Status c)"
    and "reconcile_head_step rt pv c w = (c', ExitUpdate d, w')"
    and "vms w' - {(vc_Namespace c, head_name c)} \<noteq> vms w - {(vc_Namespace c, head_name c)} \<or>
      st_CurrentWorkers (vc_Status c') \<noteq> st_CurrentWorkers (vc_Status c)"
  shows "ns_RayStatus (st_HeadNodeStatus (vc_Status c')) = RAY_RUNNING \<and>
    ns_VmStatus (st_HeadNodeStatus (vc_Status c')) = RUNNING \<and> ns_Ip (st_HeadNodeStatus (vc_Status c')) \<noteq> ''''"
  using controller_env.reconcile_head_step_waits [OF assms(1,3,2)] assms(4) by (auto simp: Let_def)

text \<open>A cluster whose head runs and which has a worker nobody wants any more, and its head's machine.\<close>

definition running_cluster :: VMRayCluster where
  "running_cluster = upd_status (\<lambda>st. st\<lparr>st_HeadNodeStatus := \<lparr>ns_Ip = ''10.0.0.4'', ns_Conditions = [], ns_VmStatus = RUNNING,
     ns_RayStatus = RAY_RUNNING\<rparr>\<rparr>) stale_worker"

definition running_world :: mem_world where
  "running_world = sys_start\<lparr>mw_store := (mw_store sys_start)\<lparr>sto_virtualmachines := [(''ns'', ''ray-1-h-ab1cd'') \<mapsto>
     (TranslateToVmCRD ''ns'' ''ray-1-h-ab1cd'' ''sec'' [] ''large'' (spec_NodeConfig (vc_Spec sys_cluster)))
       \<lparr>vm_StatusNetwork := Some ''10.0.0.4''\<rparr>]\<rparr>\<rparr>"

lemma running_cluster_sel:
  "vc_Namespace running_cluster = ''ns''" "head_name running_cluster = ''ray-1-h-ab1cd''"
  "st_CurrentWorkers (vc_Status running_cluster) = st_CurrentWorkers (vc_Status stale_worker)"
  "vc_ObjectMeta running_cluster = vc_ObjectMeta sys_cluster"
  using sys_cluster_sel by (simp_all add: running_cluster_def stale_worker_def)

lemma running_cluster_inv: "status_inv (vc_Status running_cluster)"
  by (simp add: running_cluster_def stale_worker_def status_inv_def workers_inv_def node_inv_def valid_VmStatus_def)

lemma running_head:
  "\<exists>w1. reconcileHeadNode mem_provider running_cluster running_world = (running_cluster, Returns None, w1)"
proof -
  have "rget (kc_virtualmachines mem_client) ''ns'' ''ray-1-h-ab1cd'' running_world =
      (Inr ((TranslateToVmCRD ''ns'' ''ray-1-h-ab1cd'' ''sec'' [] ''large'' (spec_NodeConfig (vc_Spec sys_cluster)))
       \<lparr>vm_StatusNetwork := Some ''10.0.0.4''\<rparr>), running_world)"
    by (simp add: mem_api_def running_world_def mem_store_def Let_def keyed_def TranslateToVmCRD_def meta_key_def)
  then have "FetchVmStatus mem_client ''ns'' ''ray-1-h-ab1cd'' running_world =
      ((Some \<lparr>ns_Ip = ''10.0.0.4'', ns_Conditions = [], ns_VmStatus = '''', ns_RayStatus = ''''\<rparr>, None), running_world)"
    by (simp add: FetchVmStatus_def ExtractVmStatus_def TranslateToVmCRD_def)
  then have "ProcessNodeVmState mem_provider (head_request running_cluster) running_world =
      (head_request running_cluster, Returns None, running_world)"
    using running_cluster_sel
    by (simp add: ProcessNodeVmState_def process_RUNNING_def provider_sel head_request_def Let_def set_status_def
        running_cluster_def EMPTY_def INITIALIZED_def RUNNING_def)
  then show ?thesis by (simp add: reconcileHeadNode_def head_request_def Let_def)
qed

lemma running_workers:
  "\<exists>c' w'. reconcileWorkerNodes mem_runtime mem_provider running_cluster w = (c', Returns None, w')"
  by (rule one_worker_removed) (simp_all add: running_cluster_def stale_worker_def sys_cluster_sel)

theorem workers_wait_for_head_witness:
  "\<exists>c' w'. reconcile_head_step mem_runtime mem_provider running_cluster running_world = (c', ExitUpdate 60, w') \<and>
     worker_keys c' = {} \<and> ns_RayStatus (st_HeadNodeStatus (vc_Status c')) = RAY_RUNNING \<and>
     ns_Ip (st_HeadNodeStatus (vc_Status c')) \<noteq> ''''"
proof -
  obtain w1 where h: "reconcileHeadNode mem_provider running_cluster running_world = (running_cluster, Returns None, w1)"
    using running_head by blast
  obtain c' w' where k: "reconcileWorkerNodes mem_runtime mem_provider running_cluster w1 = (c', Returns None, w')"
    using running_workers by blast
  have ray: "ns_RayStatus (st_HeadNodeStatus (vc_Status running_cluster)) = RAY_RUNNING" by (simp add: running_cluster_def)
  with h k have step: "reconcile_head_step mem_runtime mem_provider running_cluster running_world = (c', ExitUpdate 60, w')"
    by (simp add: reconcile_head_step_def reconcile_workers_step_def defaultRequeueDuration_def)
  have keys: "worker_keys c' = {}" using reconcileWorkerNodes_result [OF k] by (simp add: running_cluster_def stale_worker_def)
  then have "st_CurrentWorkers (vc_Status c') \<noteq> st_CurrentWorkers (vc_Status running_cluster)"
    by (auto simp: running_cluster_def stale_worker_def)
  with workers_wait_for_head [OF memsys.controller_env_axioms running_cluster_inv step] step keys show ?thesis by simp
qed

text \<open>
  C15: the validation of the dependencies, when it reports no error, says "invalid" exactly if
  the image, the storage class or the class of some node type does not exist, in whatever
  order the node types are visited and although only neighbouring duplicates are removed; it
  changes nothing on the server and none of the recorded nodes.
\<close>

theorem ValidateAuxiliaryDependencies_exact:
  assumes "operator_env kc store vm_admit vs_admit rt"
    and "ValidateAuxiliaryDependencies rt kc c w = ((c', invalid, None), w')"
  shows "(invalid \<longleftrightarrow> \<not> (sto_vmimages (store w) (vc_Namespace c, nc_VMImage (spec_NodeConfig (vc_Spec c))) \<noteq> None \<and>
       sto_storageclasses (store w) (nc_StorageClass (spec_NodeConfig (vc_Spec c))) \<noteq> None \<and>
       list_all (\<lambda>(_, nt). sto_vmclasses (store w) (vc_Namespace c, nt_VMClass nt) \<noteq> None)
         (nc_NodeTypes (spec_NodeConfig (vc_Spec c))))) \<and>
    store w' = store w \<and> same_nodes c c'"
proof -
  have "dependencies_met (store w) c \<longleftrightarrow>
      sto_vmimages (store w) (vc_Namespace c, nc_VMImage (spec_NodeConfig (vc_Spec c))) \<noteq> None \<and>
      sto_storageclasses (store w) (nc_StorageClass (spec_NodeConfig (vc_Spec c))) \<noteq> None \<and>
      list_all (\<lambda>(_, nt). sto_vmclasses (store w) (vc_Namespace c, nt_VMClass nt) \<noteq> None)
        (nc_NodeTypes (spec_NodeConfig (vc_Spec c)))"
    by (simp add: dependencies_met_def Let_def list_all_iff case_prod_beta)
  with operator_env.ValidateAuxiliaryDependencies_result [OF assms] show ?thesis by blast
qed

theorem ValidateAuxiliaryDependencies_exact_witness:
  "sto_storageclasses (mem_store sys_world) ''fast'' \<noteq> None \<and>
   sto_vmclasses (mem_store sys_world) (''ns'', ''small'') \<noteq> None"
  using ValidateAuxiliaryDependencies_exact [OF mem_operator_env sys_validate]
  by (simp add: sys_cluster_sel webhook_cluster_def)

section \<open>Deletion with the VM operator provider\<close>

text \<open>Everything on the server that a deletion of machines leaves alone.\<close>

definition aux_of :: "api_store \<Rightarrow> (object_key \<rightharpoonup> Secret) \<times> (object_key \<rightharpoonup> ServiceAccount) \<times> (object_key \<rightharpoonup> Role) \<times> (object_key \<rightharpoonup> RoleBinding)" where
  "aux_of s = (sto_secrets s, sto_serviceaccounts s, sto_roles s, sto_rolebindings s)"

lemma Delete_aux:
  assumes "operator_env kc store vm_admit vs_admit rt" and "Delete kc ns n w = (r, w')"
  shows "aux_of (store w') = aux_of (store w)"
  using operator_env.Delete_post [OF assms] by (auto simp: aux_of_def)

lemma deleteNodes_aux:
  assumes "operator_env kc store vm_admit vs_admit rt"
    and "deleteNodes (NewVmOperatorProvider rt kc yaml) names c w = (c', r, w')"
  shows "aux_of (store w') = aux_of (store w)"
  using assms(2)
proof (induction names arbitrary: c w)
  case (Cons n names)
  obtain e w1 where d: "Delete kc (vc_Namespace c) n w = (e, w1)" by fastforce
  with Cons.prems Cons.IH show ?case
    using Delete_aux [OF assms(1) d] by (cases e) (auto simp: deleteNodes_Cons provider_sel simp del: deleteNodes.simps)
qed simp

lemma VMRayClusterDelete_aux:
  assumes "operator_env kc store vm_admit vs_admit rt"
    and "VMRayClusterDelete rt (NewVmOperatorProvider rt kc yaml) c w = (c', None, w')"
  shows "(\<forall>n\<in>set (cluster_secret_names (vc_Name c)). gone sec_meta (sto_secrets (store w')) (vc_Namespace c, n)) \<and>
    identity_gone (store w') (vc_Namespace c, vc_Name c)"
proof -
  obtain w1 w2 where 1: "DeleteAuxiliaryResources kc (vc_Namespace c) (vc_Name c) w = (None, w1)"
    and 2: "Delete kc (vc_Namespace c) (head_name c) w1 = (None, w2)"
    and 3: "deleteWorkerNodes rt (NewVmOperatorProvider rt kc yaml) c True w2 = (c', None, w')"
    using assms(2) by (auto simp: VMRayClusterDelete_def provider_sel split: prod.splits option.splits)
  from 3 obtain names cs w3 where "rt_range rt w2 = (cs, w3)"
    "deleteNodes (NewVmOperatorProvider rt kc yaml) names c w3 = (c', None, w')" by (rule deleteWorkerNodes_names)
  then have "aux_of (store w') = aux_of (store w2)"
    using deleteNodes_aux [OF assms(1)] operator_env.range_store [OF assms(1)] by metis
  also have "\<dots> = aux_of (store w1)" by (rule Delete_aux [OF assms(1) 2])
  finally show ?thesis using DeleteAuxiliaryResources_post [OF assms(1) 1] by (simp add: aux_of_def identity_gone_def)
qed

lemma removeFinalizer_frame:
  assumes "operator_env kc store vm_admit vs_admit rt" and "removeFinalizer kc cu c w = (r, w')"
  shows "\<exists>m. store w' = (store w)\<lparr>sto_clusters := m\<rparr>"
proof -
  have same: "\<exists>m. store w = (store w)\<lparr>sto_clusters := m\<rparr>" by (rule exI [of _ "sto_clusters (store w)"]) simp
  show ?thesis using assms(2) same
    by (auto simp: removeFinalizer_def split: if_splits prod.splits sum.splits
        dest!: kube_api.update_cluster_ok [OF operator_env.axioms(1) [OF assms(1)]]
          kube_api.update_cluster_error [OF operator_env.axioms(1) [OF assms(1)]])
qed

lemma deleteNodes_succeeds:
  assumes "reliable_env kc store vm_admit vs_admit rt"
  shows "\<exists>c' w'. deleteNodes (NewVmOperatorProvider rt kc yaml) names c w = (c', None, w')"
proof (induction names arbitrary: c w)
  case (Cons n names)
  obtain w1 where "Delete kc (vc_Namespace c) n w = (None, w1)"
    using reliable_env.Delete_succeeds [OF assms] by blast
  with Cons.IH [of "drop_workers [n] c" w1] show ?case
    by (simp add: deleteNodes_Cons provider_sel del: deleteNodes.simps)
qed simp

lemma VMRayClusterDelete_succeeds:
  assumes "reliable_env kc store vm_admit vs_admit rt"
  shows "\<exists>c' w'. VMRayClusterDelete rt (NewVmOperatorProvider rt kc yaml) c w = (c', None, w')"
proof -
  obtain w1 where 1: "DeleteAuxiliaryResources kc (vc_Namespace c) (vc_Name c) w = (None, w1)"
    using reliable_env.DeleteAuxiliaryResources_succeeds [OF assms] by blast
  obtain w2 where 2: "Delete kc (vc_Namespace c) (head_name c) w1 = (None, w2)"
    using reliable_env.Delete_succeeds [OF assms] by blast
  obtain cs w3 where range: "rt_range rt w2 = (cs, w3)" by fastforce
  obtain c' w' where "deleteNodes (NewVmOperatorProvider rt kc yaml)
      (map fst (go_range cs (entries (st_CurrentWorkers (vc_Status c))))) c w3 = (c', None, w')"
    using deleteNodes_succeeds [OF assms] by blast
  with range have "deleteWorkerNodes rt (NewVmOperatorProvider rt kc yaml) c True w2 = (c', None, w')"
    by (simp add: deleteWorkerNodes_def)
  with 1 2 show ?thesis by (simp add: VMRayClusterDelete_def provider_sel)
qed

lemma removeFinalizer_succeeds:
  assumes "reliable_env kc store vm_admit vs_admit rt" and "finalizer_util cu"
    and "sto_clusters (store w) (meta_key (vc_ObjectMeta c)) = Some s" and "vc_Spec c = vc_Spec s"
  shows "\<exists>w'. removeFinalizer kc cu c w = (None, w')"
proof -
  let ?c = "c\<lparr>vc_ObjectMeta := cu_RemoveFinalizer cu (vc_ObjectMeta c) finalizerName\<rparr>"
  have "sto_clusters (store w) (meta_key (vc_ObjectMeta ?c)) = Some s"
    using assms(2,3) by (simp add: finalizer_util.remove meta_key_def)
  from reliable_env.update_cluster_present [OF assms(1) this] assms(4) show ?thesis
    by (auto simp: removeFinalizer_def)
qed

lemma deletion_run:
  assumes "reliable_env kc store vm_admit vs_admit rt" and "finalizer_util cu"
    and "sto_clusters (store w) (ns, name) = Some c" and "meta_key (vc_ObjectMeta c) = (ns, name)"
    and "om_DeletionTimestamp (vc_ObjectMeta c) \<noteq> None" and "om_Finalizers (vc_ObjectMeta c) = [finalizerName]"
  shows "\<exists>w'. Reconcile rt kc cu (NewVmOperatorProvider rt kc yaml) ns name w = (Returns (0, None), w') \<and>
    sto_clusters (store w') = (sto_clusters (store w))((ns, name) := None) \<and>
    live_vms (store w') \<inter> {ns} \<times> insert (head_name c) (worker_keys c) = {}"
proof -
  note op = reliable_env.axioms(1) [OF assms(1)]
  note env = vmop_controller_env [OF op assms(2), of yaml]
  obtain w1 where g: "kc_get_cluster kc ns name w = (Inr c, w1)"
    using reliable_env.get_cluster_present [OF assms(1,3)] by blast
  have s1: "store w1 = store w"
    using kube_api.get_cluster_found [OF operator_env.axioms(1) [OF op] g] by simp
  obtain c1 w2 where del: "VMRayClusterDelete rt (NewVmOperatorProvider rt kc yaml) c w1 = (c1, None, w2)"
    using VMRayClusterDelete_succeeds [OF assms(1)] by blast
  note d = controller_env.VMRayClusterDelete_env [OF env del]
  then have c1: "vc_ObjectMeta c1 = vc_ObjectMeta c" "vc_Spec c1 = vc_Spec c" "sto_clusters (store w2) = sto_clusters (store w)"
    using s1 by (simp_all add: controller_env.keeps_def [OF env])
  have st: "sto_clusters (store w2) (ns, name) = Some c" using c1(3) assms(3) by simp
  obtain w' where rem: "removeFinalizer kc cu c1 w2 = (None, w')"
    using removeFinalizer_succeeds [OF assms(1,2), of w2 c1 c] st c1 assms(4)
    by auto
  note gone = controller_env.removeFinalizer_stored [OF env rem st, unfolded c1(1,2), OF assms(4) refl refl assms(5)]
  have "Reconcile rt kc cu (NewVmOperatorProvider rt kc yaml) ns name w = (Returns (0, None), w')"
    using g del rem assms(5) by (auto simp: Reconcile_def fetchVMRayCluster_def)
  moreover have "sto_clusters (store w') = (sto_clusters (store w))((ns, name) := None)"
    using gone c1(3) assms(6) by (auto simp: fun_upd_idem_iff)
  moreover have "live_vms (store w') \<inter> tracked c = {}" using d gone by simp
  ultimately show ?thesis using assms(4) by (auto simp: tracked_def meta_key_def)
qed

text \<open>The running cluster above, with its deletion asked for.\<close>

definition deleting_cluster :: VMRayCluster where
  "deleting_cluster = running_cluster\<lparr>vc_ObjectMeta := (vc_ObjectMeta sys_cluster)\<lparr>om_DeletionTimestamp := Some ''now''\<rparr>\<rparr>"

lemma deleting_cluster_sel:
  "meta_key (vc_ObjectMeta deleting_cluster) = (''ns'', ''ray-1'')" "head_name deleting_cluster = ''ray-1-h-ab1cd''"
  "om_DeletionTimestamp (vc_ObjectMeta deleting_cluster) \<noteq> None"
  "om_Finalizers (vc_ObjectMeta deleting_cluster) = [finalizerName]" "worker_keys deleting_cluster = {''w1''}"
  using sys_cluster_sel
  by (simp_all add: deleting_cluster_def running_cluster_def stale_worker_def sys_cluster_def meta_key_def label_of_def)

abbreviation deleting_world :: mem_world where
  "deleting_world \<equiv> add_cluster deleting_cluster running_world"

lemma deleting_world_cluster: "sto_clusters (mem_store deleting_world) (''ns'', ''ray-1'') = Some deleting_cluster"
  by (simp add: deleting_cluster_sel)

text \<open>
  C3: the finalizer guards the machines. If a cluster had the operator's finalizer before a
  call of the reconciler and it has not afterwards, or the cluster is gone, then its deletion
  was asked for, and in the state the call leaves its head, its recorded workers, its secrets
  and its service account, role and binding are all gone.
\<close>

theorem finalizer_guards:
  assumes "operator_env kc store vm_admit vs_admit rt" and "finalizer_util cu"
    and "Reconcile rt kc cu (NewVmOperatorProvider rt kc yaml) ns name w = (res, w')"
    and "sto_clusters (store w) (ns, name) = Some c" and "finalizerName \<in> set (om_Finalizers (vc_ObjectMeta c))"
    and "\<And>c'. sto_clusters (store w') (ns, name) = Some c' \<Longrightarrow> finalizerName \<notin> set (om_Finalizers (vc_ObjectMeta c'))"
  shows "om_DeletionTimestamp (vc_ObjectMeta c) \<noteq> None \<and>
    live_vms (store w') \<inter> {ns} \<times> insert (head_name c) (worker_keys c) = {} \<and>
    list_all (\<lambda>n. gone sec_meta (sto_secrets (store w')) (ns, n)) (cluster_secret_names name) \<and>
    identity_gone (store w') (ns, name)"
proof -
  note env = vmop_controller_env [OF assms(1,2), of yaml]
  obtain c1 w1 w2 where s1: "store w1 = store w" and
    del: "VMRayClusterDelete rt (NewVmOperatorProvider rt kc yaml) c w1 = (c1, None, w2)" and
    rem: "removeFinalizer kc cu c1 w2 = (None, w')" and
    t: "om_DeletionTimestamp (vc_ObjectMeta c) \<noteq> None" and k: "meta_key (vc_ObjectMeta c) = (ns, name)"
    by (rule controller_env.finalizer_dropped [OF env assms(3-6)])
  obtain m where same: "store w' = (store w2)\<lparr>sto_clusters := m\<rparr>" using removeFinalizer_frame [OF assms(1) rem] by blast
  have "live_vms (store w2) \<inter> tracked c = {}" using controller_env.VMRayClusterDelete_env [OF env del] by simp
  moreover have "live_vms (store w') = live_vms (store w2)" using same by (simp add: live_vms_def)
  moreover have "\<forall>n\<in>set (cluster_secret_names name). gone sec_meta (sto_secrets (store w2)) (ns, n)" "identity_gone (store w2) (ns, name)"
    using VMRayClusterDelete_aux [OF assms(1) del] k by (simp_all add: meta_key_def)
  ultimately show ?thesis using t k same
    by (simp add: tracked_def meta_key_def list_all_iff identity_gone_def)
qed

theorem finalizer_guards_witness:
  "\<exists>res w'. Reconcile mem_runtime mem_client list_finalizers mem_provider ''ns'' ''ray-1'' deleting_world = (res, w') \<and>
     (''ns'', ''ray-1-h-ab1cd'') \<notin> live_vms (mem_store w') \<and> (''ns'', ''w1'') \<notin> live_vms (mem_store w') \<and>
     identity_gone (mem_store w') (''ns'', ''ray-1'')"
proof -
  obtain w' where r: "Reconcile mem_runtime mem_client list_finalizers mem_provider ''ns'' ''ray-1'' deleting_world = (Returns (0, None), w')"
    and none: "sto_clusters (mem_store w') (''ns'', ''ray-1'') = None"
    using deletion_run [OF mem_reliable_env list_finalizer_util deleting_world_cluster deleting_cluster_sel(1,3,4), of mem_yaml] by auto
  have "finalizerName \<in> set (om_Finalizers (vc_ObjectMeta deleting_cluster))" by (simp add: deleting_cluster_sel)
  from finalizer_guards [OF mem_operator_env list_finalizer_util r deleting_world_cluster this] none r
  show ?thesis by (auto simp: deleting_cluster_sel)
qed

text \<open>
  C7: deletion gets done. On a server without faults, one call for a cluster whose deletion
  has been asked for and which has only the operator's finalizer succeeds and removes the
  cluster, together with everything the operator made for it.
\<close>

theorem deletion_completes:
  assumes "reliable_env kc store vm_admit vs_admit rt" and "finalizer_util cu"
    and "sto_clusters (store w) (ns, name) = Some c" and "meta_key (vc_ObjectMeta c) = (ns, name)"
    and "om_DeletionTimestamp (vc_ObjectMeta c) \<noteq> None" and "om_Finalizers (vc_ObjectMeta c) = [finalizerName]"
  shows "\<exists>w'. Reconcile rt kc cu (NewVmOperatorProvider rt kc yaml) ns name w = (Returns (0, None), w') \<and>
    sto_clusters (store w') = (sto_clusters (store w))((ns, name) := None) \<and>
    live_vms (store w') \<inter> {ns} \<times> insert (head_name c) (worker_keys c) = {}"
  using assms by (rule deletion_run)

theorem deletion_completes_witness:
  "\<exists>w'. Reconcile mem_runtime mem_client list_finalizers mem_provider ''ns'' ''ray-1'' deleting_world = (Returns (0, None), w') \<and>
     sto_clusters (mem_store w') (''ns'', ''ray-1'') = None"
  using deletion_completes [OF mem_reliable_env list_finalizer_util deleting_world_cluster deleting_cluster_sel(1,3,4), of mem_yaml] by auto

lemma alphanumeric_lower: "x \<in> set alphanumeric \<Longrightarrow> is_lower_alnum x"
  by (auto simp: alphanumeric_def is_lower_def is_digit_def)





end
