(* ===== verification/Vmop_Live.thy ===== *)
theory Vmop_Live
  imports Vmop_Provider Node_Lcm
begin

text \<open>
  The VM operator provider and one node in an environment without faults: the API server does
  what it is asked, and the machines and services that exist have been given their addresses by
  the VM operator. From any recorded status every call then brings a node closer to a running
  Ray process, whether its machine exists or not.
\<close>

section \<open>What the VM operator reports\<close>

definition has_address :: "VirtualMachine option \<Rightarrow> bool" where
  "has_address v = (case v of None \<Rightarrow> True
     | Some vm \<Rightarrow> (case vm_StatusNetwork vm of None \<Rightarrow> False | Some ip \<Rightarrow> ip \<noteq> ''''))"

definition has_ingress :: "VirtualMachineService option \<Rightarrow> bool" where
  "has_ingress v = (case v of None \<Rightarrow> True
     | Some s \<Rightarrow> (case vs_Ingress s of [] \<Rightarrow> False | ip # _ \<Rightarrow> ip \<noteq> ''''))"

text \<open>
  What the VM operator does between two calls of the reconciler: machines and services that
  exist get an address; which of them exist, and every other object, stays as it is.
\<close>

definition vmop_reports :: "api_store \<Rightarrow> api_store \<Rightarrow> bool" where
  "vmop_reports s s' \<longleftrightarrow>
     s' = s\<lparr>sto_virtualmachines := sto_virtualmachines s', sto_vmservices := sto_vmservices s'\<rparr> \<and>
     dom (sto_virtualmachines s') = dom (sto_virtualmachines s) \<and> dom (sto_vmservices s') = dom (sto_vmservices s) \<and>
     (\<forall>k. has_address (sto_virtualmachines s' k) \<and> has_ingress (sto_vmservices s' k))"

section \<open>What a deployment needs\<close>

text \<open>
  The root certificate is in place; the secret of the SSH key is missing or complete; the key
  and the service account exist, which workers need and the head's deployment provides.
\<close>

definition root_valid :: "api_store \<Rightarrow> object_key \<Rightarrow> bool" where
  "root_valid s k \<longleftrightarrow> (\<exists>r crt key. sto_secrets s (root_key (fst k) (snd k)) = Some r \<and>
     map_of (sec_Data r) rootCaCertKey = Some crt \<and> map_of (sec_Data r) rootCaKeyKey = Some key)"

definition ssh_fine :: "api_store \<Rightarrow> object_key \<Rightarrow> bool" where
  "ssh_fine s k \<longleftrightarrow> sto_secrets s (fst k, GetSshKeysSecretName (snd k)) = None \<or> (\<exists>p. has_ssh_key s (fst k) (snd k) p)"

definition worker_ready :: "api_store \<Rightarrow> object_key \<Rightarrow> bool" where
  "worker_ready s k \<longleftrightarrow> (\<exists>p. has_ssh_key s (fst k) (snd k) p) \<and> sto_serviceaccounts s k \<noteq> None"

lemmas boot_defs = root_valid_def ssh_fine_def worker_ready_def has_ssh_key_def

text \<open>What every step of a cluster keeps: the clusters, what its machines depend on, and what is in place.\<close>

definition steady :: "object_key \<Rightarrow> api_store \<Rightarrow> api_store \<Rightarrow> bool" where
  "steady k s s' \<longleftrightarrow> sto_clusters s' = sto_clusters s \<and> sto_vmimages s' = sto_vmimages s \<and>
     sto_storageclasses s' = sto_storageclasses s \<and> sto_vmclasses s' = sto_vmclasses s \<and>
     (root_valid s k \<longrightarrow> root_valid s' k) \<and> (ssh_fine s k \<longrightarrow> ssh_fine s' k) \<and> (worker_ready s k \<longrightarrow> worker_ready s' k)"

lemma steady_refl [simp]: "steady k s s"
  by (simp add: steady_def)

lemma steady_trans [trans]: "steady k s s1 \<Longrightarrow> steady k s1 s2 \<Longrightarrow> steady k s s2"
  by (simp add: steady_def)

lemma steady_machines [simp]:
  "steady k s (s\<lparr>sto_virtualmachines := v\<rparr>)" "steady k s (s\<lparr>sto_vmservices := u\<rparr>)"
  "steady k s (s\<lparr>sto_virtualmachines := v, sto_vmservices := u\<rparr>)"
  "steady k s (s\<lparr>sto_vmservices := u, sto_virtualmachines := v\<rparr>)"
  by (simp_all add: steady_def boot_defs)

lemma root_name_not_node_name: "node_secret_name req \<noteq> vdr_ClusterName req @ RootCaSecretSuffix"
  using cluster_secret_names_distinct [of "vdr_ClusterName req"]
  by (auto simp: cluster_secret_names_def node_secret_name_def)

lemma steady_secrets:
  assumes "secrets_upd K s s'" and "root_key (fst k) (snd k) \<notin> K" and "has_ssh_key s' (fst k) (snd k) p"
  shows "steady k s s' \<and> (sto_serviceaccounts s k \<noteq> None \<longrightarrow> worker_ready s' k)"
proof -
  have "root_valid s k \<longrightarrow> root_valid s' k"
    using secrets_upd_lookup [OF assms(1,2)] by (simp add: root_valid_def)
  then show ?thesis using assms(1,3) by (auto simp: steady_def secrets_upd_def ssh_fine_def worker_ready_def)
qed

abbreviation vdr_cluster :: "VmDeploymentRequest \<Rightarrow> object_key" where
  "vdr_cluster req \<equiv> (vdr_Namespace req, vdr_ClusterName req)"

definition can_deploy :: "api_store \<Rightarrow> VmDeploymentRequest \<Rightarrow> bool" where
  "can_deploy s req \<longleftrightarrow> dr_AuthSecretName (vdr_DockerConfig req) = '''' \<and>
     vdr_NodeType req \<in> gomap_keys (nc_NodeTypes (vdr_NodeConfig req)) \<and>
     root_valid s (vdr_cluster req) \<and> ssh_fine s (vdr_cluster req) \<and>
     (vdr_HeadNodeStatus req \<noteq> None \<longrightarrow> worker_ready s (vdr_cluster req))"

section \<open>The calls of the provider\<close>

context reliable_env
begin

lemma node_ssh_key_succeeds:
  assumes "ssh_fine (store w) (vdr_cluster req)"
    and "vdr_HeadNodeStatus req \<noteq> None \<Longrightarrow> worker_ready (store w) (vdr_cluster req)"
  shows "\<exists>k w'. node_ssh_key rt kc req w = (Inr k, w')"
proof (cases "vdr_HeadNodeStatus req")
  case None
  then show ?thesis using assms(1) getOrCreatePrivateKeySecret_succeeds
    by (fastforce simp: node_ssh_key_def ssh_fine_def)
next
  case (Some st)
  with assms(2) node_ssh_key_existing show ?thesis by (fastforce simp: worker_ready_def)
qed

text \<open>The identity of a head, and nothing for a worker: afterwards the service account is there.\<close>

lemma Deploy_identity:
  assumes "can_deploy (store w) req"
  obtains labels w1 where "Deploy rt kc yaml req w = submit_vm rt kc yaml req labels w1"
    "can_deploy (store w1) req" "sto_serviceaccounts (store w1) (vdr_cluster req) \<noteq> None"
    "steady (vdr_cluster req) (store w) (store w1)" "sto_vmservices (store w1) = sto_vmservices (store w)"
    "sto_virtualmachines (store w1) = sto_virtualmachines (store w)"
proof (cases "vdr_HeadNodeStatus req")
  case (Some st)
  with assms that [of "[]" w] show thesis by (simp add: Deploy_def can_deploy_def worker_ready_def)
next
  case None
  obtain w1 where 1: "CreateServiceAccountAndRole kc (vdr_Namespace req) (vdr_ClusterName req) w = (None, w1)"
    using CreateServiceAccountAndRole_succeeds by blast
  note post = CreateServiceAccountAndRole_post [OF 1]
  show thesis
  proof (rule that)
    show "Deploy rt kc yaml req w = submit_vm rt kc yaml req [(HeadVMServiceAnnotation, vdr_VmName req)] w1"
      using None 1 by (simp add: Deploy_def)
    show "can_deploy (store w1) req" using assms None unfolding post by (simp add: can_deploy_def boot_defs)
    show "sto_serviceaccounts (store w1) (vdr_cluster req) \<noteq> None" unfolding post by (simp split: option.splits)
    show "steady (vdr_cluster req) (store w) (store w1)" unfolding post by (simp add: steady_def boot_defs split: option.splits)
  qed (simp_all add: post)
qed

text \<open>
  A deployment fails only when its machine is in the way, and whatever happens to the machine,
  everything the workers need is in place afterwards.
\<close>

lemma Deploy_run:
  assumes "\<And>c. \<exists>y. yaml c = Inr y" and "can_deploy (store w) req" and "Deploy rt kc yaml req w = (r, w')"
  shows "steady (vdr_cluster req) (store w) (store w') \<and> worker_ready (store w') (vdr_cluster req) \<and>
    sto_vmservices (store w') = sto_vmservices (store w) \<and>
    (\<exists>z. sto_virtualmachines (store w') = (sto_virtualmachines (store w))(vdr_key req := z) \<and>
      (r = None \<longrightarrow> z \<noteq> None) \<and> (sto_virtualmachines (store w) (vdr_key req) = None \<longrightarrow> r = None) \<and>
      (\<forall>e. r = Some e \<longrightarrow> IsAlreadyExists e \<longrightarrow> z \<noteq> None))"
proof -
  obtain labels w1 where d: "Deploy rt kc yaml req w = submit_vm rt kc yaml req labels w1"
    and can: "can_deploy (store w1) req" and sa: "sto_serviceaccounts (store w1) (vdr_cluster req) \<noteq> None"
    and st1: "steady (vdr_cluster req) (store w) (store w1)"
    and same1: "sto_vmservices (store w1) = sto_vmservices (store w)"
      "sto_virtualmachines (store w1) = sto_virtualmachines (store w)"
    by (rule Deploy_identity [OF assms(2), of yaml])
  have boot: "boot_ready (store w1) (vdr_Namespace req) (vdr_ClusterName req)"
    using can sa by (simp add: can_deploy_def boot_ready_def root_valid_def)
  obtain k v where "node_ssh_key rt kc req w1 = (Inr k, v)"
    using node_ssh_key_succeeds [of w1 req] can unfolding can_deploy_def by blast
  with CreateCloudInitSecret_with_key [of yaml, OF assms(1) boot] can obtain sec ex w2 where
    sec: "CreateCloudInitSecret rt kc yaml req w1 = (Inr (sec, ex), w2)" by (fastforce simp: can_deploy_def)
  from CreateCloudInitSecret_post [OF sec] obtain p where
    u: "secrets_upd {(vdr_Namespace req, GetSshKeysSecretName (vdr_ClusterName req)), node_secret_key req} (store w1) (store w2)"
    and p: "has_ssh_key (store w2) (vdr_Namespace req) (vdr_ClusterName req) p" by blast
  have "root_key (vdr_Namespace req) (vdr_ClusterName req) \<notin>
      {(vdr_Namespace req, GetSshKeysSecretName (vdr_ClusterName req)), node_secret_key req}"
    using root_name_not_ssh_name [of "vdr_ClusterName req"] root_name_not_node_name [of req] by auto
  with steady_secrets [OF u, of "vdr_cluster req" p] p sa have st2: "steady (vdr_cluster req) (store w1) (store w2)"
    and wr: "worker_ready (store w2) (vdr_cluster req)" by simp_all
  have same2: "sto_vmservices (store w2) = sto_vmservices (store w)"
    "sto_virtualmachines (store w2) = sto_virtualmachines (store w)" using u same1 by (auto simp: secrets_upd_def)
  obtain cls where cls: "getVmClass (vdr_NodeType req) (vdr_NodeConfig req) = Inr cls"
    using getVmClass_present can unfolding can_deploy_def by blast
  let ?vm = "TranslateToVmCRD (vdr_Namespace req) (vdr_VmName req) (om_Name (sec_meta sec)) labels cls (vdr_NodeConfig req)"
  obtain c w3 where cr: "rcreate (kc_virtualmachines kc) ?vm w2 = (c, w3)" by fastforce
  from assms(3) d sec cls cr have w': "w' = w3" and r: "r = (case c of Inl e \<Rightarrow> Some e | Inr _ \<Rightarrow> None)"
    by (auto simp: submit_vm_def split: sum.splits)
  have fresh: "sto_virtualmachines (store w) (vdr_key req) = None \<longrightarrow> r = None"
    using rvirtualmachines.create_absent [of w2 ?vm] cr same2 r by auto
  have "\<exists>z. store w3 = (store w2)\<lparr>sto_virtualmachines := (sto_virtualmachines (store w))(vdr_key req := z)\<rparr> \<and>
    (r = None \<longrightarrow> z \<noteq> None) \<and> (\<forall>e. r = Some e \<longrightarrow> IsAlreadyExists e \<longrightarrow> z \<noteq> None)"
  proof (cases c)
    case (Inr y)
    with virtualmachines.create_ok [OF cr [unfolded Inr]] same2 r show ?thesis by (intro exI [of _ "Some (vm_admit ?vm)"]) simp
  next
    case (Inl e)
    show ?thesis
    proof (cases "IsAlreadyExists e")
      case True
      with virtualmachines.create_exists [OF cr [unfolded Inl]] same2 r Inl show ?thesis
        by (intro exI [of _ "sto_virtualmachines (store w) (vdr_key req)"]) simp
    next
      case False
      with virtualmachines.create_error [OF cr [unfolded Inl]] same2 r Inl show ?thesis by auto
    qed
  qed
  then obtain z where z: "store w3 = (store w2)\<lparr>sto_virtualmachines := (sto_virtualmachines (store w))(vdr_key req := z)\<rparr>"
    "r = None \<longrightarrow> z \<noteq> None" "\<forall>e. r = Some e \<longrightarrow> IsAlreadyExists e \<longrightarrow> z \<noteq> None" by (elim exE conjE) (rule that)
  have "steady (vdr_cluster req) (store w) (store w3)"
    unfolding z(1) by (rule steady_trans [OF st1 steady_trans [OF st2 steady_machines(1)]])
  moreover have "worker_ready (store w3) (vdr_cluster req)"
    using wr steady_machines(1) [of "vdr_cluster req" "store w2"] unfolding z(1) steady_def by blast
  moreover have "sto_vmservices (store w3) = sto_vmservices (store w)"
    "sto_virtualmachines (store w3) = (sto_virtualmachines (store w))(vdr_key req := z)"
    by (simp_all add: z(1) same2)
  ultimately show ?thesis unfolding w' using fresh z(2,3) by (intro conjI exI [of _ z]) simp_all
qed

end

lemma steady_services: "store w' = (store w)\<lparr>sto_vmservices := u\<rparr> \<Longrightarrow> steady k (store w) (store w')"
  for store :: "'w \<Rightarrow> api_store"
  by simp

context reliable_env
begin

lemma FetchVmStatus_run:
  assumes "has_address (sto_virtualmachines (store w) (ns, n))" and "FetchVmStatus kc ns n w = (r, w')"
  shows "store w' = store w \<and>
    (case sto_virtualmachines (store w) (ns, n) of
       None \<Rightarrow> \<exists>e. r = (None, Some e) \<and> IsNotFound e
     | Some vm \<Rightarrow> \<exists>st. r = (Some st, None) \<and> vm_StatusNetwork vm = Some (ns_Ip st) \<and> ns_Ip st \<noteq> '''')"
proof (cases "sto_virtualmachines (store w) (ns, n)")
  case None
  with rvirtualmachines.get_absent obtain e v where "rget (kc_virtualmachines kc) ns n w = (Inl e, v)" "IsNotFound e" by blast
  with assms(2) None FetchVmStatus_store [OF assms(2)] show ?thesis by (auto simp: FetchVmStatus_def)
next
  case (Some vm)
  with get_vm_present obtain v where "rget (kc_virtualmachines kc) ns n w = (Inr vm, v)" by blast
  with assms Some FetchVmStatus_store [OF assms(2)] show ?thesis
    by (auto simp: FetchVmStatus_def ExtractVmStatus_def has_address_def split: option.splits)
qed

abbreviation (input) service_key :: "VmDeploymentRequest \<Rightarrow> object_key" where
  "service_key req \<equiv> (vdr_Namespace req, GetHeadNodeName (vdr_ClusterName req) (vdr_Nounce req))"

lemma DeployVmService_run:
  assumes "has_ingress (sto_vmservices (store w) (service_key req))" and "DeployVmService rt kc req w = (r, w')"
  shows "(\<exists>u. store w' = (store w)\<lparr>sto_vmservices := (sto_vmservices (store w))(service_key req \<mapsto> u)\<rparr>) \<and>
    (if sto_vmservices (store w) (service_key req) = None then r = ('''', None)
     else store w' = store w \<and> (\<exists>ip. r = (ip, None) \<and> ip \<noteq> ''''))"
proof (cases "sto_vmservices (store w) (service_key req)")
  case None
  let ?n = "GetHeadNodeName (vdr_ClusterName req) (vdr_Nounce req)"
  obtain e w1 where g: "rget (kc_vmservices kc) (vdr_Namespace req) ?n w = (Inl e, w1)" "IsNotFound e"
    using rvmservices.get_absent [OF None] by blast
  then have s1: "store w1 = store w" using vmservices.get_error by blast
  obtain c w2 where c: "createVMService rt kc (vdr_Namespace req) ?n (service_ports req) [(HeadVMServiceAnnotation, ?n)] w1 = (c, w2)"
    by fastforce
  obtain cs v where v: "rt_range rt w1 = (cs, v)" by fastforce
  have "\<exists>y v'. rcreate (kc_vmservices kc) \<lparr>vs_meta = new_meta (vdr_Namespace req) ?n, vs_Selector = [(HeadVMServiceAnnotation, ?n)],
      vs_Ports = map vm_service_port (go_range cs (service_ports req)), vs_Type = ''LoadBalancer'', vs_Ingress = []\<rparr> v = (Inr y, v')"
    by (rule rvmservices.create_absent) (simp add: None s1 range_store [OF v])
  then have "c = None" using c v by (auto simp: createVMService_def)
  with createVMService_post [OF c] s1 have "\<exists>u. store w2 = (store w)\<lparr>sto_vmservices := (sto_vmservices (store w))(service_key req \<mapsto> u)\<rparr>"
    by auto
  with None g c \<open>c = None\<close> assms(2) show ?thesis by (auto simp: DeployVmService_def Let_def)
next
  case (Some s)
  from rvmservices.get_present [OF Some] obtain w1 where
    g: "rget (kc_vmservices kc) (vdr_Namespace req) (GetHeadNodeName (vdr_ClusterName req) (vdr_Nounce req)) w = (Inr s, w1)" by blast
  with vmservices.get_found have s1: "store w1 = store w" by blast
  from Some assms(1) obtain ip rest where "vs_Ingress s = ip # rest" "ip \<noteq> ''''"
    by (auto simp: has_ingress_def split: list.splits)
  with g assms(2) s1 Some show ?thesis
    by (auto simp: DeployVmService_def Let_def fun_upd_idem intro!: exI [of _ s])
qed

end

section \<open>One node\<close>

text \<open>
  How many calls a node may still need: given whether its machine exists, whether the service it
  waits for exists, and its recorded status.
\<close>

definition node_distance :: "bool \<Rightarrow> bool \<Rightarrow> VMRayNodeStatus \<Rightarrow> nat" where
  "node_distance vm svc st = (let wait = (if svc then 0 else 1); s = ns_VmStatus st in
     if s = RUNNING then (if vm then (if ns_RayStatus st = RAY_RUNNING then 0 else 1) else 5 + wait)
     else if s = INITIALIZED then (if vm then 2 else 5 + wait)
     else if s = FAIL then (if vm then 3 else 4 + wait)
     else (if vm then 5 + wait else 3 + wait))"

lemma node_distance_bound: "node_distance vm svc st \<le> (if svc then 5 else 6)"
  by (simp add: node_distance_def Let_def)

lemma node_distance_cases:
  "ns_VmStatus st = RUNNING \<Longrightarrow> node_distance vm svc st =
     (if vm then (if ns_RayStatus st = RAY_RUNNING then 0 else 1) else if svc then 5 else 6)"
  "ns_VmStatus st = INITIALIZED \<Longrightarrow> node_distance vm svc st = (if vm then 2 else if svc then 5 else 6)"
  "ns_VmStatus st = FAIL \<Longrightarrow> node_distance vm svc st = (if vm then 3 else if svc then 4 else 5)"
  "ns_VmStatus st = EMPTY \<Longrightarrow> node_distance vm svc st = (if vm then if svc then 5 else 6 else if svc then 3 else 4)"
  by (simp_all add: node_distance_def Let_def EMPTY_def RUNNING_def INITIALIZED_def FAIL_def)

text \<open>The machine runs with the recorded address, and so does Ray.\<close>

definition node_up :: "VirtualMachine option \<Rightarrow> VMRayNodeStatus \<Rightarrow> bool" where
  "node_up v st \<longleftrightarrow> ns_VmStatus st = RUNNING \<and> ns_RayStatus st = RAY_RUNNING \<and> ns_Ip st \<noteq> '''' \<and>
     (case v of None \<Rightarrow> False | Some vm \<Rightarrow> vm_StatusNetwork vm = Some (ns_Ip st))"

abbreviation lr_service :: "NodeLcmRequest \<Rightarrow> object_key" where
  "lr_service req \<equiv> (lr_Namespace req, GetHeadNodeName (lr_Clustername req) (lr_Nounce req))"

definition request_distance :: "api_store \<Rightarrow> NodeLcmRequest \<Rightarrow> VMRayNodeStatus \<Rightarrow> nat" where
  "request_distance s req = node_distance (sto_virtualmachines s (lr_key req) \<noteq> None)
     (lr_HeadNodeStatus req = None \<longrightarrow> sto_vmservices s (lr_service req) \<noteq> None)"

definition node_ready :: "api_store \<Rightarrow> NodeLcmRequest \<Rightarrow> bool" where
  "node_ready s req \<longleftrightarrow> can_deploy s (deploymentRequest req) \<and> valid_VmStatus (lr_VmStatus req) \<and>
     has_address (sto_virtualmachines s (lr_key req)) \<and>
     (lr_HeadNodeStatus req = None \<longrightarrow> lr_VMServiceStatus req \<noteq> None \<and> has_ingress (sto_vmservices s (lr_service req)))"

text \<open>What one call may do to the store, and how far it gets the node.\<close>

definition node_progress :: "NodeLcmRequest \<Rightarrow> api_store \<Rightarrow> api_store \<Rightarrow> bool" where
  "node_progress req s s' \<longleftrightarrow> steady (lr_Namespace req, lr_Clustername req) s s' \<and>
     (\<exists>z. sto_virtualmachines s' = (sto_virtualmachines s)(lr_key req := z) \<and>
        (z = sto_virtualmachines s (lr_key req) \<or> worker_ready s' (lr_Namespace req, lr_Clustername req))) \<and>
     (sto_vmservices s' = sto_vmservices s \<or> lr_HeadNodeStatus req = None \<and>
        (\<exists>u. sto_vmservices s' = (sto_vmservices s)(lr_service req \<mapsto> u)))"

lemma node_progress_refl [simp]: "node_progress req s s"
  by (auto simp: node_progress_def intro!: exI [of _ "sto_virtualmachines s (lr_key req)"])

context reliable_env
begin

lemma deploy_node_run:
  assumes "\<And>c. \<exists>y. yaml c = Inr y" and "can_deploy (store w) dr" and "vdr_cluster dr = (lr_Namespace req, lr_Clustername req)"
    and "vdr_key dr = lr_key req" and "lr_HeadNodeStatus req = None \<longrightarrow> sto_vmservices (store w) (lr_service req) \<noteq> None"
    and "lr_VmStatus req = EMPTY"
    and "deploy_node (NewVmOperatorProvider rt kc yaml) dr req w = (req', res, w')"
  shows "node_progress req (store w) (store w') \<and>
    (\<exists>err. res = Returns err \<and> request_distance (store w') req (lr_NodeStatus req') \<le>
       request_distance (store w) req (lr_NodeStatus req) - 1 \<and> request_distance (store w') req (lr_NodeStatus req') \<noteq> 0 \<and>
       lr_VmStatus req' \<noteq> RUNNING)"
proof -
  obtain r v where d: "Deploy rt kc yaml dr w = (r, v)" by fastforce
  from Deploy_run [of yaml, OF assms(1,2) d] assms(3,4) obtain z where
    run: "steady (lr_Namespace req, lr_Clustername req) (store w) (store v)"
      "worker_ready (store v) (lr_Namespace req, lr_Clustername req)" "sto_vmservices (store v) = sto_vmservices (store w)"
      "sto_virtualmachines (store v) = (sto_virtualmachines (store w))(lr_key req := z)"
      "r = None \<longrightarrow> z \<noteq> None" "sto_virtualmachines (store w) (lr_key req) = None \<longrightarrow> r = None"
      "\<forall>e. r = Some e \<longrightarrow> IsAlreadyExists e \<longrightarrow> z \<noteq> None" by auto
  have prog: "node_progress req (store w) (store v)" using run(1-4) by (auto simp: node_progress_def)
  let ?ok = "r = None \<or> (\<exists>e. r = Some e \<and> IsAlreadyExists e)"
  from assms(7) d have res: "(req', res, w') = (if ?ok then (set_VmStatus INITIALIZED req, Returns None, v)
      else (set_VmStatus FAIL req, Returns r, v))"
    by (auto simp: deploy_node_def provider_sel IgnoreAlreadyExists_def split: option.splits if_splits)
  have dist: "request_distance (store w) req (lr_NodeStatus req) = (if sto_virtualmachines (store w) (lr_key req) = None then 3 else 5)"
    using assms(5,6) by (simp add: request_distance_def node_distance_cases)
  show ?thesis
  proof (cases ?ok)
    case True
    with run(5,7) have "z \<noteq> None" by blast
    moreover from True res have "req' = set_VmStatus INITIALIZED req" "res = Returns None" "w' = v" by simp_all
    ultimately show ?thesis using run(3,4) assms(5) prog dist
      by (simp add: set_status_def request_distance_def node_distance_cases(2) INITIALIZED_def RUNNING_def)
  next
    case False
    with run(6) have "sto_virtualmachines (store w) (lr_key req) \<noteq> None" by blast
    moreover from False res have "req' = set_VmStatus FAIL req" "res = Returns r" "w' = v" by (simp_all only: if_False prod.inject)
    ultimately show ?thesis using run(3,4) assms(5) prog dist
      by (auto simp: set_status_def request_distance_def node_distance_cases(3) FAIL_def RUNNING_def)
  qed
qed

end

context reliable_env
begin

lemma process_EMPTY_run:
  assumes "\<And>c. \<exists>y. yaml c = Inr y" and "node_ready (store w) req" and "lr_VmStatus req = EMPTY"
    and "process_EMPTY (NewVmOperatorProvider rt kc yaml) req w = (req', res, w')"
  shows "node_progress req (store w) (store w') \<and>
    (\<exists>err. res = Returns err \<and> request_distance (store w') req (lr_NodeStatus req') \<le>
       request_distance (store w) req (lr_NodeStatus req) - 1 \<and> request_distance (store w') req (lr_NodeStatus req') \<noteq> 0 \<and>
       lr_VmStatus req' \<noteq> RUNNING)"
proof (cases "lr_HeadNodeStatus req")
  case (Some st)
  with assms(4) have d: "deploy_node (NewVmOperatorProvider rt kc yaml) (deploymentRequest req) req w = (req', res, w')"
    by (simp add: process_EMPTY_def)
  show ?thesis
    by (rule deploy_node_run [of yaml, OF assms(1) _ _ _ _ assms(3) d]) (use assms(2) Some in \<open>simp_all add: node_ready_def\<close>)
next
  case None
  obtain ip e w1 where 1: "DeployVmService rt kc (deploymentRequest req) w = ((ip, e), w1)" by (metis surj_pair)
  have k: "service_key (deploymentRequest req) = lr_service req" by simp
  from assms(2) None have hi: "has_ingress (sto_vmservices (store w) (service_key (deploymentRequest req)))"
    unfolding k by (simp add: node_ready_def)
  note run = DeployVmService_run [OF hi 1, unfolded k]
  from assms(2) None obtain sv where sv: "lr_VMServiceStatus req = Some sv" by (auto simp: node_ready_def)
  show ?thesis
  proof (cases "sto_vmservices (store w) (lr_service req)")
    case absent: None
    with run 1 assms(4) None have "req' = req" "res = Returns None" "w' = w1"
      by (simp_all add: process_EMPTY_def provider_sel)
    moreover from run obtain u where u: "store w1 = (store w)\<lparr>sto_vmservices := (sto_vmservices (store w))(lr_service req \<mapsto> u)\<rparr>" by blast
    then have "node_progress req (store w) (store w1)" using None
      by (auto simp: node_progress_def intro!: exI [of _ "sto_virtualmachines (store w) (lr_key req)"])
    ultimately show ?thesis using absent u None assms(3)
      by (simp add: request_distance_def node_distance_cases)
  next
    case (Some s)
    with run have ok: "e = None" "ip \<noteq> ''''" "store w1 = store w" by auto
    let ?req = "req\<lparr>lr_VMServiceStatus := Some (sv\<lparr>svc_Ip := ip\<rparr>)\<rparr>"
    let ?dr = "(deploymentRequest req)\<lparr>vdr_VmService := ip\<rparr>"
    have d: "deploy_node (NewVmOperatorProvider rt kc yaml) ?dr ?req w1 = (req', res, w')"
      using assms(4) 1 ok None sv by (simp add: process_EMPTY_def provider_sel)
    have can: "can_deploy (store w1) ?dr" using assms(2) ok by (simp add: node_ready_def can_deploy_def)
    have "vdr_cluster ?dr = (lr_Namespace ?req, lr_Clustername ?req)" "vdr_key ?dr = lr_key ?req" by simp_all
    from deploy_node_run [of yaml, OF assms(1) can this _ _ d] Some ok assms(3)
    show ?thesis by (simp add: node_progress_def request_distance_def)
  qed
qed

text \<open>
  The step: within its own machine and service, every call of the manager brings the node at
  least one step closer; a node that has arrived is reported without an error.
\<close>

lemma node_step:
  assumes "\<And>c. \<exists>y. yaml c = Inr y" and "node_ready (store w) req"
    and "ProcessNodeVmState (NewVmOperatorProvider rt kc yaml) req w = (req', res, w')"
  shows "node_progress req (store w) (store w') \<and>
    (\<exists>err. res = Returns err \<and> request_distance (store w') req (lr_NodeStatus req') \<le>
       request_distance (store w) req (lr_NodeStatus req) - 1 \<and>
       (request_distance (store w') req (lr_NodeStatus req') = 0 \<longrightarrow>
          err = None \<and> node_up (sto_virtualmachines (store w') (lr_key req)) (lr_NodeStatus req')) \<and>
       (err = None \<longrightarrow> lr_VmStatus req' = RUNNING \<longrightarrow> sto_virtualmachines (store w') (lr_key req) \<noteq> None))"
proof (cases "lr_VmStatus req = EMPTY")
  case True
  with assms(3) have "process_EMPTY (NewVmOperatorProvider rt kc yaml) req w = (req', res, w')"
    by (simp add: ProcessNodeVmState_def)
  from process_EMPTY_run [of yaml, OF assms(1,2) True this] show ?thesis by auto
next
  case False
  obtain st e v where f: "FetchVmStatus kc (lr_Namespace req) (lr_Name req) w = ((st, e), v)" by (metis surj_pair)
  have "has_address (sto_virtualmachines (store w) (lr_key req))" using assms(2) by (simp add: node_ready_def)
  note run = FetchVmStatus_run [OF this f]
  consider (init) "lr_VmStatus req = INITIALIZED" | (running) "lr_VmStatus req = RUNNING" | (fail) "lr_VmStatus req = FAIL"
    using assms(2) False by (auto simp: node_ready_def valid_VmStatus_def)
  then show ?thesis
  proof cases
    case init
    then have p: "process_INITIALIZED (NewVmOperatorProvider rt kc yaml) req w = (req', res, w')"
      using assms(3) by (simp add: ProcessNodeVmState_def EMPTY_def INITIALIZED_def)
    show ?thesis using p f run init
      by (auto simp: process_INITIALIZED_def provider_sel set_status_def Let_def request_distance_def node_distance_cases
          RAY_INITIALIZED_def RAY_RUNNING_def split: option.splits)
  next
    case running
    then have p: "process_RUNNING (NewVmOperatorProvider rt kc yaml) req w = (req', res, w')"
      using assms(3) by (simp add: ProcessNodeVmState_def EMPTY_def INITIALIZED_def RUNNING_def)
    show ?thesis using p f run running
      by (auto simp: process_RUNNING_def mark_failed_def provider_sel set_status_def Let_def request_distance_def
          node_distance_cases node_up_def split: option.splits)
  next
    case fail
    then have p: "process_FAIL (NewVmOperatorProvider rt kc yaml) req w = (req', res, w')"
      using assms(3) by (simp add: ProcessNodeVmState_def EMPTY_def INITIALIZED_def RUNNING_def FAIL_def)
    show ?thesis using p f run fail
      by (auto simp: process_FAIL_def provider_sel set_status_def Let_def request_distance_def node_distance_cases
          split: option.splits)
  qed
qed

end

end
