(* ===== verification/Cluster_Up.thy ===== *)
theory Cluster_Up
  imports Operator_System Vmop_Live
begin

text \<open>
  Liveness of the whole operator: in an environment without faults, in which the VM operator
  gives the machines and services that exist their addresses between two calls, repeated calls
  of the reconciler bring every cluster up, whatever its status records and whichever of its
  machines exist, within a number of calls that depends on the number of desired workers only.
\<close>

section \<open>The environment\<close>

text \<open>
  On top of the reliable environment: lookups of images and classes and the patch of the
  status succeed, the bootstrap configuration can be serialised, and finalizers are kept as
  documented.
\<close>

locale working_env = reliable_env kc store vm_admit vs_admit rt + finalizer_util cu
  for kc :: "'w kube_client"
    and store :: "'w \<Rightarrow> api_store"
    and vm_admit :: "VirtualMachine \<Rightarrow> VirtualMachine"
    and vs_admit :: "VirtualMachineService \<Rightarrow> VirtualMachineService"
    and rt :: "'w go_runtime"
    and cu :: controllerutil +
  fixes yaml :: "RayBootstrapConfig \<Rightarrow> go_error + string"
  assumes yaml_total: "\<exists>y. yaml b = Inr y"
    and image_present: "sto_vmimages (store w) (ns, n) \<noteq> None \<Longrightarrow> \<exists>x w'. rget (kc_vmimages kc) ns n w = (Inr x, w')"
    and storageclass_present: "sto_storageclasses (store w) n \<noteq> None \<Longrightarrow> \<exists>x w'. kc_get_storageclass kc ns n w = (Inr x, w')"
    and vmclass_present: "sto_vmclasses (store w) (ns, n) \<noteq> None \<Longrightarrow> \<exists>x w'. rget (kc_vmclasses kc) ns n w = (Inr x, w')"
    and patch_present: "sto_clusters (store w) (meta_key (vc_ObjectMeta c)) \<noteq> None \<Longrightarrow>
      \<exists>c' w'. kc_patch_status kc orig c w = (Inr c', w')"

lemma mem_working_env: "working_env mem_client mem_store id id mem_runtime list_finalizers mem_yaml"
  by (intro working_env.intro mem_reliable_env list_finalizer_util working_env_axioms.intro mem_yaml_total)
     (auto simp: mem_client_def mem_api_def Let_def)

sublocale working_env \<subseteq> ctrl: controller_env kc store vm_admit vs_admit rt "NewVmOperatorProvider rt kc yaml"
  "\<lambda>w. live_vms (store w)" cu
  by (rule vmop_controller_env [OF operator_env_axioms finalizer_util_axioms])

interpretation memwork: working_env mem_client mem_store id id mem_runtime list_finalizers mem_yaml
  by (rule mem_working_env)

section \<open>What a cluster needs, and how far it has come\<close>

abbreviation cluster_id :: "VMRayCluster \<Rightarrow> object_key" where
  "cluster_id c \<equiv> (vc_Namespace c, vc_Name c)"

abbreviation node_types :: "VMRayCluster \<Rightarrow> string set" where
  "node_types c \<equiv> gomap_keys (nc_NodeTypes (spec_NodeConfig (vc_Spec c)))"

abbreviation desired_workers :: "VMRayCluster \<Rightarrow> string gomap" where
  "desired_workers c \<equiv> entries (spec_AutoscalerDesiredWorkers (vc_Spec c))"

text \<open>The plan: no private registry, node types that exist, and workers not named like a head.\<close>

definition plan_ok :: "VMRayCluster \<Rightarrow> bool" where
  "plan_ok c \<longleftrightarrow> dr_AuthSecretName (spec_DockerConfig (vc_Spec c)) = '''' \<and>
     hn_NodeType (spec_HeadNode (vc_Spec c)) \<in> node_types c \<and> gomap_wf (desired_workers c) \<and>
     (\<forall>ty \<in> snd ` set (desired_workers c). ty \<in> node_types c) \<and>
     (\<forall>n \<in> worker_keys c \<union> desired_keys c. \<not> prefix (GetHeadNodeName (vc_Name c) '''') n)"

text \<open>The server: nothing half made, and the head's machine, if it exists, has what workers need.\<close>

definition place_ready :: "api_store \<Rightarrow> VMRayCluster \<Rightarrow> bool" where
  "place_ready s c \<longleftrightarrow> dependencies_met s c \<and> ssh_fine s (cluster_id c) \<and>
     (\<forall>n. sto_virtualmachines s (vc_Namespace c, GetHeadNodeName (vc_Name c) n) \<noteq> None \<longrightarrow> worker_ready s (cluster_id c))"

definition worker_distance :: "api_store \<Rightarrow> VMRayCluster \<Rightarrow> string \<Rightarrow> nat" where
  "worker_distance s c n = node_distance (sto_virtualmachines s (vc_Namespace c, n) \<noteq> None) True
     (case worker_status c n of None \<Rightarrow> zero_VMRayNodeStatus | Some st \<Rightarrow> st)"

definition head_distance :: "api_store \<Rightarrow> VMRayCluster \<Rightarrow> nat" where
  "head_distance s c = node_distance (sto_virtualmachines s (vc_Namespace c, head_name c) \<noteq> None)
     (sto_vmservices s (vc_Namespace c, head_name c) \<noteq> None) (st_HeadNodeStatus (vc_Status c))"

definition cluster_distance :: "api_store \<Rightarrow> VMRayCluster \<Rightarrow> nat" where
  "cluster_distance s c = head_distance s c + (\<Sum>n\<in>desired_keys c. worker_distance s c n)"

lemma finite_desired [simp]: "finite (desired_keys c)"
  by simp

lemma cluster_distance_bound: "cluster_distance s c \<le> 6 + 5 * card (desired_keys c)"
proof -
  have "worker_distance s c n \<le> 5" for n
    unfolding worker_distance_def by (rule node_distance_bound [of _ True, simplified])
  then have "(\<Sum>n\<in>desired_keys c. worker_distance s c n) \<le> of_nat (card (desired_keys c)) * 5"
    by (intro sum_bounded_above)
  moreover have "head_distance s c \<le> 6"
    unfolding head_distance_def by (rule order_trans [OF node_distance_bound]) simp
  ultimately show ?thesis by (simp add: cluster_distance_def)
qed

text \<open>Up: the head and exactly the desired workers run, with the addresses the server knows.\<close>

definition worker_up :: "api_store \<Rightarrow> VMRayCluster \<Rightarrow> string \<Rightarrow> bool" where
  "worker_up s c n \<longleftrightarrow> (case worker_status c n of None \<Rightarrow> False
     | Some st \<Rightarrow> node_up (sto_virtualmachines s (vc_Namespace c, n)) st)"

definition cluster_up :: "api_store \<Rightarrow> VMRayCluster \<Rightarrow> bool" where
  "cluster_up s c \<longleftrightarrow> node_up (sto_virtualmachines s (vc_Namespace c, head_name c)) (st_HeadNodeStatus (vc_Status c)) \<and>
     worker_keys c = desired_keys c \<and> (\<forall>n \<in> desired_keys c. worker_up s c n)"

section \<open>The workers\<close>

lemma worker_request_sel:
  "request_distance s (worker_request c n ty st0) st = node_distance (sto_virtualmachines s (vc_Namespace c, n) \<noteq> None) True st"
  "lr_NodeStatus (worker_request c n ty st) = st" "lr_key (worker_request c n ty st) = (vc_Namespace c, n)"
  "lr_HeadNodeStatus (worker_request c n ty st) \<noteq> None"
  "(lr_Namespace (worker_request c n ty st), lr_Clustername (worker_request c n ty st)) = cluster_id c"
  by (simp_all add: request_distance_def worker_request_def Let_def)

text \<open>What a worker's machine needs of the server.\<close>

definition workers_ready :: "api_store \<Rightarrow> object_key \<Rightarrow> bool" where
  "workers_ready s k \<longleftrightarrow> root_valid s k \<and> ssh_fine s k \<and> worker_ready s k"

lemma workers_ready_steady: "workers_ready s k \<Longrightarrow> steady k s s' \<Longrightarrow> workers_ready s' k"
  by (simp add: workers_ready_def steady_def)

text \<open>
  A stage that deals with some workers: none of them falls back, one that has not arrived comes
  closer if there is one, and if all have arrived the stage succeeds and finds them up.
\<close>

definition workers_progress ::
  "string set \<Rightarrow> VMRayCluster \<Rightarrow> api_store \<Rightarrow> VMRayCluster \<Rightarrow> api_store \<Rightarrow> go_error option \<Rightarrow> bool" where
  "workers_progress N c s c' s' r \<longleftrightarrow> steady (cluster_id c) s s' \<and>
     (\<forall>n\<in>N. worker_distance s' c' n \<le> worker_distance s c n) \<and>
     ((\<exists>n\<in>N. worker_distance s c n \<noteq> 0) \<longrightarrow> (\<exists>n\<in>N. worker_distance s' c' n < worker_distance s c n)) \<and>
     ((\<forall>n\<in>N. worker_distance s c n = 0) \<longrightarrow> r = None \<and> (\<forall>n\<in>N. worker_up s' c' n))"

lemma workers_progress_empty [simp]: "workers_progress {} c s c s None"
  by (simp add: workers_progress_def)

lemma workers_progress_cong:
  assumes "workers_progress N c1 s1 c' s' r" and "steady (cluster_id c) s s'"
    and "\<And>n. n \<in> N \<Longrightarrow> worker_distance s1 c1 n = worker_distance s c n"
  shows "workers_progress N c s c' s' r"
  using assms by (simp add: workers_progress_def cong: ball_cong bex_cong)

lemma workers_progress_sum:
  assumes "workers_progress N c s c' s' r" and "finite N"
  shows "(\<Sum>n\<in>N. worker_distance s' c' n) \<le> (\<Sum>n\<in>N. worker_distance s c n) - 1"
proof (cases "\<exists>n\<in>N. worker_distance s c n \<noteq> 0")
  case True
  with assms have "(\<Sum>n\<in>N. worker_distance s' c' n) < (\<Sum>n\<in>N. worker_distance s c n)"
    unfolding workers_progress_def by (intro sum_strict_mono_ex1) auto
  then show ?thesis by simp
next
  case False
  with assms(1) show ?thesis by (simp add: workers_progress_def)
qed

lemma workers_progress_error:
  assumes "steady (cluster_id c) s s'" and "x \<in> N" and "worker_distance s' c' x < worker_distance s c x"
    and "\<And>n. n \<noteq> x \<Longrightarrow> worker_distance s' c' n = worker_distance s c n"
  shows "workers_progress N c s c' s' r"
proof -
  have "worker_distance s' c' n \<le> worker_distance s c n" for n using assms(3,4) by (cases "n = x") simp_all
  with assms(1-3) show ?thesis unfolding workers_progress_def by (metis not_less_zero)
qed

lemma workers_progress_insert:
  assumes "steady (cluster_id c) s s1" and "workers_progress N c1 s1 c' s' r" and "x \<notin> N"
    and "\<And>n. n \<noteq> x \<Longrightarrow> worker_distance s1 c1 n = worker_distance s c n" and "cluster_id c1 = cluster_id c"
    and "worker_distance s' c' x \<le> worker_distance s c x - 1" and "worker_distance s' c' x = 0 \<Longrightarrow> worker_up s' c' x"
  shows "workers_progress (insert x N) c s c' s' r"
proof -
  have N: "worker_distance s1 c1 n = worker_distance s c n" if "n \<in> N" for n using that assms(3,4) by metis
  have st: "steady (cluster_id c) s s'" using assms(1,2,5) steady_trans unfolding workers_progress_def by metis
  show ?thesis
  proof (cases "worker_distance s c x = 0")
    case True
    with assms(6,7) have "worker_distance s' c' x = 0" "worker_up s' c' x" by simp_all
    with st assms(2) N True show ?thesis unfolding workers_progress_def by auto
  next
    case False
    with assms(6) have "worker_distance s' c' x < worker_distance s c x" by simp
    with st assms(2) N False show ?thesis unfolding workers_progress_def by auto
  qed
qed

context working_env
begin

abbreviation provider :: "'w VmProvider" where
  "provider \<equiv> NewVmOperatorProvider rt kc yaml"

lemma worker_step:
  assumes "workers_ready (store w) (cluster_id c)" and "dr_AuthSecretName (spec_DockerConfig (vc_Spec c)) = ''''"
    and "ty \<in> node_types c" and "has_address (sto_virtualmachines (store w) (vc_Namespace c, n))"
    and "valid_VmStatus (ns_VmStatus st)"
    and "ProcessNodeVmState provider (worker_request c n ty st) w = (req, res, w')"
  shows "steady (cluster_id c) (store w) (store w') \<and> sto_vmservices (store w') = sto_vmservices (store w) \<and>
    (\<exists>z. sto_virtualmachines (store w') = (sto_virtualmachines (store w))((vc_Namespace c, n) := z) \<and>
    (\<exists>err. res = Returns err \<and> node_distance (z \<noteq> None) True (lr_NodeStatus req) \<le>
       node_distance (sto_virtualmachines (store w) (vc_Namespace c, n) \<noteq> None) True st - 1 \<and>
       (node_distance (z \<noteq> None) True (lr_NodeStatus req) = 0 \<longrightarrow> err = None \<and> node_up z (lr_NodeStatus req))))"
proof -
  let ?r = "worker_request c n ty st"
  have "node_ready (store w) ?r"
    using assms(1-5) by (simp add: node_ready_def can_deploy_def workers_ready_def worker_request_def Let_def)
  from node_step [of yaml, OF yaml_total this assms(6)] show ?thesis
    unfolding worker_request_sel node_progress_def by (fastforce simp: worker_request_sel(4))
qed

lemma desired_steps_progress:
  assumes "desired_workers_steps provider xs c w = (c', res, w')" and "st_CurrentWorkers (vc_Status c) = Some m"
    and "distinct (map fst xs)" and "workers_ready (store w) (cluster_id c)"
    and "dr_AuthSecretName (spec_DockerConfig (vc_Spec c)) = ''''" and "\<forall>ty \<in> snd ` set xs. ty \<in> node_types c"
    and "\<forall>n \<in> fst ` set xs. has_address (sto_virtualmachines (store w) (vc_Namespace c, n)) \<and>
      (\<forall>st. map_of m n = Some st \<longrightarrow> valid_VmStatus (ns_VmStatus st))"
  shows "\<exists>r m'. res = Returns r \<and> c' = set_workers (Some m') c \<and>
    sto_vmservices (store w') = sto_vmservices (store w) \<and>
    (\<forall>k. k \<notin> {vc_Namespace c} \<times> fst ` set xs \<longrightarrow> sto_virtualmachines (store w') k = sto_virtualmachines (store w) k) \<and>
    (\<forall>n. n \<notin> fst ` set xs \<longrightarrow> map_of m' n = map_of m n) \<and>
    workers_progress (fst ` set xs) c (store w) c' (store w') r"
  using assms
proof (induction xs arbitrary: c w m)
  case Nil
  then show ?case by (intro exI [of _ None] exI [of _ m]) simp
next
  case (Cons x xs)
  obtain name ty where x: "x = (name, ty)" by fastforce
  let ?N = "\<lambda>n. (vc_Namespace c, n)"
  let ?s = "case map_of m name of None \<Rightarrow> zero_VMRayNodeStatus | Some s \<Rightarrow> s"
  have ws: "worker_status c = map_of m" using Cons.prems(2) by simp
  obtain req rs w1 where p: "ProcessNodeVmState provider (worker_request c name ty ?s) w = (req, rs, w1)"
    by (metis surj_pair)
  have "valid_VmStatus (ns_VmStatus ?s)" using Cons.prems(7) x
    by (auto simp: zero_VMRayNodeStatus_def valid_VmStatus_def EMPTY_def split: option.splits)
  with worker_step [OF Cons.prems(4,5) _ _ _ p] Cons.prems(6,7) x obtain z err where
    st1: "steady (cluster_id c) (store w) (store w1)" "sto_vmservices (store w1) = sto_vmservices (store w)" and
    vm1: "sto_virtualmachines (store w1) = (sto_virtualmachines (store w))(?N name := z)" and rs: "rs = Returns err" and
    d1: "node_distance (z \<noteq> None) True (lr_NodeStatus req) \<le> node_distance (sto_virtualmachines (store w) (?N name) \<noteq> None) True ?s - 1"
      "node_distance (z \<noteq> None) True (lr_NodeStatus req) = 0 \<longrightarrow> err = None \<and> node_up z (lr_NodeStatus req)"
    by auto
  let ?m = "gomap_set m name (lr_NodeStatus req)" and ?c = "set_workers (Some (gomap_set m name (lr_NodeStatus req))) c"
  have result: "(case err of Some e \<Rightarrow> (?c, Returns (Some e), w1) | None \<Rightarrow> desired_workers_steps provider xs ?c w1) = (c', res, w')"
    using Cons.prems(1,2) x p rs by (simp add: Let_def)
  have wd: "worker_distance (store w) c name = node_distance (sto_virtualmachines (store w) (?N name) \<noteq> None) True ?s"
    using ws by (simp add: worker_distance_def)
  have other: "worker_distance (store w1) ?c n = worker_distance (store w) c n" if "n \<noteq> name" for n
    using that vm1 ws by (simp add: worker_distance_def)
  have ne: "name \<notin> fst ` set xs" using Cons.prems(3) x by auto
  show ?case
  proof (cases err)
    case (Some e)
    with result have fin: "c' = ?c" "res = Returns (Some e)" "w' = w1" by simp_all
    have lt: "worker_distance (store w1) ?c name < worker_distance (store w) c name"
      using d1 Some vm1 by (simp add: wd) (simp add: worker_distance_def)
    have "workers_progress (fst ` set (x # xs)) c (store w) ?c (store w1) (Some e)"
      by (rule workers_progress_error [OF st1(1) _ lt other]) (simp add: x)
    then show ?thesis unfolding fin
      by (intro exI [of _ "Some e"] exI [of _ ?m]) (use st1(2) vm1 x in auto)
  next
    case None
    with result have rest: "desired_workers_steps provider xs ?c w1 = (c', res, w')" by simp
    have m: "st_CurrentWorkers (vc_Status ?c) = Some ?m" by simp
    have dist: "distinct (map fst xs)" using Cons.prems(3) by simp
    have ready: "workers_ready (store w1) (cluster_id ?c)" using workers_ready_steady [OF Cons.prems(4) st1(1)] by simp
    have plan: "dr_AuthSecretName (spec_DockerConfig (vc_Spec ?c)) = ''''" "\<forall>ty \<in> snd ` set xs. ty \<in> node_types ?c"
      using Cons.prems(5,6) by simp_all
    have mach: "\<forall>n \<in> fst ` set xs. has_address (sto_virtualmachines (store w1) (vc_Namespace ?c, n)) \<and>
      (\<forall>st. map_of ?m n = Some st \<longrightarrow> valid_VmStatus (ns_VmStatus st))"
    proof
      fix n assume n: "n \<in> fst ` set xs"
      with ne have "n \<noteq> name" by blast
      moreover have "n \<in> fst ` set (x # xs)" using n by simp
      then have "has_address (sto_virtualmachines (store w) (?N n)) \<and> (\<forall>st. map_of m n = Some st \<longrightarrow> valid_VmStatus (ns_VmStatus st))"
        using Cons.prems(7) by blast
      ultimately show "has_address (sto_virtualmachines (store w1) (vc_Namespace ?c, n)) \<and>
        (\<forall>st. map_of ?m n = Some st \<longrightarrow> valid_VmStatus (ns_VmStatus st))" using vm1 by simp
    qed
    from Cons.IH [OF rest m dist ready plan mach] obtain r m' where ih: "res = Returns r" "c' = set_workers (Some m') ?c"
      "sto_vmservices (store w') = sto_vmservices (store w1)"
      "\<forall>k. k \<notin> {vc_Namespace ?c} \<times> fst ` set xs \<longrightarrow> sto_virtualmachines (store w') k = sto_virtualmachines (store w1) k"
      "\<forall>n. n \<notin> fst ` set xs \<longrightarrow> map_of m' n = map_of ?m n"
      "workers_progress (fst ` set xs) ?c (store w1) c' (store w') r"
      by (elim exE conjE) (rule that)
    have vn: "sto_virtualmachines (store w') (?N name) = z" using ih(4) ne by (simp add: vm1)
    have sn: "worker_status c' name = Some (lr_NodeStatus req)" using ih(2,5) ne by simp
    have dn: "worker_distance (store w') c' name = node_distance (z \<noteq> None) True (lr_NodeStatus req)"
      using vn sn by (simp add: worker_distance_def ih(2))
    have "workers_progress (insert name (fst ` set xs)) c (store w) c' (store w') r"
    proof (rule workers_progress_insert [OF st1(1) ih(6) ne other])
      show "worker_distance (store w') c' name \<le> worker_distance (store w) c name - 1" using d1(1) by (simp only: dn wd)
      show "worker_up (store w') c' name" if "worker_distance (store w') c' name = 0"
        using that [unfolded dn] d1(2) vn sn by (simp add: worker_up_def ih(2))
    qed simp_all
    then show ?thesis using ih(1-3) st1(2)
      by (intro exI [of _ r] exI [of _ m'] conjI) (use ih(4,5) vm1 x in auto)
  qed
qed

text \<open>Deleting workers succeeds and leaves every other machine and service alone.\<close>

lemma deleteNodes_live:
  "\<exists>w'. deleteNodes provider names c w = (drop_workers names c, None, w') \<and> steady k (store w) (store w') \<and>
    (\<forall>a. a \<notin> {vc_Namespace c} \<times> set names \<longrightarrow> sto_virtualmachines (store w') a = sto_virtualmachines (store w) a \<and>
      sto_vmservices (store w') a = sto_vmservices (store w) a)"
proof (induction names arbitrary: c w)
  case (Cons n names)
  obtain w1 where d: "Delete kc (vc_Namespace c) n w = (None, w1)" using Delete_succeeds by blast
  from Delete_post [OF d] obtain x z where s1: "store w1 = (store w)
    \<lparr>sto_vmservices := (sto_vmservices (store w))((vc_Namespace c, n) := x),
     sto_virtualmachines := (sto_virtualmachines (store w))((vc_Namespace c, n) := z)\<rparr>" by blast
  then have st1: "steady k (store w) (store w1)" by simp
  from Cons.IH [of "drop_workers [n] c" w1] obtain w' where ih:
    "deleteNodes provider names (drop_workers [n] c) w1 = (drop_workers (n # names) c, None, w')" "steady k (store w1) (store w')"
    "\<forall>a. a \<notin> {vc_Namespace c} \<times> set names \<longrightarrow> sto_virtualmachines (store w') a = sto_virtualmachines (store w1) a \<and>
      sto_vmservices (store w') a = sto_vmservices (store w1) a"
    unfolding drop_workers_Cons drop_workers_sel by (elim exE conjE) (rule that)
  have "deleteNodes provider (n # names) c w = (drop_workers (n # names) c, None, w')"
    using d ih(1) by (simp add: deleteNodes_Cons provider_sel del: deleteNodes.simps)
  moreover have "steady k (store w) (store w')" using st1 ih(2) by (rule steady_trans)
  moreover have "\<forall>a. a \<notin> {vc_Namespace c} \<times> set (n # names) \<longrightarrow> sto_virtualmachines (store w') a = sto_virtualmachines (store w) a \<and>
      sto_vmservices (store w') a = sto_vmservices (store w) a"
    using ih(3) s1 by auto
  ultimately show ?case by blast
qed simp

lemma deleteWorkerNodes_live:
  assumes "deleteWorkerNodes rt provider c all w = (c', r, w')"
  shows "r = None \<and> (\<exists>ds. c' = drop_workers ds c \<and> set ds = deletable c all) \<and> steady k (store w) (store w') \<and>
    (\<forall>a. a \<notin> {vc_Namespace c} \<times> deletable c all \<longrightarrow> sto_virtualmachines (store w') a = sto_virtualmachines (store w) a \<and>
      sto_vmservices (store w') a = sto_vmservices (store w) a)"
proof -
  from assms obtain names cs w1 where range: "rt_range rt w = (cs, w1)"
    and d: "deleteNodes provider names c w1 = (c', r, w')" and n: "set names = deletable c all"
    by (rule deleteWorkerNodes_names)
  obtain w2 where live: "deleteNodes provider names c w1 = (drop_workers names c, None, w2)" "steady k (store w1) (store w2)"
    "\<forall>a. a \<notin> {vc_Namespace c} \<times> set names \<longrightarrow> sto_virtualmachines (store w2) a = sto_virtualmachines (store w1) a \<and>
      sto_vmservices (store w2) a = sto_vmservices (store w1) a"
    using deleteNodes_live [of names c w1 k] by (elim exE conjE) (rule that)
  from d live(1) have "c' = drop_workers names c" "r = None" "w' = w2" by simp_all
  with live(2,3) n range_store [OF range] show ?thesis by auto
qed

lemma reconcileWorkerNodes_live:
  assumes "reconcileWorkerNodes rt provider c w = (c', res, w')" and "workers_ready (store w) (cluster_id c)"
    and "plan_ok c" and "workers_inv (entries (st_CurrentWorkers (vc_Status c)))"
    and "\<forall>n \<in> desired_keys c. has_address (sto_virtualmachines (store w) (vc_Namespace c, n))"
  shows "\<exists>r. res = Returns r \<and> workers_progress (desired_keys c) c (store w) c' (store w') r \<and>
    (\<forall>a. a \<notin> {vc_Namespace c} \<times> (worker_keys c \<union> desired_keys c) \<longrightarrow>
       sto_virtualmachines (store w') a = sto_virtualmachines (store w) a \<and> sto_vmservices (store w') a = sto_vmservices (store w) a)"
proof -
  let ?i = "init_workers c"
  have init: "worker_status ?i = worker_status c" "desired_workers ?i = desired_workers c" "vc_ObjectMeta ?i = vc_ObjectMeta c"
    "st_CurrentWorkers (vc_Status ?i) \<noteq> None" "node_types ?i = node_types c"
    "spec_DockerConfig (vc_Spec ?i) = spec_DockerConfig (vc_Spec c)"
    by (simp_all add: init_workers_def)
  obtain c1 r1 w1 where d: "deleteWorkerNodes rt provider ?i False w = (c1, r1, w1)" by (metis surj_pair)
  from deleteWorkerNodes_live [OF d, of "cluster_id c"] obtain ds where r1: "r1 = None" and c1: "c1 = drop_workers ds ?i"
    and ds: "set ds = deletable ?i False" and st1: "steady (cluster_id c) (store w) (store w1)"
    and frame1: "\<forall>a. a \<notin> {vc_Namespace ?i} \<times> deletable ?i False \<longrightarrow>
      sto_virtualmachines (store w1) a = sto_virtualmachines (store w) a \<and> sto_vmservices (store w1) a = sto_vmservices (store w) a"
    by (elim exE conjE) (rule that)
  have del: "deletable ?i False = worker_keys c - desired_keys c"
    unfolding deletable_def gomap_keys_dom init by auto
  have sel: "vc_ObjectMeta c1 = vc_ObjectMeta c" "desired_workers c1 = desired_workers c" "node_types c1 = node_types c"
    "spec_DockerConfig (vc_Spec c1) = spec_DockerConfig (vc_Spec c)"
    by (simp_all add: c1 init)
  have ws1: "worker_status c1 n = worker_status c n" if "n \<in> desired_keys c" for n
    using that ds del by (simp add: c1 init(1) restrict_map_def)
  have vm1: "sto_virtualmachines (store w1) (vc_Namespace c, n) = sto_virtualmachines (store w) (vc_Namespace c, n)"
    if "n \<in> desired_keys c" for n using that frame1 del init(3) by simp
  have wd1: "worker_distance (store w1) c1 n = worker_distance (store w) c n" if "n \<in> desired_keys c" for n
    using ws1 [OF that] vm1 [OF that] by (simp add: worker_distance_def sel(1))
  obtain m where m: "st_CurrentWorkers (vc_Status c1) = Some m" using init(4) by (auto simp: c1 drop_workers_def)
  from r1 d assms(1) have rd: "reconcileDesiredWorkers rt provider c1 w1 = (c', res, w')"
    by (simp add: reconcileWorkerNodes_def)
  obtain cs w2 where range: "rt_range rt w1 = (cs, w2)" by fastforce
  have s2: "store w2 = store w1" by (rule range_store [OF range])
  let ?xs = "go_range cs (desired_workers c)"
  from rd range have steps: "desired_workers_steps provider ?xs c1 w2 = (c', res, w')"
    by (simp add: reconcileDesiredWorkers_def sel(2))
  have xs: "distinct (map fst ?xs)" "fst ` set ?xs = desired_keys c" using assms(3) by (simp_all add: plan_ok_def gomap_wf_def)
  have ready: "workers_ready (store w2) (cluster_id c1)"
    using workers_ready_steady [OF assms(2) st1] by (simp add: s2 sel(1))
  have plan: "dr_AuthSecretName (spec_DockerConfig (vc_Spec c1)) = ''''" "\<forall>ty \<in> snd ` set ?xs. ty \<in> node_types c1"
    using assms(3) by (simp_all add: plan_ok_def sel)
  have mach: "\<forall>n \<in> fst ` set ?xs. has_address (sto_virtualmachines (store w2) (vc_Namespace c1, n)) \<and>
      (\<forall>st. map_of m n = Some st \<longrightarrow> valid_VmStatus (ns_VmStatus st))"
    unfolding xs(2)
  proof
    fix n assume n: "n \<in> desired_keys c"
    have "map_of m n = worker_status c n" using ws1 [OF n] m by simp
    moreover have "has_address (sto_virtualmachines (store w) (vc_Namespace c, n))" using assms(5) n by blast
    ultimately show "has_address (sto_virtualmachines (store w2) (vc_Namespace c1, n)) \<and>
      (\<forall>st. map_of m n = Some st \<longrightarrow> valid_VmStatus (ns_VmStatus st))"
      using assms(4) vm1 [OF n] by (simp add: s2 sel(1) workers_inv_def node_inv_def)
  qed
  from desired_steps_progress [OF steps m xs(1) ready plan mach] obtain r m' where run:
    "res = Returns r" "sto_vmservices (store w') = sto_vmservices (store w2)"
    "\<forall>k. k \<notin> {vc_Namespace c1} \<times> fst ` set ?xs \<longrightarrow> sto_virtualmachines (store w') k = sto_virtualmachines (store w2) k"
    "workers_progress (fst ` set ?xs) c1 (store w2) c' (store w') r"
    by (elim exE conjE) (rule that)
  have "steady (cluster_id c) (store w1) (store w')" using run(4) by (simp add: workers_progress_def s2 sel(1))
  with st1 have "steady (cluster_id c) (store w) (store w')" by (rule steady_trans)
  then have "workers_progress (desired_keys c) c (store w) c' (store w') r"
    by (rule workers_progress_cong [OF run(4) [unfolded xs(2) s2]]) (rule wd1)
  moreover have "\<forall>a. a \<notin> {vc_Namespace c} \<times> (worker_keys c \<union> desired_keys c) \<longrightarrow>
      sto_virtualmachines (store w') a = sto_virtualmachines (store w) a \<and> sto_vmservices (store w') a = sto_vmservices (store w) a"
    using run(2,3) frame1 unfolding xs(2) s2 sel(1) init(3) del by auto
  ultimately show ?thesis using run(1) by blast
qed

end

section \<open>The head\<close>

lemma head_request_sel:
  "request_distance s (head_request c) st = node_distance (sto_virtualmachines s (vc_Namespace c, head_name c) \<noteq> None)
     (sto_vmservices s (vc_Namespace c, head_name c) \<noteq> None) st"
  "lr_NodeStatus (head_request c) = st_HeadNodeStatus (vc_Status c)" "lr_key (head_request c) = (vc_Namespace c, head_name c)"
  "lr_service (head_request c) = (vc_Namespace c, head_name c)"
  "(lr_Namespace (head_request c), lr_Clustername (head_request c)) = cluster_id c"
  by (simp_all add: request_distance_def head_request_def Let_def)

abbreviation head_key :: "VMRayCluster \<Rightarrow> object_key" where
  "head_key c \<equiv> (vc_Namespace c, head_name c)"

text \<open>Everything that exists has its address.\<close>

definition all_addressed :: "api_store \<Rightarrow> bool" where
  "all_addressed s \<longleftrightarrow> (\<forall>k. has_address (sto_virtualmachines s k) \<and> has_ingress (sto_vmservices s k))"

lemma head_name_prefix: "prefix (GetHeadNodeName c '''') (GetHeadNodeName c n)"
  by (simp add: GetHeadNodeName_def Let_def)

lemma plan_ok_head: "plan_ok c \<Longrightarrow> n \<in> worker_keys c \<union> desired_keys c \<Longrightarrow> n \<noteq> GetHeadNodeName (vc_Name c) u"
  using head_name_prefix unfolding plan_ok_def by blast

text \<open>A distance depends on what is recorded about the nodes only.\<close>

lemma cluster_distance_cong:
  assumes "vc_ObjectMeta c' = vc_ObjectMeta c" and "st_HeadNodeStatus (vc_Status c') = st_HeadNodeStatus (vc_Status c)"
    and "st_CurrentWorkers (vc_Status c') = st_CurrentWorkers (vc_Status c)" and "desired_keys c' = desired_keys c"
  shows "cluster_distance s c' = cluster_distance s c"
  unfolding cluster_distance_def head_distance_def worker_distance_def assms ..

context working_env
begin

lemma reconcileHeadNode_live:
  assumes "reconcileHeadNode provider c w = (c1, res, w1)" and "plan_ok c" and "root_valid (store w) (cluster_id c)"
    and "place_ready (store w) c" and "all_addressed (store w)" and "node_inv (st_HeadNodeStatus (vc_Status c))"
  shows "\<exists>r. res = Returns r \<and> steady (cluster_id c) (store w) (store w1) \<and>
    (\<exists>z. sto_virtualmachines (store w1) = (sto_virtualmachines (store w))(head_key c := z) \<and>
      (z = None \<or> worker_ready (store w1) (cluster_id c))) \<and>
    head_distance (store w1) c1 \<le> head_distance (store w) c - 1 \<and>
    (head_distance (store w1) c1 = 0 \<longrightarrow>
       r = None \<and> node_up (sto_virtualmachines (store w1) (head_key c)) (st_HeadNodeStatus (vc_Status c1))) \<and>
    (r = None \<longrightarrow> ns_VmStatus (st_HeadNodeStatus (vc_Status c1)) = RUNNING \<longrightarrow>
       sto_virtualmachines (store w1) (head_key c) \<noteq> None)"
proof -
  obtain req where p: "ProcessNodeVmState provider (head_request c) w = (req, res, w1)"
    and c1: "st_HeadNodeStatus (vc_Status c1) = lr_NodeStatus req" "vc_ObjectMeta c1 = vc_ObjectMeta c"
    using assms(1) by (auto simp: reconcileHeadNode_def split: prod.splits)
  have hd: "can_deploy (store w) (deploymentRequest (head_request c))" "lr_HeadNodeStatus (head_request c) = None"
    "lr_VMServiceStatus (head_request c) \<noteq> None"
    using assms(2-4) by (simp_all add: can_deploy_def head_request_def Let_def plan_ok_def place_ready_def)
  have ready: "node_ready (store w) (head_request c)"
    using hd assms(5,6) unfolding node_ready_def head_request_sel by (simp add: all_addressed_def node_inv_def)
  have old: "sto_virtualmachines (store w) (head_key c) = None \<or> worker_ready (store w) (cluster_id c)"
    using assms(4) unfolding place_ready_def by blast
  from node_step [of yaml, OF yaml_total ready p] obtain z err where
    st: "steady (cluster_id c) (store w) (store w1)" and
    z: "sto_virtualmachines (store w1) = (sto_virtualmachines (store w))(head_key c := z)"
      "z = sto_virtualmachines (store w) (head_key c) \<or> worker_ready (store w1) (cluster_id c)" and
    err: "res = Returns err" "request_distance (store w1) (head_request c) (lr_NodeStatus req) \<le>
        request_distance (store w) (head_request c) (st_HeadNodeStatus (vc_Status c)) - 1"
      "request_distance (store w1) (head_request c) (lr_NodeStatus req) = 0 \<longrightarrow>
        err = None \<and> node_up (sto_virtualmachines (store w1) (head_key c)) (lr_NodeStatus req)"
      "err = None \<longrightarrow> lr_VmStatus req = RUNNING \<longrightarrow> sto_virtualmachines (store w1) (head_key c) \<noteq> None"
    unfolding node_progress_def head_request_sel(2-5) by (elim exE conjE) (rule that)
  have "z = None \<or> worker_ready (store w1) (cluster_id c)" using z(2) old st by (auto simp: steady_def)
  then show ?thesis unfolding head_distance_def c1
    by (intro exI [of _ err] exI [of _ z] conjI) (rule st z(1) err [unfolded head_request_sel(1)] | assumption)+
qed

text \<open>A stage of the workers is over: with or without a condition, the nodes are as recorded.\<close>

lemma addErrorCondition_store: "addErrorCondition rt err c ty reason w = (c', w') \<Longrightarrow> store w' = store w"
  by (auto simp: addErrorCondition_def dest!: now_store split: prod.splits)

lemma reconcile_workers_step_exit:
  assumes "reconcile_workers_step rt provider c w = (c', ex, w')"
    and "ns_RayStatus (st_HeadNodeStatus (vc_Status c)) = RAY_RUNNING" and "reconcileWorkerNodes rt provider c w = (c1, Returns r, w1)"
  shows "\<exists>d. ex = ExitUpdate d \<and> store w' = store w1 \<and> same_nodes c1 c' \<and> vc_Spec c' = vc_Spec c1 \<and> (r = None \<longrightarrow> c' = c1)"
proof (cases r)
  case None
  with assms show ?thesis by (auto simp: reconcile_workers_step_def)
next
  case (Some e)
  obtain cs w2 where range: "rt_range rt w1 = (cs, w2)" by fastforce
  obtain c2 w3 where a: "addErrorCondition rt e (set_state UNHEALTHY c1) VMRayClusterConditionWorkerNodeReady
      FailureToDeployNodeReason w2 = (c2, w3)" by fastforce
  have "same_nodes c1 c2" using same_nodes_addErrorCondition [OF a] same_nodes_set_state same_nodes_trans by blast
  moreover have "vc_Spec c2 = vc_Spec c1" using addErrorCondition_result [OF a] by simp
  ultimately show ?thesis using assms Some range a range_store [OF range] addErrorCondition_store [OF a]
    by (auto simp: reconcile_workers_step_def split: if_splits)
qed

lemma reconcile_workers_step_live:
  assumes "reconcile_workers_step rt provider c w = (c', ex, w')" and "workers_ready (store w) (cluster_id c)"
    and "plan_ok c" and "status_inv (vc_Status c)"
    and "\<forall>n \<in> desired_keys c. has_address (sto_virtualmachines (store w) (vc_Namespace c, n))"
    and "ns_RayStatus (st_HeadNodeStatus (vc_Status c)) = RAY_RUNNING"
  shows "\<exists>d r. ex = ExitUpdate d \<and> workers_progress (desired_keys c) c (store w) c' (store w') r \<and>
    vc_ObjectMeta c' = vc_ObjectMeta c \<and> desired_keys c' = desired_keys c \<and> worker_keys c' \<subseteq> worker_keys c \<union> desired_keys c \<and>
    st_HeadNodeStatus (vc_Status c') = st_HeadNodeStatus (vc_Status c) \<and>
    (\<forall>u. sto_virtualmachines (store w') (vc_Namespace c, GetHeadNodeName (vc_Name c) u) =
         sto_virtualmachines (store w) (vc_Namespace c, GetHeadNodeName (vc_Name c) u) \<and>
       sto_vmservices (store w') (vc_Namespace c, GetHeadNodeName (vc_Name c) u) =
         sto_vmservices (store w) (vc_Namespace c, GetHeadNodeName (vc_Name c) u)) \<and>
    (r = None \<longrightarrow> worker_keys c' = desired_keys c \<and> same_report c c')"
proof -
  obtain c1 res w1 where k: "reconcileWorkerNodes rt provider c w = (c1, res, w1)" by (metis surj_pair)
  have winv: "workers_inv (entries (st_CurrentWorkers (vc_Status c)))" using assms(4) by (simp add: status_inv_def)
  from reconcileWorkerNodes_live [OF k assms(2,3) winv assms(5)] obtain r where res: "res = Returns r"
    and prog: "workers_progress (desired_keys c) c (store w) c1 (store w1) r"
    and frame: "\<forall>a. a \<notin> {vc_Namespace c} \<times> (worker_keys c \<union> desired_keys c) \<longrightarrow>
       sto_virtualmachines (store w1) a = sto_virtualmachines (store w) a \<and> sto_vmservices (store w1) a = sto_vmservices (store w) a"
    by (elim exE conjE) (rule that)
  note result = reconcileWorkerNodes_result [OF k [unfolded res]] and report = reconcileWorkerNodes_report [OF k]
  from reconcile_workers_step_exit [OF assms(1,6) k [unfolded res]] obtain d where
    d: "ex = ExitUpdate d" "store w' = store w1" "same_nodes c1 c'" "vc_Spec c' = vc_Spec c1" "r = None \<longrightarrow> c' = c1" by blast
  have sel: "vc_ObjectMeta c' = vc_ObjectMeta c1" "st_HeadNodeStatus (vc_Status c') = st_HeadNodeStatus (vc_Status c1)"
    "worker_status c' = worker_status c1" "desired_keys c' = desired_keys c1" "worker_keys c' = worker_keys c1"
    using d(3,4) by (simp_all add: same_nodes_def)
  have eq: "worker_distance s c' n = worker_distance s c1 n" "worker_up s c' n = worker_up s c1 n" for s n
    unfolding worker_distance_def worker_up_def sel(1,3) by (rule refl)+
  have prog': "workers_progress (desired_keys c) c (store w) c' (store w') r"
    using prog unfolding workers_progress_def eq d(2) .
  have heads: "\<forall>u. sto_virtualmachines (store w') (vc_Namespace c, GetHeadNodeName (vc_Name c) u) =
         sto_virtualmachines (store w) (vc_Namespace c, GetHeadNodeName (vc_Name c) u) \<and>
       sto_vmservices (store w') (vc_Namespace c, GetHeadNodeName (vc_Name c) u) =
         sto_vmservices (store w) (vc_Namespace c, GetHeadNodeName (vc_Name c) u)"
  proof
    fix u
    have "GetHeadNodeName (vc_Name c) u \<notin> worker_keys c \<union> desired_keys c" using plan_ok_head [OF assms(3)] by blast
    then have "(vc_Namespace c, GetHeadNodeName (vc_Name c) u) \<notin> {vc_Namespace c} \<times> (worker_keys c \<union> desired_keys c)" by simp
    with frame show "sto_virtualmachines (store w') (vc_Namespace c, GetHeadNodeName (vc_Name c) u) =
         sto_virtualmachines (store w) (vc_Namespace c, GetHeadNodeName (vc_Name c) u) \<and>
       sto_vmservices (store w') (vc_Namespace c, GetHeadNodeName (vc_Name c) u) =
         sto_vmservices (store w) (vc_Namespace c, GetHeadNodeName (vc_Name c) u)" unfolding d(2) by blast
  qed
  have finished: "r = None \<longrightarrow> worker_keys c' = desired_keys c \<and> same_report c c'" using d(5) result report by simp
  have same: "vc_ObjectMeta c' = vc_ObjectMeta c" "st_HeadNodeStatus (vc_Status c') = st_HeadNodeStatus (vc_Status c)"
    "desired_keys c' = desired_keys c" "worker_keys c' \<subseteq> worker_keys c \<union> desired_keys c"
    unfolding sel using conjunct2 [OF result] by simp_all
  show ?thesis by (intro exI [of _ d] exI [of _ r] conjI d(1) prog' same heads finished)
qed

end

section \<open>One reconciliation\<close>

text \<open>What the head's and the workers' steps make of a cluster.\<close>

definition cluster_progress :: "VMRayCluster \<Rightarrow> api_store \<Rightarrow> VMRayCluster \<Rightarrow> api_store \<Rightarrow> bool" where
  "cluster_progress c s c' s' \<longleftrightarrow> steady (cluster_id c) s s' \<and> vc_ObjectMeta c' = vc_ObjectMeta c \<and>
     desired_keys c' = desired_keys c \<and> worker_keys c' \<subseteq> worker_keys c \<union> desired_keys c \<and>
     (\<forall>u. sto_virtualmachines s' (vc_Namespace c, GetHeadNodeName (vc_Name c) u) \<noteq> None \<longrightarrow> worker_ready s' (cluster_id c)) \<and>
     cluster_distance s' c' \<le> cluster_distance s c - 1 \<and>
     (cluster_distance s c = 0 \<longrightarrow> cluster_up s' c' \<and> same_report c c')"

context working_env
begin

lemma reconcile_head_step_live:
  assumes "reconcile_head_step rt provider c w = (c', ex, w')" and "plan_ok c" and "root_valid (store w) (cluster_id c)"
    and "place_ready (store w) c" and "all_addressed (store w)" and "status_inv (vc_Status c)"
  shows "\<exists>d. ex = ExitUpdate d \<and> cluster_progress c (store w) c' (store w')"
proof -
  let ?H = "\<lambda>u. (vc_Namespace c, GetHeadNodeName (vc_Name c) u)"
  obtain c1 res w1 where h: "reconcileHeadNode provider c w = (c1, res, w1)" by (metis surj_pair)
  have ninv: "node_inv (st_HeadNodeStatus (vc_Status c))" using assms(6) by (simp add: status_inv_def)
  from reconcileHeadNode_live [OF h assms(2-5) ninv] obtain r z where res: "res = Returns r" and
    st1: "steady (cluster_id c) (store w) (store w1)" and
    z: "sto_virtualmachines (store w1) = (sto_virtualmachines (store w))(head_key c := z)"
      "z = None \<or> worker_ready (store w1) (cluster_id c)" and
    d1: "head_distance (store w1) c1 \<le> head_distance (store w) c - 1"
      "head_distance (store w1) c1 = 0 \<longrightarrow> r = None \<and> node_up (sto_virtualmachines (store w1) (head_key c)) (st_HeadNodeStatus (vc_Status c1))"
      "r = None \<longrightarrow> ns_VmStatus (st_HeadNodeStatus (vc_Status c1)) = RUNNING \<longrightarrow> sto_virtualmachines (store w1) (head_key c) \<noteq> None"
    by (elim exE conjE) (rule that)
  note sel1 = ctrl.reconcileHeadNode_sel [OF h] and report1 = reconcileHeadNode_report [OF h]
  have plan1: "plan_ok c1" using assms(2) sel1 by (simp add: plan_ok_def)
  have inv1: "status_inv (vc_Status c1)" by (rule reconcileHeadNode_inv [OF h [unfolded res] assms(6)])
  have heads1: "sto_virtualmachines (store w1) (?H u) \<noteq> None \<longrightarrow> worker_ready (store w1) (cluster_id c)" for u
    using z assms(4) st1 by (cases "?H u = head_key c") (auto simp: place_ready_def steady_def)
  have vm1: "sto_virtualmachines (store w1) (vc_Namespace c, n) = sto_virtualmachines (store w) (vc_Namespace c, n)"
    if "n \<in> desired_keys c" for n using plan_ok_head [OF assms(2)] that z(1) by simp
  have wd1: "worker_distance (store w1) c1 n = worker_distance (store w) c n" if "n \<in> desired_keys c" for n
    using vm1 [OF that] sel1 by (simp add: worker_distance_def)
  have sum1: "(\<Sum>n\<in>desired_keys c. worker_distance (store w1) c1 n) = (\<Sum>n\<in>desired_keys c. worker_distance (store w) c n)"
    by (rule sum.cong [OF refl wd1])
  have head_only: "cluster_progress c (store w) c' (store w')"
    if "head_distance (store w1) c1 \<noteq> 0" "store w' = store w1" "same_nodes c1 c'" "vc_Spec c' = vc_Spec c1"
  proof -
    have "cluster_distance (store w1) c' = cluster_distance (store w1) c1"
      by (rule cluster_distance_cong) (use that in \<open>simp_all add: same_nodes_def\<close>)
    also have "\<dots> = head_distance (store w1) c1 + (\<Sum>n\<in>desired_keys c. worker_distance (store w) c n)"
      using sum1 sel1 by (simp add: cluster_distance_def)
    finally have eq: "cluster_distance (store w1) c' = head_distance (store w1) c1 + (\<Sum>n\<in>desired_keys c. worker_distance (store w) c n)" .
    have "head_distance (store w) c \<noteq> 0" using d1(1) that(1) by (cases "head_distance (store w) c") simp_all
    then have "cluster_distance (store w1) c' \<le> cluster_distance (store w) c - 1" "cluster_distance (store w) c \<noteq> 0"
      using d1(1) unfolding eq by (simp_all add: cluster_distance_def)
    then show ?thesis using that sel1 st1 heads1 by (simp add: cluster_progress_def same_nodes_def)
  qed
  show ?thesis
  proof (cases "r = None \<and> ns_RayStatus (st_HeadNodeStatus (vc_Status c1)) = RAY_RUNNING")
    case False
    have nz: "head_distance (store w1) c1 \<noteq> 0" using d1(2) False by (auto simp: node_up_def)
    show ?thesis
    proof (cases r)
      case None
      with False assms(1) h res have "c' = c1" "w' = w1" "ex = ExitUpdate defaultRequeueDuration"
        by (auto simp: reconcile_head_step_def reconcile_workers_step_def)
      with head_only nz show ?thesis by simp
    next
      case (Some e)
      obtain c2 w2 where a: "addErrorCondition rt e (set_state UNHEALTHY c1) VMRayClusterConditionHeadNodeReady
          FailureToDeployNodeReason w1 = (c2, w2)" by fastforce
      with Some assms(1) h res have "c' = c2" "w' = w2" "ex = ExitUpdate headRequeueDuration"
        by (auto simp: reconcile_head_step_def)
      moreover have "same_nodes c1 c2" using same_nodes_addErrorCondition [OF a] same_nodes_set_state same_nodes_trans by blast
      moreover have "vc_Spec c2 = vc_Spec c1" using addErrorCondition_result [OF a] by simp
      ultimately show ?thesis using head_only nz addErrorCondition_store [OF a] by simp
    qed
  next
    case True
    with assms(1) h res have ws: "reconcile_workers_step rt provider c1 w1 = (c', ex, w')" by (simp add: reconcile_head_step_def)
    have "ns_VmStatus (st_HeadNodeStatus (vc_Status c1)) = RUNNING" using inv1 True by (simp add: status_inv_def node_inv_def)
    with d1(3) True have "sto_virtualmachines (store w1) (head_key c) \<noteq> None" by blast
    with heads1 have "worker_ready (store w1) (cluster_id c)" by blast
    then have ready1: "workers_ready (store w1) (cluster_id c1)"
      using st1 assms(3,4) sel1 by (simp add: workers_ready_def steady_def place_ready_def)
    have addr1: "\<forall>n \<in> desired_keys c1. has_address (sto_virtualmachines (store w1) (vc_Namespace c1, n))"
      using vm1 assms(5) sel1 by (auto simp: all_addressed_def)
    have ray: "ns_RayStatus (st_HeadNodeStatus (vc_Status c1)) = RAY_RUNNING" using True by blast
    from reconcile_workers_step_live [OF ws ready1 plan1 inv1 addr1 ray] obtain d r2 where
      w2: "ex = ExitUpdate d" "workers_progress (desired_keys c1) c1 (store w1) c' (store w') r2"
        "vc_ObjectMeta c' = vc_ObjectMeta c1" "desired_keys c' = desired_keys c1" "worker_keys c' \<subseteq> worker_keys c1 \<union> desired_keys c1"
        "st_HeadNodeStatus (vc_Status c') = st_HeadNodeStatus (vc_Status c1)"
        "\<forall>u. sto_virtualmachines (store w') (vc_Namespace c1, GetHeadNodeName (vc_Name c1) u) =
            sto_virtualmachines (store w1) (vc_Namespace c1, GetHeadNodeName (vc_Name c1) u) \<and>
          sto_vmservices (store w') (vc_Namespace c1, GetHeadNodeName (vc_Name c1) u) =
            sto_vmservices (store w1) (vc_Namespace c1, GetHeadNodeName (vc_Name c1) u)"
        "r2 = None \<longrightarrow> worker_keys c' = desired_keys c1 \<and> same_report c1 c'"
      by (elim exE conjE) (rule that)
    have eqs: "vc_ObjectMeta c1 = vc_ObjectMeta c" "desired_keys c1 = desired_keys c" "worker_keys c1 = worker_keys c"
      using sel1 by simp_all
    note w2 = w2 [unfolded eqs]
    have st2: "steady (cluster_id c) (store w1) (store w')" using w2(2) by (simp add: workers_progress_def eqs)
    have hd: "head_distance (store w') c' = head_distance (store w1) c1"
      using w2(3,6,7) by (simp add: head_distance_def eqs)
    have sum2: "(\<Sum>n\<in>desired_keys c. worker_distance (store w') c' n) \<le> (\<Sum>n\<in>desired_keys c. worker_distance (store w) c n) - 1"
      using workers_progress_sum [OF w2(2) finite_desired] sum1 by simp
    have "cluster_distance (store w') c' = head_distance (store w1) c1 + (\<Sum>n\<in>desired_keys c. worker_distance (store w') c' n)"
      by (simp only: cluster_distance_def hd w2(4))
    then have dist: "cluster_distance (store w') c' \<le> cluster_distance (store w) c - 1"
      using d1(1) sum2 by (simp add: cluster_distance_def)
    have up: "cluster_up (store w') c' \<and> same_report c c'" if zero: "cluster_distance (store w) c = 0"
    proof -
      have "head_distance (store w) c = 0" and all: "\<forall>n\<in>desired_keys c. worker_distance (store w) c n = 0"
        using zero by (simp_all add: cluster_distance_def)
      with d1 have "node_up (sto_virtualmachines (store w') (head_key c)) (st_HeadNodeStatus (vc_Status c'))"
        using w2(6,7) by simp
      moreover have "\<forall>n\<in>desired_keys c. worker_distance (store w1) c1 n = 0" using all wd1 by simp
      then have "r2 = None \<and> (\<forall>n\<in>desired_keys c. worker_up (store w') c' n)" using w2(2) unfolding workers_progress_def by blast
      ultimately show ?thesis using w2(3,4,8) report1 by (simp add: cluster_up_def)
    qed
    have "cluster_progress c (store w) c' (store w')"
      unfolding cluster_progress_def
    proof (intro conjI allI)
      show "steady (cluster_id c) (store w) (store w')" using st1 st2 by (rule steady_trans)
      show "sto_virtualmachines (store w') (?H u) \<noteq> None \<longrightarrow> worker_ready (store w') (cluster_id c)" for u
        using heads1 [of u] w2(7) st2 by (auto simp: steady_def)
    qed (use w2(3-5) dist up in blast)+
    with w2(1) show ?thesis by blast
  qed
qed

text \<open>The dependencies are found, the root certificate is there or made.\<close>

lemma check_vmclasses_live:
  assumes "\<forall>cls \<in> set xs. sto_vmclasses (store w) (vc_Namespace c, cls) \<noteq> None"
  shows "\<exists>w'. check_vmclasses rt kc xs False c w = ((c, False, None), w') \<and> store w' = store w"
  using assms
proof (induction xs arbitrary: w)
  case (Cons x xs)
  then obtain y w1 where g: "rget (kc_vmclasses kc) (vc_Namespace c) x w = (Inr y, w1)" using vmclass_present by fastforce
  then have s1: "store w1 = store w" using vmclasses.get_found by blast
  with Cons.IH [of w1] Cons.prems obtain w' where "check_vmclasses rt kc xs False c w1 = ((c, False, None), w')" "store w' = store w"
    by auto
  with g show ?case by (simp add: check_dependency_def)
qed simp

lemma ValidateAuxiliaryDependencies_live:
  assumes "dependencies_met (store w) c"
  shows "\<exists>w'. ValidateAuxiliaryDependencies rt kc c w = ((c, False, None), w') \<and> store w' = store w"
proof -
  let ?nc = "spec_NodeConfig (vc_Spec c)"
  from assms have met: "sto_vmimages (store w) (vc_Namespace c, nc_VMImage ?nc) \<noteq> None"
    "sto_storageclasses (store w) (nc_StorageClass ?nc) \<noteq> None"
    "\<forall>nt \<in> snd ` set (nc_NodeTypes ?nc). sto_vmclasses (store w) (vc_Namespace c, nt_VMClass nt) \<noteq> None"
    unfolding dependencies_met_def Let_def by blast+
  obtain x w1 where 1: "rget (kc_vmimages kc) (vc_Namespace c) (nc_VMImage ?nc) w = (Inr x, w1)"
    using image_present [OF met(1)] by blast
  then have s1: "store w1 = store w" using vmimages.get_found by blast
  obtain y w2 where 2: "kc_get_storageclass kc (vc_Namespace c) (nc_StorageClass ?nc) w1 = (Inr y, w2)"
    using storageclass_present met(2) s1 by metis
  then have s2: "store w2 = store w" using get_storageclass_found s1 by metis
  obtain cs w3 where 3: "rt_range rt w2 = (cs, w3)" by fastforce
  then have s3: "store w3 = store w" using range_store s2 by metis
  have "\<forall>cls \<in> set (slices_Compact (map (nt_VMClass \<circ> snd) (go_range cs (nc_NodeTypes ?nc)))).
      sto_vmclasses (store w3) (vc_Namespace c, cls) \<noteq> None" using met(3) s3 by auto
  from check_vmclasses_live [OF this] 1 2 3 s3 show ?thesis
    by (auto simp: ValidateAuxiliaryDependencies_def Let_def check_dependency_def)
qed

lemma root_secret_live:
  assumes "sto_secrets (store w) (root_key (vc_Namespace c) (vc_Name c)) = None \<or> root_valid (store w) (cluster_id c)"
  shows "\<exists>w'. CreateVMRayClusterRootSecret rt kc (vc_Namespace c) (vc_Name c) w = (None, w') \<and>
    root_valid (store w') (cluster_id c) \<and> steady (cluster_id c) (store w) (store w') \<and>
    sto_virtualmachines (store w') = sto_virtualmachines (store w) \<and> sto_vmservices (store w') = sto_vmservices (store w)"
proof -
  obtain w' where r: "CreateVMRayClusterRootSecret rt kc (vc_Namespace c) (vc_Name c) w = (None, w')"
    using CreateVMRayClusterRootSecret_succeeds by blast
  from CreateVMRayClusterRootSecret_post [OF r] obtain z where
    w': "store w' = (store w)\<lparr>sto_secrets := (sto_secrets (store w))(root_key (vc_Namespace c) (vc_Name c) := z)\<rparr>" and
    z: "case sto_secrets (store w) (root_key (vc_Namespace c) (vc_Name c)) of Some y \<Rightarrow> z = Some y
      | None \<Rightarrow> \<exists>cert k. generated_pair rt (snd (rget (kc_secrets kc) (vc_Namespace c) (vc_Name c @ RootCaSecretSuffix) w)) cert k \<and>
         z = Some (admit_secret (root_secret (vc_Namespace c) (vc_Name c @ RootCaSecretSuffix)
         (rt_pem_encode rt ''CERTIFICATE'' cert) (rt_pem_encode rt ''RSA PRIVATE KEY'' k)))" by blast
  have valid: "root_valid (store w') (cluster_id c)"
    using assms z by (auto simp: root_valid_def w' split: option.splits)
  have "ssh_fine (store w') (cluster_id c) = ssh_fine (store w) (cluster_id c)"
    "worker_ready (store w') (cluster_id c) = worker_ready (store w) (cluster_id c)"
    using root_name_not_ssh_name [of "vc_Name c"] by (simp_all add: w' ssh_fine_def worker_ready_def has_ssh_key_def)
  with valid r show ?thesis by (auto simp: steady_def w')
qed

end

text \<open>A cluster the reconciler can bring up.\<close>

definition root_fine :: "api_store \<Rightarrow> object_key \<Rightarrow> bool" where
  "root_fine s k \<longleftrightarrow> sto_secrets s (root_key (fst k) (snd k)) = None \<or> root_valid s k"

definition cluster_ready :: "api_store \<Rightarrow> VMRayCluster \<Rightarrow> bool" where
  "cluster_ready s c \<longleftrightarrow> plan_ok c \<and> place_ready s c \<and> root_fine s (cluster_id c)"

definition live_cluster :: "api_store \<Rightarrow> object_key \<Rightarrow> VMRayCluster \<Rightarrow> bool" where
  "live_cluster s k c \<longleftrightarrow> sto_clusters s k = Some c \<and> meta_key (vc_ObjectMeta c) = k \<and>
     om_DeletionTimestamp (vc_ObjectMeta c) = None \<and> status_inv (vc_Status c) \<and> cluster_ready s c"

lemma cluster_distance_store:
  assumes "\<And>k. (sto_virtualmachines s' k = None) = (sto_virtualmachines s k = None)"
    and "\<And>k. (sto_vmservices s' k = None) = (sto_vmservices s k = None)"
  shows "cluster_distance s' c = cluster_distance s c"
  unfolding cluster_distance_def head_distance_def worker_distance_def assms ..

lemma cluster_ready_same:
  assumes "cluster_ready s c" and "cluster_id c' = cluster_id c" and "vc_Spec c' = vc_Spec c"
    and "worker_keys c' \<subseteq> worker_keys c \<union> desired_keys c" and "steady (cluster_id c) s s'"
    and "\<forall>u. sto_virtualmachines s' (vc_Namespace c, GetHeadNodeName (vc_Name c) u) \<noteq> None \<longrightarrow> worker_ready s' (cluster_id c)"
    and "root_fine s' (cluster_id c)"
  shows "cluster_ready s' c'"
proof -
  have id: "vc_Namespace c' = vc_Namespace c" "vc_Name c' = vc_Name c" using assms(2) by simp_all
  have plan: "plan_ok c" using assms(1) by (simp add: cluster_ready_def)
  have sub: "\<forall>n \<in> B \<union> C. P n \<Longrightarrow> A \<subseteq> B \<union> C \<Longrightarrow> \<forall>n \<in> A \<union> C. P n" for A B C :: "string set" and P by blast
  from plan have "\<forall>n \<in> worker_keys c \<union> desired_keys c. \<not> prefix (GetHeadNodeName (vc_Name c) '''') n"
    unfolding plan_ok_def by (elim conjE)
  from sub [OF this assms(4)] have "\<forall>n \<in> worker_keys c' \<union> desired_keys c. \<not> prefix (GetHeadNodeName (vc_Name c) '''') n" .
  with plan have "plan_ok c'" unfolding plan_ok_def id assms(3) by (intro conjI) (elim conjE, assumption)+
  moreover have "dependencies_met s' c'"
    using assms(1,5) unfolding cluster_ready_def place_ready_def dependencies_met_def steady_def id assms(3) by metis
  moreover have "ssh_fine s' (cluster_id c)" using assms(1,5) by (simp add: cluster_ready_def place_ready_def steady_def)
  ultimately show ?thesis using assms(6,7) by (simp add: cluster_ready_def place_ready_def id)
qed

context working_env
begin

lemma reconcile_steps_live:
  assumes "addFinalizerAndNounce rt kc cu (cleared c) w = (Inr c1, w1)" and "cluster_ready (store w1) c1"
    and "all_addressed (store w1)" and "status_inv (vc_Status c1)"
  shows "\<exists>c' d w'. reconcile_steps rt kc cu provider c w = (c', ExitUpdate d, w') \<and> cluster_progress c1 (store w1) c' (store w') \<and>
    root_valid (store w') (cluster_id c1) \<and> status_inv (vc_Status c')"
proof -
  have "sto_secrets (store w1) (root_key (vc_Namespace c1) (vc_Name c1)) = None \<or> root_valid (store w1) (cluster_id c1)"
    using assms(2) by (simp add: cluster_ready_def root_fine_def)
  from root_secret_live [OF this] obtain w2 where root: "CreateVMRayClusterRootSecret rt kc (vc_Namespace c1) (vc_Name c1) w1 = (None, w2)"
    and s2: "root_valid (store w2) (cluster_id c1)" "steady (cluster_id c1) (store w1) (store w2)"
      "sto_virtualmachines (store w2) = sto_virtualmachines (store w1)" "sto_vmservices (store w2) = sto_vmservices (store w1)" by blast
  have "root_fine (store w2) (cluster_id c1)" using s2(1) by (simp add: root_fine_def)
  moreover have "\<forall>u. sto_virtualmachines (store w2) (vc_Namespace c1, GetHeadNodeName (vc_Name c1) u) \<noteq> None \<longrightarrow>
      worker_ready (store w2) (cluster_id c1)"
    using assms(2) s2(2,3) by (simp add: cluster_ready_def place_ready_def steady_def)
  ultimately have "cluster_ready (store w2) c1" using cluster_ready_same [OF assms(2) refl refl Un_upper1 s2(2)] by blast
  then have ready: "plan_ok c1" "place_ready (store w2) c1" by (simp_all add: cluster_ready_def)
  obtain w3 where v: "ValidateAuxiliaryDependencies rt kc c1 w2 = ((c1, False, None), w3)" "store w3 = store w2"
    using ValidateAuxiliaryDependencies_live [of w2 c1] ready(2) by (auto simp: place_ready_def)
  obtain c' ex w' where h: "reconcile_head_step rt provider c1 w3 = (c', ex, w')" by (metis surj_pair)
  have pre: "root_valid (store w3) (cluster_id c1)" "place_ready (store w3) c1" "all_addressed (store w3)"
    using s2 ready v(2) assms(3) by (simp_all add: all_addressed_def)
  from reconcile_head_step_live [OF h ready(1) pre assms(4)] obtain d where d: "ex = ExitUpdate d"
    and prog: "cluster_progress c1 (store w3) c' (store w')" by blast
  have "reconcile_steps rt kc cu provider c w = (c', ExitUpdate d, w')"
    using assms(1) root v(1) h d by (simp add: reconcile_steps_def Let_def)
  moreover have "cluster_distance (store w3) c1 = cluster_distance (store w1) c1"
    by (rule cluster_distance_store) (simp_all add: v(2) s2)
  then have "cluster_progress c1 (store w1) c' (store w')"
    using prog s2(2) steady_trans [OF s2(2)] by (simp add: cluster_progress_def v(2))
  moreover have "root_valid (store w') (cluster_id c1)" using prog pre(1) by (simp add: cluster_progress_def steady_def)
  moreover have "status_inv (vc_Status c')"
    using ctrl.reconcile_head_step_keeps [OF h [unfolded d]] assms(4) by (simp add: ctrl.keeps_def)
  ultimately show ?thesis by blast
qed

lemma updateStatus_live:
  assumes "sto_clusters (store w) (meta_key (vc_ObjectMeta c)) = Some s" and "vc_Status s = vc_Status orig"
  shows "\<exists>w'. updateStatus kc orig c d w = ((d, None), w') \<and>
    store w' = (store w)\<lparr>sto_clusters := (sto_clusters (store w))(meta_key (vc_ObjectMeta c) \<mapsto> s\<lparr>vc_Status := vc_Status c\<rparr>)\<rparr>"
proof -
  obtain c' w' where p: "kc_patch_status kc orig c w = (Inr c', w')" using patch_present assms(1) by blast
  with patch_status_ok [OF p] assms show ?thesis by (auto simp: updateStatus_def)
qed

text \<open>The finalizer and the nounce: afterwards the cluster is ready as before, under its final head name.\<close>

lemma addFinalizerAndNounce_live:
  assumes "live_cluster (store w) k c"
  shows "\<exists>c1 w1 s1. addFinalizerAndNounce rt kc cu (cleared c) w = (Inr c1, w1) \<and>
    store w1 = (store w)\<lparr>sto_clusters := (sto_clusters (store w))(k \<mapsto> s1)\<rparr> \<and>
    same_nodes s1 c1 \<and> vc_Status s1 = vc_Status c \<and> vc_Spec s1 = vc_Spec c \<and> vc_Spec c1 = vc_Spec c \<and>
    cluster_id c1 = k \<and> om_DeletionTimestamp (vc_ObjectMeta s1) = None \<and>
    finalizerName \<in> set (om_Finalizers (vc_ObjectMeta s1)) \<and>
    (finalizerName \<in> set (om_Finalizers (vc_ObjectMeta c)) \<longrightarrow> s1 = c \<and> c1 = cleared c)"
proof -
  from assms have c: "sto_clusters (store w) k = Some c" "meta_key (vc_ObjectMeta c) = k" "om_DeletionTimestamp (vc_ObjectMeta c) = None"
    by (simp_all add: live_cluster_def)
  then have k: "k = cluster_id c" by (simp add: meta_key_def)
  show ?thesis
  proof (cases "finalizerName \<in> set (om_Finalizers (vc_ObjectMeta c))")
    case True
    then have "addFinalizerAndNounce rt kc cu (cleared c) w = (Inr (cleared c), w)"
      by (simp add: addFinalizerAndNounce_def contains)
    with True c k show ?thesis
      by (intro exI [of _ "cleared c"] exI [of _ w] exI [of _ c]) (simp add: same_nodes_def fun_upd_idem)
  next
    case False
    obtain r w1 where a: "addFinalizerAndNounce rt kc cu (cleared c) w = (r, w1)" by fastforce
    have del: "om_DeletionTimestamp (vc_ObjectMeta (cleared c)) = None" "finalizerName \<notin> set (om_Finalizers (vc_ObjectMeta (cleared c)))"
      using c(3) False by simp_all
    obtain m w2 where u: "kc_update_cluster kc ((cleared c)\<lparr>vc_ObjectMeta := m\<rparr>) w2 = (r, w1)" and s2: "store w2 = store w" and
      m: "om_Finalizers m = om_Finalizers (vc_ObjectMeta (cleared c)) @ [finalizerName]" "om_DeletionTimestamp m = None"
        "meta_key m = meta_key (vc_ObjectMeta (cleared c))"
      by (rule ctrl.addFinalizerAndNounce_update [OF a del])
    have "sto_clusters (store w2) (meta_key (vc_ObjectMeta ((cleared c)\<lparr>vc_ObjectMeta := m\<rparr>))) = Some c" using m(3) c s2 by simp
    from update_cluster_present [OF this] u obtain c1 where r: "r = Inr c1" by auto
    from update_cluster_ok [OF u [unfolded r]] m c s2 have
      c1: "c1 = (cleared c)\<lparr>vc_ObjectMeta := m, vc_Status := decode_status (vc_Status c) (vc_Status (cleared c))\<rparr>" and
      w1: "store w1 = (store w)\<lparr>sto_clusters := (sto_clusters (store w))(k \<mapsto> c\<lparr>vc_ObjectMeta := m\<rparr>)\<rparr>" by auto
    have "cluster_id c1 = k" using m(3) c(2) c1 by (simp add: meta_key_def)
    then show ?thesis using a r c1 w1 m False
      by (intro exI [of _ c1] exI [of _ w1] exI [of _ "c\<lparr>vc_ObjectMeta := m\<rparr>"])
        (simp add: same_nodes_def decode_status_report)
  qed
qed

end

lemma cluster_ready_clusters [simp]: "cluster_ready (s\<lparr>sto_clusters := m\<rparr>) c = cluster_ready s c"
  by (simp add: cluster_ready_def place_ready_def dependencies_met_def root_fine_def boot_defs Let_def)

lemma cluster_distance_clusters [simp]: "cluster_distance (s\<lparr>sto_clusters := m\<rparr>) c = cluster_distance s c"
  by (rule cluster_distance_store) simp_all

lemma cluster_up_cong:
  assumes "vc_ObjectMeta c' = vc_ObjectMeta c" and "st_HeadNodeStatus (vc_Status c') = st_HeadNodeStatus (vc_Status c)"
    and "st_CurrentWorkers (vc_Status c') = st_CurrentWorkers (vc_Status c)" and "desired_keys c' = desired_keys c"
  shows "cluster_up s c' = cluster_up s c"
  unfolding cluster_up_def worker_up_def assms ..

lemma cluster_up_clusters [simp]: "cluster_up (s\<lparr>sto_clusters := m\<rparr>) c = cluster_up s c"
proof -
  have "worker_up (s\<lparr>sto_clusters := m\<rparr>) c n = worker_up s c n" for n
    by (cases "worker_status c n") (simp_all add: worker_up_def)
  then show ?thesis by (simp add: cluster_up_def)
qed

context working_env
begin

text \<open>One call: the cluster stays ready, gets its finalizer, and comes closer.\<close>

lemma Reconcile_live:
  assumes "live_cluster (store w) (ns, n) c" and "all_addressed (store w)"
  shows "\<exists>d w' c'. Reconcile rt kc cu provider ns n w = (Returns (d, None), w') \<and>
    live_cluster (store w') (ns, n) c' \<and> vc_Spec c' = vc_Spec c \<and> finalizerName \<in> set (om_Finalizers (vc_ObjectMeta c')) \<and>
    (finalizerName \<in> set (om_Finalizers (vc_ObjectMeta c)) \<longrightarrow>
       cluster_distance (store w') c' \<le> cluster_distance (store w) c - 1 \<and>
       (cluster_distance (store w) c = 0 \<longrightarrow> cluster_up (store w') c' \<and>
          st_ClusterState (vc_Status c') = HEALTHY \<and> st_Conditions (vc_Status c') = []))"
proof -
  from assms(1) have c: "sto_clusters (store w) (ns, n) = Some c" "om_DeletionTimestamp (vc_ObjectMeta c) = None"
    "status_inv (vc_Status c)" "cluster_ready (store w) c" "cluster_id c = (ns, n)"
    by (auto simp: live_cluster_def meta_key_def)
  obtain w0 where g: "kc_get_cluster kc ns n w = (Inr c, w0)" using get_cluster_present [OF c(1)] by blast
  then have s0: "store w0 = store w" using get_cluster_found by blast
  from addFinalizerAndNounce_live [of w0 "(ns, n)" c] assms(1) s0 obtain c1 w1 s1 where
    a: "addFinalizerAndNounce rt kc cu (cleared c) w0 = (Inr c1, w1)" and
    w1: "store w1 = (store w)\<lparr>sto_clusters := (sto_clusters (store w))((ns, n) \<mapsto> s1)\<rparr>" and
    s1: "same_nodes s1 c1" "vc_Status s1 = vc_Status c" "vc_Spec s1 = vc_Spec c" "vc_Spec c1 = vc_Spec c" "cluster_id c1 = (ns, n)"
      "om_DeletionTimestamp (vc_ObjectMeta s1) = None" "finalizerName \<in> set (om_Finalizers (vc_ObjectMeta s1))"
      "finalizerName \<in> set (om_Finalizers (vc_ObjectMeta c)) \<longrightarrow> s1 = c \<and> c1 = cleared c" by auto
  have nodes: "st_CurrentWorkers (vc_Status c1) = st_CurrentWorkers (vc_Status c)" "vc_ObjectMeta c1 = vc_ObjectMeta s1"
    "st_HeadNodeStatus (vc_Status c1) = st_HeadNodeStatus (vc_Status c)"
    using s1(1,2) by (simp_all add: same_nodes_def)
  have place: "place_ready (store w) c" "root_fine (store w) (cluster_id c)" using c(4) by (simp_all add: cluster_ready_def)
  have ready1: "cluster_ready (store w1) c1"
    unfolding w1 cluster_ready_clusters
  proof (rule cluster_ready_same [OF c(4) _ s1(4) _ steady_refl _ place(2)])
    show "cluster_id c1 = cluster_id c" by (simp only: c(5) s1(5))
    show "\<forall>u. sto_virtualmachines (store w) (vc_Namespace c, GetHeadNodeName (vc_Name c) u) \<noteq> None \<longrightarrow> worker_ready (store w) (cluster_id c)"
      using place(1) unfolding place_ready_def by (elim conjE)
  qed (simp add: nodes(1))
  have "status_inv (vc_Status c1)" using c(3) by (simp add: status_inv_def nodes)
  moreover have "all_addressed (store w1)" using assms(2) by (simp add: all_addressed_def w1)
  ultimately obtain c' d w2 where steps: "reconcile_steps rt kc cu provider c w0 = (c', ExitUpdate d, w2)"
    and prog: "cluster_progress c1 (store w1) c' (store w2)" and root: "root_valid (store w2) (cluster_id c1)"
    and inv: "status_inv (vc_Status c')" using reconcile_steps_live [OF a ready1] by blast
  from prog obtain p: "steady (cluster_id c1) (store w1) (store w2)" "vc_ObjectMeta c' = vc_ObjectMeta c1" "desired_keys c' = desired_keys c1"
    "worker_keys c' \<subseteq> worker_keys c1 \<union> desired_keys c1"
    "\<forall>u. sto_virtualmachines (store w2) (vc_Namespace c1, GetHeadNodeName (vc_Name c1) u) \<noteq> None \<longrightarrow> worker_ready (store w2) (cluster_id c1)"
    "cluster_distance (store w2) c' \<le> cluster_distance (store w1) c1 - 1"
    "cluster_distance (store w1) c1 = 0 \<longrightarrow> cluster_up (store w2) c' \<and> same_report c1 c'"
    unfolding cluster_progress_def by (elim conjE) (rule that)
  have key: "meta_key (vc_ObjectMeta c') = (ns, n)" using p(2) s1(5) by (simp add: meta_key_def)
  have st2: "sto_clusters (store w2) (meta_key (vc_ObjectMeta c')) = Some s1" using p(1) w1 by (simp add: steady_def key)
  obtain w' where u: "updateStatus kc c c' d w2 = ((d, None), w')" and
    w': "store w' = (store w2)\<lparr>sto_clusters := (sto_clusters (store w2))((ns, n) \<mapsto> s1\<lparr>vc_Status := vc_Status c'\<rparr>)\<rparr>"
    using updateStatus_live [OF st2 s1(2), of d] unfolding key by blast
  let ?c = "s1\<lparr>vc_Status := vc_Status c'\<rparr>"
  have "Reconcile rt kc cu provider ns n w = (Returns (d, None), w')"
    using g c(2) steps u by (simp add: Reconcile_def fetchVMRayCluster_def VMRayClusterReconcile_def)
  moreover have "live_cluster (store w') (ns, n) ?c"
  proof -
    have "cluster_ready (store w2) ?c"
    proof (rule cluster_ready_same [OF ready1 _ _ _ p(1) p(5)])
      show "cluster_id ?c = cluster_id c1" "vc_Spec ?c = vc_Spec c1" by (simp_all add: nodes s1(3,4))
      show "worker_keys ?c \<subseteq> worker_keys c1 \<union> desired_keys c1" using p(4) by simp
      show "root_fine (store w2) (cluster_id c1)" using root by (simp add: root_fine_def)
    qed
    then show ?thesis using inv s1(5,6) nodes(2) by (simp add: live_cluster_def w' meta_key_def)
  qed
  moreover have "cluster_distance (store w') ?c \<le> cluster_distance (store w) c - 1 \<and>
      (cluster_distance (store w) c = 0 \<longrightarrow> cluster_up (store w') ?c \<and>
        st_ClusterState (vc_Status ?c) = HEALTHY \<and> st_Conditions (vc_Status ?c) = [])"
    if "finalizerName \<in> set (om_Finalizers (vc_ObjectMeta c))"
  proof -
    from that s1(8) have same: "s1 = c" "c1 = cleared c" by simp_all
    have sn: "vc_ObjectMeta ?c = vc_ObjectMeta c'" "st_HeadNodeStatus (vc_Status ?c) = st_HeadNodeStatus (vc_Status c')"
      "st_CurrentWorkers (vc_Status ?c) = st_CurrentWorkers (vc_Status c')" "desired_keys ?c = desired_keys c'"
      using p(2,3) same by simp_all
    have "cluster_distance (store w1) c1 = cluster_distance (store w) c"
      unfolding w1 cluster_distance_clusters by (rule cluster_distance_cong) (simp_all add: same same_nodes_def)
    then show ?thesis
      using p(6,7) cluster_distance_cong [OF sn] cluster_up_cong [OF sn] by (simp add: w' same(2))
  qed
  ultimately show ?thesis using s1(3,7) by (intro exI [of _ d] exI [of _ w'] exI [of _ ?c]) simp
qed

end

section \<open>Rounds\<close>

text \<open>One round: the VM operator reports addresses (\<open>env\<close>), then the reconciler is called.\<close>

definition operator_round ::
  "'w go_runtime \<Rightarrow> 'w kube_client \<Rightarrow> controllerutil \<Rightarrow> 'w VmProvider \<Rightarrow> ('w \<Rightarrow> 'w) \<Rightarrow> string \<Rightarrow> string \<Rightarrow> 'w \<Rightarrow> 'w" where
  "operator_round rt kc cu pvdr env ns name w = snd (Reconcile rt kc cu pvdr ns name (env w))"

lemma vmop_reports_keeps:
  assumes "vmop_reports s s'"
  shows "all_addressed s' \<and> cluster_distance s' c = cluster_distance s c \<and>
    (live_cluster s k c \<longrightarrow> live_cluster s' k c)"
proof -
  have dom: "(sto_virtualmachines s' a = None) = (sto_virtualmachines s a = None)"
    "(sto_vmservices s' a = None) = (sto_vmservices s a = None)" for a
    using assms unfolding vmop_reports_def by (metis domIff)+
  obtain v u where s': "s' = s\<lparr>sto_virtualmachines := v, sto_vmservices := u\<rparr>" using assms unfolding vmop_reports_def by blast
  have "cluster_ready s' c" if "cluster_ready s c"
    using that dom(1) unfolding s'
    by (simp add: cluster_ready_def place_ready_def dependencies_met_def root_fine_def boot_defs Let_def)
  then have "live_cluster s k c \<longrightarrow> live_cluster s' k c" by (auto simp: live_cluster_def s')
  moreover have "all_addressed s'" using assms by (simp add: vmop_reports_def all_addressed_def)
  ultimately show ?thesis using cluster_distance_store [OF dom] by blast
qed

context working_env
begin

lemma round_live:
  assumes "\<And>w. vmop_reports (store w) (store (env w))" and "live_cluster (store w) (ns, n) c"
  shows "\<exists>c'. live_cluster (store (operator_round rt kc cu provider env ns n w)) (ns, n) c' \<and> vc_Spec c' = vc_Spec c \<and>
    finalizerName \<in> set (om_Finalizers (vc_ObjectMeta c')) \<and>
    (finalizerName \<in> set (om_Finalizers (vc_ObjectMeta c)) \<longrightarrow>
       cluster_distance (store (operator_round rt kc cu provider env ns n w)) c' \<le> cluster_distance (store w) c - 1 \<and>
       (cluster_distance (store w) c = 0 \<longrightarrow> cluster_up (store (operator_round rt kc cu provider env ns n w)) c' \<and>
          st_ClusterState (vc_Status c') = HEALTHY \<and> st_Conditions (vc_Status c') = []))"
proof -
  note env = vmop_reports_keeps [OF assms(1) [of w], of c "(ns, n)"]
  have "live_cluster (store (env w)) (ns, n) c" "all_addressed (store (env w))"
    and dist: "cluster_distance (store (env w)) c = cluster_distance (store w) c" using env assms(2) by blast+
  from Reconcile_live [OF this(1,2), unfolded dist] obtain d w' c' where
    "Reconcile rt kc cu provider ns n (env w) = (Returns (d, None), w')" and
    r: "live_cluster (store w') (ns, n) c'" "vc_Spec c' = vc_Spec c" "finalizerName \<in> set (om_Finalizers (vc_ObjectMeta c'))"
    "finalizerName \<in> set (om_Finalizers (vc_ObjectMeta c)) \<longrightarrow>
       cluster_distance (store w') c' \<le> cluster_distance (store w) c - 1 \<and>
       (cluster_distance (store w) c = 0 \<longrightarrow> cluster_up (store w') c' \<and>
          st_ClusterState (vc_Status c') = HEALTHY \<and> st_Conditions (vc_Status c') = [])" by (elim exE conjE) (rule that)
  then have "operator_round rt kc cu provider env ns n w = w'" by (simp add: operator_round_def)
  then show ?thesis using r by (intro exI [of _ c'] conjI) simp_all
qed

lemma rounds_live:
  assumes "\<And>w. vmop_reports (store w) (store (env w))" and "live_cluster (store w) (ns, n) c"
  shows "\<exists>c'. live_cluster (store ((operator_round rt kc cu provider env ns n ^^ Suc i) w)) (ns, n) c' \<and> vc_Spec c' = vc_Spec c \<and>
    finalizerName \<in> set (om_Finalizers (vc_ObjectMeta c')) \<and>
    cluster_distance (store ((operator_round rt kc cu provider env ns n ^^ Suc i) w)) c' \<le> 6 + 5 * card (desired_keys c) - i"
proof (induction i)
  case 0
  from round_live [of env, OF assms] obtain c' where
    "live_cluster (store (operator_round rt kc cu provider env ns n w)) (ns, n) c'" "vc_Spec c' = vc_Spec c"
    "finalizerName \<in> set (om_Finalizers (vc_ObjectMeta c'))" by blast
  with cluster_distance_bound [of "store (operator_round rt kc cu provider env ns n w)" c'] show ?case
    by (intro exI [of _ c']) simp
next
  case (Suc i)
  then obtain c' where c': "live_cluster (store ((operator_round rt kc cu provider env ns n ^^ Suc i) w)) (ns, n) c'" "vc_Spec c' = vc_Spec c"
    "finalizerName \<in> set (om_Finalizers (vc_ObjectMeta c'))"
    "cluster_distance (store ((operator_round rt kc cu provider env ns n ^^ Suc i) w)) c' \<le> 6 + 5 * card (desired_keys c) - i" by blast
  have unfold: "(operator_round rt kc cu provider env ns n ^^ Suc (Suc i)) w =
      operator_round rt kc cu provider env ns n ((operator_round rt kc cu provider env ns n ^^ Suc i) w)" by simp
  from round_live [of env, OF assms(1) c'(1)] c'(3) obtain c2 where
    "live_cluster (store ((operator_round rt kc cu provider env ns n ^^ Suc (Suc i)) w)) (ns, n) c2" "vc_Spec c2 = vc_Spec c'"
    "finalizerName \<in> set (om_Finalizers (vc_ObjectMeta c2))"
    "cluster_distance (store ((operator_round rt kc cu provider env ns n ^^ Suc (Suc i)) w)) c2 \<le>
       cluster_distance (store ((operator_round rt kc cu provider env ns n ^^ Suc i) w)) c' - 1" unfolding unfold by blast
  with c'(2,4) show ?case by (intro exI [of _ c2] conjI) (simp_all del: funpow.simps)
qed

end

text \<open>
  C2: the cluster comes up. In an environment without faults, where the VM operator gives every
  machine and service that exists an address before each call, every cluster whose dependencies
  are met is up after eight calls and five more for each desired worker, and stays up: the head
  and exactly the desired workers run with Ray, each with the address of its machine, and the
  cluster is reported healthy without a condition. This holds from any status the operator can
  have recorded, with or without finalizer, whichever of its machines and services exist.
\<close>

theorem cluster_comes_up:
  assumes "working_env kc store vm_admit vs_admit rt cu yaml"
    and "\<And>w. vmop_reports (store w) (store (env w))"
    and "live_cluster (store w) (ns, n) c" and "8 + 5 * card (desired_keys c) \<le> k"
  shows "\<exists>w' c'. w' = (operator_round rt kc cu (NewVmOperatorProvider rt kc yaml) env ns n ^^ k) w \<and>
    sto_clusters (store w') (ns, n) = Some c' \<and> vc_Spec c' = vc_Spec c \<and> cluster_up (store w') c' \<and>
    st_ClusterState (vc_Status c') = HEALTHY \<and> st_Conditions (vc_Status c') = []"
proof -
  from assms(4) obtain i where k: "k = Suc (Suc i)" and i: "6 + 5 * card (desired_keys c) \<le> i"
    by (cases k; cases "k - 1") auto
  let ?R = "operator_round rt kc cu (NewVmOperatorProvider rt kc yaml) env ns n"
  from working_env.rounds_live [of kc store vm_admit vs_admit rt cu yaml env w ns n c i, OF assms(1-3)] i obtain c1 where
    c1: "live_cluster (store ((?R ^^ Suc i) w)) (ns, n) c1" "vc_Spec c1 = vc_Spec c"
      "finalizerName \<in> set (om_Finalizers (vc_ObjectMeta c1))" "cluster_distance (store ((?R ^^ Suc i) w)) c1 = 0"
    by (auto simp del: funpow.simps)
  from working_env.round_live [of kc store vm_admit vs_admit rt cu yaml env, OF assms(1,2) c1(1)] c1(2-4) obtain c2 where
    "live_cluster (store (?R ((?R ^^ Suc i) w))) (ns, n) c2" "vc_Spec c2 = vc_Spec c"
    "cluster_up (store (?R ((?R ^^ Suc i) w))) c2" "st_ClusterState (vc_Status c2) = HEALTHY" "st_Conditions (vc_Status c2) = []"
    by auto
  moreover have "(?R ^^ k) w = ?R ((?R ^^ Suc i) w)" by (simp add: k)
  ultimately show ?thesis by (intro exI [of _ "(?R ^^ k) w"] exI [of _ c2]) (simp add: live_cluster_def)
qed

text \<open>
  In memory: a VM operator that gives every machine and every service an address, and a cluster
  with one desired worker that has just been submitted to a server without any of its objects.
\<close>

definition mem_vmop :: "mem_world \<Rightarrow> mem_world" where
  "mem_vmop w = w\<lparr>mw_store := (mem_store w)
     \<lparr>sto_virtualmachines := \<lambda>k. map_option (vm_StatusNetwork_update (\<lambda>_. Some ''10.0.0.1'')) (sto_virtualmachines (mem_store w) k),
      sto_vmservices := \<lambda>k. map_option (vs_Ingress_update (\<lambda>_. [''10.1.1.1''])) (sto_vmservices (mem_store w) k)\<rparr>\<rparr>"

lemma keyed_map_option:
  assumes "\<And>x. meta (f x) = meta x"
  shows "keyed meta (\<lambda>k. map_option f (keyed meta m k)) = (\<lambda>k. map_option f (keyed meta m k))"
  by (rule ext) (auto simp: keyed_def assms split: option.splits)

lemma mem_vmop_store:
  "mem_store (mem_vmop w) = (mem_store w)
     \<lparr>sto_virtualmachines := \<lambda>k. map_option (vm_StatusNetwork_update (\<lambda>_. Some ''10.0.0.1'')) (sto_virtualmachines (mem_store w) k),
      sto_vmservices := \<lambda>k. map_option (vs_Ingress_update (\<lambda>_. [''10.1.1.1''])) (sto_vmservices (mem_store w) k)\<rparr>"
  by (simp add: mem_vmop_def mem_store_def Let_def keyed_map_option)

lemma mem_vmop_reports: "vmop_reports (mem_store w) (mem_store (mem_vmop w))"
  unfolding vmop_reports_def mem_vmop_store
  by (auto simp: has_address_def has_ingress_def dom_def split: option.splits)

definition fresh_start :: mem_world where
  "fresh_start = sys_start\<lparr>mw_store := (mw_store sys_start)\<lparr>sto_secrets := Map.empty, sto_vmservices := Map.empty\<rparr>\<rparr>"

abbreviation fresh_cluster :: VMRayCluster where
  "fresh_cluster \<equiv> webhook_cluster 1 3"

abbreviation fresh_world :: mem_world where
  "fresh_world \<equiv> add_cluster fresh_cluster fresh_start"

lemma fresh_start_store: "mem_store fresh_start = mw_store fresh_start"
  by (simp add: fresh_start_def sys_start_def empty_world_def empty_store_def mem_store_def Let_def keyed_def fun_eq_iff meta_key_def)

lemma fresh_cluster_sel:
  "vc_Name fresh_cluster = ''ray-1''" "vc_Namespace fresh_cluster = ''ns''" "meta_key (vc_ObjectMeta fresh_cluster) = (''ns'', ''ray-1'')"
  "desired_workers fresh_cluster = [(''ray-1-w.a'', ''worker'')]" "worker_keys fresh_cluster = {}"
  by (simp_all add: webhook_cluster_def meta_key_def)

lemma fresh_plan: "plan_ok fresh_cluster"
  unfolding plan_ok_def fresh_cluster_sel
  by (simp add: webhook_cluster_def gomap_wf_def GetHeadNodeName_def headsuffix_def)

lemma fresh_live: "live_cluster (mem_store fresh_world) (''ns'', ''ray-1'') fresh_cluster"
proof -
  have store: "sto_secrets (mem_store fresh_world) = Map.empty" "sto_virtualmachines (mem_store fresh_world) = Map.empty"
    by (simp_all add: fresh_start_store) (simp_all add: fresh_start_def sys_start_def empty_world_def empty_store_def)
  have "dependencies_met (mem_store fresh_world) fresh_cluster"
    by (simp add: dependencies_met_def fresh_cluster_sel fresh_start_store) (simp add: webhook_cluster_def fresh_start_def sys_start_def)
  then have "cluster_ready (mem_store fresh_world) fresh_cluster"
    using fresh_plan unfolding cluster_ready_def place_ready_def ssh_fine_def root_fine_def store by simp
  moreover have "status_inv (vc_Status fresh_cluster)" by (simp add: webhook_cluster_def status_inv_def node_inv_zero)
  moreover have "om_DeletionTimestamp (vc_ObjectMeta fresh_cluster) = None" by (simp add: webhook_cluster_def)
  ultimately show ?thesis using fresh_cluster_sel(3) by (simp add: live_cluster_def)
qed

theorem cluster_comes_up_witness:
  "\<exists>w' c'. w' = (operator_round mem_runtime mem_client list_finalizers (NewVmOperatorProvider mem_runtime mem_client mem_yaml)
      mem_vmop ''ns'' ''ray-1'' ^^ 13) fresh_world \<and>
    sto_clusters (mem_store w') (''ns'', ''ray-1'') = Some c' \<and> vc_Spec c' = vc_Spec fresh_cluster \<and>
    cluster_up (mem_store w') c' \<and> st_ClusterState (vc_Status c') = HEALTHY \<and> st_Conditions (vc_Status c') = []"
  by (rule cluster_comes_up [OF mem_working_env mem_vmop_reports fresh_live]) (simp add: fresh_cluster_sel)

end
