(* ===== verification/Copyrights.thy ===== *)
theory Copyrights
  imports VMRay_Prelude "HOL-Library.Sublist"
begin

text \<open>
  The pre-commit check for copyright headers, \<^verbatim>\<open>ci/pre-commit-hook/copyrights.go\<close>: it reads
  the notice from a boilerplate file, walks the given directories and looks for the notice in
  the comments above the package clause of every Go file. Reading the comments of a file
  (\<^verbatim>\<open>go/parser\<close>) and compiling the notice (\<^verbatim>\<open>regexp\<close>) are parameters. Printing is kept as the
  list of reported paths; the program ends with an exit code, or in a panic.
\<close>

section \<open>Strings\<close>

definition TrimPrefix :: "string \<Rightarrow> string \<Rightarrow> string" where
  "TrimPrefix s p = (if prefix p s then drop (length p) s else s)"

definition TrimSuffix :: "string \<Rightarrow> string \<Rightarrow> string" where
  "TrimSuffix s p = (if suffix p s then take (length s - length p) s else s)"

text \<open>\<^verbatim>\<open>strings.Replace(s, old, new, -1)\<close> for a non-empty \<open>old\<close>.\<close>

function ReplaceAll :: "string \<Rightarrow> string \<Rightarrow> string \<Rightarrow> string" where
  "ReplaceAll [] old new = []"
| "ReplaceAll (c # s) old new =
     (if old \<noteq> [] \<and> prefix old (c # s) then new @ ReplaceAll (drop (length old) (c # s)) old new
      else c # ReplaceAll s old new)"
  by pat_completeness auto
termination
proof (relation "measure (\<lambda>(s, _, _). length s)", goal_cases)
  case (2 c s old new)
  then show ?case by (cases old) auto
qed auto

text \<open>\<^verbatim>\<open>bufio.ScanLines\<close>: lines without their end of line, and no empty last line.\<close>

fun drop_cr :: "string \<Rightarrow> string" where
  "drop_cr l = (if l \<noteq> [] \<and> last l = CHR 0x0D then butlast l else l)"

fun scan :: "string \<Rightarrow> string \<Rightarrow> string list" where
  "scan acc [] = (if acc = [] then [] else [drop_cr acc])"
| "scan acc (c # s) = (if c = nl then drop_cr acc # scan [] s else scan (acc @ [c]) s)"

definition ScanLines :: "string \<Rightarrow> string list" where
  "ScanLines s = scan [] s"

section \<open>The notice\<close>

definition boilerplateFilePath :: string where
  "boilerplateFilePath = ''./vmray-cluster-operator/hack/boilerplate.go.txt''"

text \<open>The file to read is given by its content, or the error of opening it.\<close>

definition getCopyrightHeader :: "string + string \<Rightarrow> string outcome" where
  "getCopyrightHeader file =
     (case file of
        Inl err \<Rightarrow> Returns ''''
      | Inr content \<Rightarrow>
          (case ScanLines content of
             [] \<Rightarrow> Panics ''index out of range''
           | first # _ \<Rightarrow>
               let copyrightText = (if prefix ''//'' first then TrimPrefix (drop 2 first) '' '' else first)
               in Returns (ReplaceAll copyrightText ''(c)'' ([CHR 0x5C] @ ''(c'' @ [CHR 0x5C] @ '')''))))"

section \<open>The header of a file\<close>

text \<open>
  One comment of a group: its text without the comment markers, and whether a block comment
  is still open.
\<close>

definition comment_text :: "bool \<Rightarrow> string \<Rightarrow> (bool \<times> string) outcome" where
  "comment_text inComment text =
     (let (inComment, text) =
        (if inComment then (True, text)
         else if prefix ''/*'' text then (True, TrimPrefix (drop 2 text) '' '')
         else if prefix ''//'' text then (False, TrimPrefix (drop 2 text) '' '')
         else (False, text))
      in if inComment \<and> suffix ''*/'' text
         then (let text = take (length text - 2) text
               in if length text < 2 then Panics ''slice bounds out of range''
                  else Returns (False, TrimSuffix (take (length text - 2) text) '' ''))
         else Returns (inComment, text))"

fun group_text :: "bool \<Rightarrow> string list \<Rightarrow> string \<Rightarrow> string outcome" where
  "group_text inComment [] comment = Returns comment"
| "group_text inComment (c # cs) comment =
     (case comment_text inComment c of
        Panics msg \<Rightarrow> Panics msg
      | Returns (inComment', text) \<Rightarrow> group_text inComment' cs (comment @ text @ [nl]))"

fun find_notice :: "(string \<Rightarrow> bool) \<Rightarrow> string list list \<Rightarrow> bool outcome" where
  "find_notice copyright [] = Returns False"
| "find_notice copyright (cg # cgs) =
     (case group_text False cg '''' of
        Panics msg \<Rightarrow> Panics msg
      | Returns comment \<Rightarrow> if copyright comment then Returns True else find_notice copyright cgs)"

text \<open>A file is given by its content or the error of reading it.\<close>

definition hasCopyrightHeader ::
  "(string \<Rightarrow> string + string list list) \<Rightarrow> string + string \<Rightarrow> (string \<Rightarrow> bool) \<Rightarrow> (string + bool) outcome" where
  "hasCopyrightHeader parse_comments file copyright =
     (case file of
        Inl err \<Rightarrow> Returns (Inl err)
      | Inr src \<Rightarrow>
          (case parse_comments src of
             Inl err \<Rightarrow> Returns (Inl err)
           | Inr comments \<Rightarrow>
               (case find_notice copyright comments of
                  Panics msg \<Rightarrow> Panics msg
                | Returns ok \<Rightarrow> Returns (Inr ok))))"

section \<open>The walk\<close>

text \<open>
  A directory tree as \<^verbatim>\<open>filepath.Walk\<close> sees it: names in lexical order, and entries that cannot
  be examined.
\<close>

datatype fs_node = Dir string "fs_node list" | File string "string + string" | Unreadable string string

text \<open>How a walk ends: it goes on, the program exits with a message, or it panics.\<close>

datatype walk_end = Done | Fatal string | Crash string

text \<open>
  \<^verbatim>\<open>filepath.Clean\<close> on slash-separated paths: empty elements and \<^verbatim>\<open>.\<close> go, \<^verbatim>\<open>..\<close> takes the element
  before it along, except at the start of a relative path and at the root, and nothing at all is
  \<^verbatim>\<open>.\<close>. \<^verbatim>\<open>filepath.Join\<close> cleans what it puts together; an empty directory does not count.
\<close>

fun path_elements :: "string \<Rightarrow> string list" where
  "path_elements [] = ['''']"
| "path_elements (c # s) =
     (if c = CHR ''/'' then '''' # path_elements s
      else (case path_elements s of e # es \<Rightarrow> (c # e) # es | [] \<Rightarrow> [[c]]))"

fun clean_elements :: "bool \<Rightarrow> string list \<Rightarrow> string list \<Rightarrow> string list" where
  "clean_elements rooted out [] = rev out"
| "clean_elements rooted out (e # es) =
     (if e = '''' \<or> e = ''.'' then clean_elements rooted out es
      else if e \<noteq> ''..'' then clean_elements rooted (e # out) es
      else if out \<noteq> [] \<and> hd out \<noteq> ''..'' then clean_elements rooted (tl out) es
      else if rooted then clean_elements rooted out es
      else clean_elements rooted (e # out) es)"

definition Clean :: "string \<Rightarrow> string" where
  "Clean path =
     (let rooted = prefix ''/'' path; es = clean_elements rooted [] (path_elements path)
      in if rooted then ''/'' @ strings_Join es ''/''
         else if es = [] then ''.'' else strings_Join es ''/'')"

definition Join :: "string \<Rightarrow> string \<Rightarrow> string" where
  "Join dir name =
     (if dir \<noteq> '''' then Clean (dir @ ''/'' @ name) else if name \<noteq> '''' then Clean name else '''')"

lemma Join_examples:
  "Join ''.'' ''a.go'' = ''a.go''" "Join ''./sub/'' ''a.go'' = ''sub/a.go''" "Join ''/'' ''a.go'' = ''/a.go''"
  "Join ''../x//y/../z'' ''a.go'' = ''../x/z/a.go''" "Join '''' ''a.go'' = ''a.go''"
  by code_simp+

definition is_go :: "string \<Rightarrow> bool" where
  "is_go name \<longleftrightarrow> suffix ''.go'' name"

definition visit_file ::
  "(string \<Rightarrow> string + string list list) \<Rightarrow> (string \<Rightarrow> bool) \<Rightarrow> string \<Rightarrow> string \<Rightarrow> string + string \<Rightarrow> string list \<times> walk_end" where
  "visit_file parse_comments copyright path name file =
     (if \<not> is_go name then ([], Done)
      else (case hasCopyrightHeader parse_comments file copyright of
              Panics msg \<Rightarrow> ([], Crash msg)
            | Returns (Inl err) \<Rightarrow> ([], Fatal (''could not check '' @ path @ '': '' @ err))
            | Returns (Inr ok) \<Rightarrow> (if ok then [] else [path], Done)))"

fun walk ::
  "(string \<Rightarrow> string + string list list) \<Rightarrow> (string \<Rightarrow> bool) \<Rightarrow> string \<Rightarrow> fs_node \<Rightarrow> string list \<times> walk_end"
and walk_all ::
  "(string \<Rightarrow> string + string list list) \<Rightarrow> (string \<Rightarrow> bool) \<Rightarrow> string \<Rightarrow> fs_node list \<Rightarrow> string list \<times> walk_end" where
  "walk pc cr path (Unreadable name err) = ([], Fatal (''error during walk: '' @ err))"
| "walk pc cr path (File name file) = visit_file pc cr path name file"
| "walk pc cr path (Dir name children) = (if name = ''testdata'' then ([], Done) else walk_all pc cr path children)"
| "walk_all pc cr path [] = ([], Done)"
| "walk_all pc cr path (n # ns) =
     (let name = (case n of Dir x _ \<Rightarrow> x | File x _ \<Rightarrow> x | Unreadable x _ \<Rightarrow> x)
      in (case walk pc cr (Join path name) n of
            (out, Done) \<Rightarrow> (case walk_all pc cr path ns of (out', e) \<Rightarrow> (out @ out', e))
          | (out, e) \<Rightarrow> (out, e)))"

text \<open>The directories named on the command line, each with its path.\<close>

fun walk_dirs ::
  "(string \<Rightarrow> string + string list list) \<Rightarrow> (string \<Rightarrow> bool) \<Rightarrow> (string \<times> fs_node) list \<Rightarrow> string list \<times> walk_end" where
  "walk_dirs pc cr [] = ([], Done)"
| "walk_dirs pc cr ((dir, n) # rest) =
     (case walk pc cr dir n of
        (out, Done) \<Rightarrow> (case walk_dirs pc cr rest of (out', e) \<Rightarrow> (out @ out', e))
      | (out, e) \<Rightarrow> (out, e))"

text \<open>
  The program: the notice is the flag's or the boilerplate's, \<open>lookup\<close> finds a directory. The
  result is the exit code (1 for \<^verbatim>\<open>log.Fatalf\<close>) with the reported paths.
\<close>

definition copyrights_main ::
  "(string \<Rightarrow> string + (string \<Rightarrow> bool)) \<Rightarrow> (string \<Rightarrow> string + string list list) \<Rightarrow> (string \<Rightarrow> string + string) \<Rightarrow>
   (string \<Rightarrow> fs_node) \<Rightarrow> string option \<Rightarrow> string list \<Rightarrow> (nat \<times> string list) outcome" where
  "copyrights_main compile pc open_file lookup notice args =
     (case getCopyrightHeader (open_file boilerplateFilePath) of
        Panics msg \<Rightarrow> Panics msg
      | Returns copyrightText \<Rightarrow>
          (case compile (case notice of None \<Rightarrow> copyrightText | Some n \<Rightarrow> n) of
             Inl err \<Rightarrow> Returns (1, [])
           | Inr copyright \<Rightarrow>
               let dirs = (if args = [] then [''.''] else args)
               in (case walk_dirs pc copyright (map (\<lambda>d. (d, lookup d)) dirs) of
                     (out, Crash msg) \<Rightarrow> Panics msg
                   | (out, Fatal msg) \<Rightarrow> Returns (1, out)
                   | (out, Done) \<Rightarrow> Returns (if out \<noteq> [] then 3 else 0, out))))"

section \<open>What the check decides\<close>

text \<open>The Go files a walk has to look at: those not below a directory named \<^verbatim>\<open>testdata\<close>.\<close>

fun go_files :: "string \<Rightarrow> fs_node \<Rightarrow> (string \<times> (string + string)) list"
and go_files_all :: "string \<Rightarrow> fs_node list \<Rightarrow> (string \<times> (string + string)) list" where
  "go_files path (Unreadable name err) = []"
| "go_files path (File name file) = (if is_go name then [(path, file)] else [])"
| "go_files path (Dir name children) = (if name = ''testdata'' then [] else go_files_all path children)"
| "go_files_all path [] = []"
| "go_files_all path (n # ns) =
     go_files (Join path (case n of Dir x _ \<Rightarrow> x | File x _ \<Rightarrow> x | Unreadable x _ \<Rightarrow> x)) n @ go_files_all path ns"

fun examinable :: "fs_node \<Rightarrow> bool" where
  "examinable (Unreadable name err) = False"
| "examinable (File name file) = True"
| "examinable (Dir name children) = (name = ''testdata'' \<or> list_all examinable children)"

text \<open>
  A comment as the language has it, and what the check takes its text to be: a line comment
  without its marker and one space, a block comment between its markers, without one space at
  either end and, because the end marker is cut off twice, without the two characters before
  it. A block comment with less than these two characters makes the program panic.
\<close>

datatype comment = Line string | Block string

fun comment_source :: "comment \<Rightarrow> string" where
  "comment_source (Line s) = ''//'' @ s"
| "comment_source (Block s) = ''/*'' @ s @ ''*/''"

fun skip_space :: "string \<Rightarrow> string" where
  "skip_space [] = []"
| "skip_space (c # s) = (if c = CHR '' '' then s else c # s)"

fun visible :: "comment \<Rightarrow> string" where
  "visible (Line s) = skip_space s"
| "visible (Block s) = rev (skip_space (drop 2 (rev (skip_space s))))"

fun long_enough :: "comment \<Rightarrow> bool" where
  "long_enough (Line s) = True"
| "long_enough (Block s) = (2 \<le> length (skip_space s))"

text \<open>A file shows the notice if one of its comment groups, one comment a line, matches it.\<close>

definition shows_notice :: "(string \<Rightarrow> bool) \<Rightarrow> comment list list \<Rightarrow> bool" where
  "shows_notice copyright groups \<longleftrightarrow> list_ex (\<lambda>cg. copyright (concat (map (\<lambda>c. visible c @ [nl]) cg))) groups"

text \<open>A Go file that can be read and parsed; \<open>comments\<close> are the groups above its package clause.\<close>

definition checkable ::
  "(string \<Rightarrow> string + string list list) \<Rightarrow> (string \<Rightarrow> comment list list) \<Rightarrow> string + string \<Rightarrow> bool" where
  "checkable pc comments file \<longleftrightarrow> (case file of
     Inl err \<Rightarrow> False
   | Inr src \<Rightarrow> pc src = Inr (map (map comment_source) (comments src)) \<and> list_all (list_all long_enough) (comments src))"

definition marked :: "(string \<Rightarrow> comment list list) \<Rightarrow> (string \<Rightarrow> bool) \<Rightarrow> string + string \<Rightarrow> bool" where
  "marked comments copyright file \<longleftrightarrow> (case file of Inl err \<Rightarrow> False | Inr src \<Rightarrow> shows_notice copyright (comments src))"

lemma trim_space: "TrimPrefix s '' '' = skip_space s" "TrimSuffix s '' '' = rev (skip_space (rev s))"
proof -
  show p: "TrimPrefix s '' '' = skip_space s" for s by (cases s) (auto simp: TrimPrefix_def)
  have "TrimSuffix s '' '' = rev (TrimPrefix (rev s) '' '')"
    by (simp add: TrimSuffix_def TrimPrefix_def suffix_to_prefix rev_drop)
  then show "TrimSuffix s '' '' = rev (skip_space (rev s))" by (simp only: p)
qed

lemma comment_text_visible:
  assumes "long_enough c"
  shows "comment_text False (comment_source c) = Returns (False, visible c)"
proof (cases c)
  case (Line s)
  then show ?thesis by (simp add: comment_text_def trim_space)
next
  case (Block s)
  have sp: "skip_space (s @ ''*/'') = skip_space s @ ''*/''" by (cases s) simp_all
  have "suffix ''*/'' (skip_space s @ ''*/'')" by (simp add: suffix_def)
  moreover have "rev (take (length t - 2) t) = drop 2 (rev t)" for t :: string by (simp add: drop_rev)
  ultimately show ?thesis using assms Block by (simp add: comment_text_def trim_space sp Let_def)
qed

lemma group_text_visible:
  "list_all long_enough cg \<Longrightarrow>
   group_text False (map comment_source cg) acc = Returns (acc @ concat (map (\<lambda>c. visible c @ [nl]) cg))"
  by (induction cg arbitrary: acc) (simp_all add: comment_text_visible)

lemma find_notice_shows:
  "list_all (list_all long_enough) groups \<Longrightarrow>
   find_notice copyright (map (map comment_source) groups) = Returns (shows_notice copyright groups)"
  by (induction groups) (simp_all add: group_text_visible shows_notice_def)

lemma hasCopyrightHeader_marked:
  "checkable pc comments file \<Longrightarrow> hasCopyrightHeader pc file cr = Returns (Inr (marked comments cr file))"
  by (auto simp: checkable_def marked_def hasCopyrightHeader_def find_notice_shows split: sum.splits)

definition unmarked ::
  "(string \<Rightarrow> comment list list) \<Rightarrow> (string \<Rightarrow> bool) \<Rightarrow> (string \<times> (string + string)) list \<Rightarrow> string list" where
  "unmarked comments cr fs = map fst (filter (\<lambda>(path, file). \<not> marked comments cr file) fs)"

lemma unmarked_append [simp]: "unmarked comments cr (fs @ gs) = unmarked comments cr fs @ unmarked comments cr gs"
  by (simp add: unmarked_def)

lemma visit_file_decided:
  assumes "is_go name \<Longrightarrow> checkable pc comments file"
  shows "visit_file pc cr path name file = (unmarked comments cr (go_files path (File name file)), Done)"
  using assms by (auto simp: visit_file_def unmarked_def hasCopyrightHeader_marked)

abbreviation all_checkable ::
  "(string \<Rightarrow> string + string list list) \<Rightarrow> (string \<Rightarrow> comment list list) \<Rightarrow> (string \<times> (string + string)) list \<Rightarrow> bool" where
  "all_checkable pc comments fs \<equiv> list_all (\<lambda>(path, file). checkable pc comments file) fs"

lemma walk_decided:
  "examinable n \<Longrightarrow> all_checkable pc comments (go_files path n) \<Longrightarrow>
     walk pc cr path n = (unmarked comments cr (go_files path n), Done)"
  "list_all examinable ns \<Longrightarrow> all_checkable pc comments (go_files_all path ns) \<Longrightarrow>
     walk_all pc cr path ns = (unmarked comments cr (go_files_all path ns), Done)"
proof (induction pc cr path n and pc cr path ns rule: walk_walk_all.induct)
  case (2 pc cr path name content)
  then have "is_go name \<Longrightarrow> checkable pc comments content" by simp
  from visit_file_decided [OF this] show ?case by simp
qed (auto simp: unmarked_def)

lemma walk_dirs_decided:
  assumes "list_all (\<lambda>(d, n). examinable n \<and> all_checkable pc comments (go_files d n)) ds"
  shows "walk_dirs pc cr ds = (unmarked comments cr (concat (map (\<lambda>(d, n). go_files d n) ds)), Done)"
  using assms
proof (induction ds)
  case (Cons x ds)
  then show ?case by (cases x) (simp add: walk_decided(1) [where comments = comments])
qed (simp add: unmarked_def)

text \<open>
  C38: the verdict of the check. Suppose the notice compiles, every entry below the given
  directories (the current one if none is given) can be examined, and every Go file outside
  \<^verbatim>\<open>testdata\<close> can be read and parsed and has no block comment so short that the program panics.
  Then the program reports exactly the Go files in which no comment group matches the notice,
  in the order of the walk, and exits with 0 if there are none and with 3 otherwise. The text of
  a group is that of its comments without their markers, one a line, where a block comment
  lacks its last two characters.
\<close>

theorem copyrights_verdict:
  assumes "getCopyrightHeader (open_file boilerplateFilePath) = Returns text"
    and "compile (case notice of None \<Rightarrow> text | Some n \<Rightarrow> n) = Inr copyright"
    and "files = concat (map (\<lambda>d. go_files d (lookup d)) (if args = [] then [''.''] else args))"
    and "list_all (\<lambda>d. examinable (lookup d)) (if args = [] then [''.''] else args)"
    and "list_all (\<lambda>(path, file). checkable pc comments file) files"
  shows "copyrights_main compile pc open_file lookup notice args =
    (let bad = map fst (filter (\<lambda>(path, file). \<not> marked comments copyright file) files)
     in Returns (if bad = [] then 0 else 3, bad))"
proof -
  let ?dirs = "if args = [] then [''.''] else args"
  have "list_all (\<lambda>(d, n). examinable n \<and> all_checkable pc comments (go_files d n)) (map (\<lambda>d. (d, lookup d)) ?dirs)"
    using assms(4,5) unfolding assms(3) by (auto simp: list_all_iff)
  from walk_dirs_decided [OF this]
  have "walk_dirs pc copyright (map (\<lambda>d. (d, lookup d)) ?dirs) = (unmarked comments copyright files, Done)"
    by (simp add: assms(3) comp_def)
  with assms(1,2) show ?thesis by (simp add: copyrights_main_def unmarked_def Let_def)
qed

definition sample_tree :: fs_node where
  "sample_tree = Dir ''a'' [File ''ok.go'' (Inr ''1''), Dir ''testdata'' [File ''x.go'' (Inr ''2'')], File ''z.go'' (Inr ''2''),
     File ''zz.go'' (Inr ''3'')]"

text \<open>The notice in a line comment, no notice, and the notice at the end of a block comment.\<close>

definition sample_comments :: "string \<Rightarrow> comment list list" where
  "sample_comments src =
     (if src = ''1'' then [[Line '' more''], [Line '' (c) 2024'', Line '' more'']]
      else if src = ''3'' then [[Block '' (c) 2024 '']] else [])"

definition sample_parse :: "string \<Rightarrow> string + string list list" where
  "sample_parse src = Inr (map (map comment_source) (sample_comments src))"

theorem copyrights_verdict_witness:
  "copyrights_main (\<lambda>t. Inr (\<lambda>s. sublist ''(c) 2024'' s)) sample_parse (\<lambda>_. Inr ''// Copyright (c) 2024'')
     (\<lambda>_. sample_tree) None [''./a/''] = Returns (3, [''a/z.go'', ''a/zz.go''])"
proof -
  let ?cr = "\<lambda>s. sublist ''(c) 2024'' s"
  have t: "getCopyrightHeader (Inr ''// Copyright (c) 2024'') =
      Returns (''Copyright '' @ [CHR 0x5C] @ ''(c'' @ [CHR 0x5C] @ '') 2024'')" by code_simp
  have files: "[(''a/ok.go'', Inr ''1''), (''a/z.go'', Inr ''2''), (''a/zz.go'', Inr ''3'')] =
      concat (map (\<lambda>d. go_files d sample_tree) (if [''./a/''] = [] then [''.''] else [''./a/'']))"
    "list_all (\<lambda>d. examinable sample_tree) (if [''./a/''] = [] then [''.''] else [''./a/''])"
    by code_simp+
  have ok: "list_all (\<lambda>(path, file). checkable sample_parse sample_comments file)
      [(''a/ok.go'', Inr ''1''), (''a/z.go'', Inr ''2''), (''a/zz.go'', Inr ''3'')]"
    by (simp add: checkable_def sample_parse_def sample_comments_def)
  have shown: "marked sample_comments ?cr (Inr ''1'')" "\<not> marked sample_comments ?cr (Inr ''2'')"
    "\<not> marked sample_comments ?cr (Inr ''3'')"
    by (simp_all add: marked_def shows_notice_def sample_comments_def nl_def sublist_code)
  show ?thesis
    using copyrights_verdict [OF t, of _ _ ?cr _ "\<lambda>_. sample_tree" "[''./a/'']", OF _ files ok] shown by simp
qed

text \<open>
  C39: comments in a group. A line comment contributes its text after the marker and one space. A
  block comment on one line loses two characters more than its end marker, so a notice that
  ends there is cut off, and the program panics when fewer than two are left, as for an
  empty block comment.
\<close>

theorem comment_text_markers:
  "comment_text False (''//'' @ '' '' @ body) = Returns (False, body) \<and>
   comment_text False (''/*'' @ '' '' @ body @ ''*/'') =
     (if length body < 2 then Panics ''slice bounds out of range''
      else Returns (False, TrimSuffix (take (length body - 2) body) '' ''))"
proof -
  have "suffix ''*/'' (body @ ''*/'')" by (simp add: suffix_def)
  then show ?thesis by (auto simp: comment_text_def TrimPrefix_def Let_def)
qed

end
