(* ===== verification/Deep_Copy.thy ===== *)
theory Deep_Copy
  imports Api_Types
begin

text \<open>
  The generated copying functions, \<^verbatim>\<open>api/v1alpha1/zz_generated.deepcopy.go\<close>, over an explicit
  memory. The other theories treat a cluster as a value, although the Go code passes pointers
  and changes maps and slices in place; the reconciler relies on \<^verbatim>\<open>instance.DeepCopy()\<close> for the
  original against which it later computes a patch. Here a struct holds addresses where the Go
  struct holds pointers, maps and slices, a relation says which value of \<^verbatim>\<open>Api_Types\<close> such a
  struct stands for, and a copy is shown to stand for the same value on memory of its own.
\<close>

section \<open>Memory\<close>

type_synonym addr = nat

text \<open>A non-nil slice: a window of a backing array.\<close>

record slice =
  sl_array :: addr
  sl_offset :: nat
  sl_len :: nat
  sl_cap :: nat

text \<open>
  The structs of the API as they lie in memory. Structs without pointers, maps or slices are
  those of \<^verbatim>\<open>Api_Types\<close>.
\<close>

record mHeadNodeConfig =
  mhn_SetupCommands :: "slice option"
  mhn_Port :: "addr option"
  mhn_NodeType :: string

record mWorkerNodeConfig =
  mwn_SetupCommands :: "slice option"

record mCommonNodeConfig =
  mnc_VMImage :: string
  mnc_StorageClass :: string
  mnc_VMUser :: string
  mnc_VMPasswordSaltHash :: string
  mnc_Network :: "addr option"
  mnc_NodeTypes :: "addr option"
  mnc_MaxWorkers :: uint
  mnc_IdleTimeoutMinutes :: uint
  mnc_SetupCommands :: "slice option"
  mnc_InitializationCommands :: "slice option"

record mVMRayClusterSpec =
  mspec_Image :: string
  mspec_ApiServer :: ApiServerInfo
  mspec_HeadNode :: mHeadNodeConfig
  mspec_WorkerNode :: mWorkerNodeConfig
  mspec_NodeConfig :: mCommonNodeConfig
  mspec_AutoscalerDesiredWorkers :: "addr option"
  mspec_EnableTLS :: bool
  mspec_DockerConfig :: DockerRegistryConfig

record mVMRayNodeStatus =
  mns_Ip :: string
  mns_Conditions :: "slice option"
  mns_VmStatus :: VMNodeStatus
  mns_RayStatus :: RayProcessStatus

record mVMRayClusterStatus =
  mst_HeadNodeStatus :: mVMRayNodeStatus
  mst_CurrentWorkers :: "addr option"
  mst_ClusterState :: VMRayClusterState
  mst_Conditions :: "slice option"
  mst_VMServiceStatus :: VMServiceStatus

text \<open>The library's metadata, with the fields of \<^typ>\<open>ObjectMeta\<close>.\<close>

record TypeMeta =
  tm_Kind :: string
  tm_APIVersion :: string

record mObjectMeta =
  mom_Name :: string
  mom_Namespace :: string
  mom_Labels :: "addr option"
  mom_Finalizers :: "slice option"
  mom_DeletionTimestamp :: "addr option"

record mListMeta =
  mlm_ResourceVersion :: string
  mlm_Continue :: string
  mlm_RemainingItemCount :: "addr option"

record mVMRayCluster =
  mvc_TypeMeta :: TypeMeta
  mvc_ObjectMeta :: mObjectMeta
  mvc_Spec :: mVMRayClusterSpec
  mvc_Status :: mVMRayClusterStatus

record mVMRayClusterList =
  mvl_TypeMeta :: TypeMeta
  mvl_ListMeta :: mListMeta
  mvl_Items :: "slice option"

text \<open>
  What an address can hold: a backing array, a map, or a variable made by \<^verbatim>\<open>new\<close>. The struct
  of the VM operator's network specification is the type parameter.
\<close>

datatype 'n cell =
    StringArray "string list"
  | ConditionArray "Condition list"
  | ClusterArray "mVMRayCluster list"
  | NodeTypeMap "NodeType gomap"
  | StringMap "string gomap"
  | WorkerMap "mVMRayNodeStatus gomap"
  | UintVar uint
  | TimeVar string
  | NetworkVar 'n
  | ApiServerInfoVar ApiServerInfo
  | CommonNodeConfigVar mCommonNodeConfig
  | DockerRegistryConfigVar DockerRegistryConfig
  | HeadNodeConfigVar mHeadNodeConfig
  | NodeResourceVar NodeResource
  | NodeTypeVar NodeType
  | VMRayClusterVar mVMRayCluster
  | VMRayClusterListVar mVMRayClusterList
  | VMRayClusterSpecVar mVMRayClusterSpec
  | VMRayClusterStatusVar mVMRayClusterStatus
  | VMRayNodeStatusVar mVMRayNodeStatus
  | VMServiceStatusVar VMServiceStatus
  | WorkerNodeConfigVar mWorkerNodeConfig

record 'n go_heap =
  hp_next :: addr
  hp_cells :: "addr \<rightharpoonup> 'n cell"

definition wf_heap :: "'n go_heap \<Rightarrow> bool" where
  "wf_heap h \<longleftrightarrow> dom (hp_cells h) \<subseteq> {..<hp_next h}"

text \<open>Taking a fresh address, and writing a cell.\<close>

definition reserve :: "'n go_heap \<Rightarrow> addr \<times> 'n go_heap" where
  "reserve h = (hp_next h, h\<lparr>hp_next := Suc (hp_next h)\<rparr>)"

definition store_cell :: "addr \<Rightarrow> 'n cell \<Rightarrow> 'n go_heap \<Rightarrow> 'n go_heap" where
  "store_cell a x h = h\<lparr>hp_cells := (hp_cells h)(a \<mapsto> x)\<rparr>"

lemma store_cell_sel [simp]:
  "hp_cells (store_cell a x h) = (hp_cells h)(a \<mapsto> x)" "hp_next (store_cell a x h) = hp_next h"
  by (simp_all add: store_cell_def)

text \<open>\<open>h'\<close> extends \<open>h\<close>: what was there before is unchanged.\<close>

definition extends :: "'n go_heap \<Rightarrow> 'n go_heap \<Rightarrow> bool" where
  "extends h h' \<longleftrightarrow> wf_heap h' \<and> hp_next h \<le> hp_next h' \<and> (\<forall>a<hp_next h. hp_cells h' a = hp_cells h a)"

lemma extends_refl: "wf_heap h \<Longrightarrow> extends h h"
  by (simp add: extends_def)

lemma extends_trans: "extends h h1 \<Longrightarrow> extends h1 h2 \<Longrightarrow> extends h h2"
  by (simp add: extends_def)

lemma extends_wf: "extends h h' \<Longrightarrow> wf_heap h'"
  by (simp add: extends_def)

text \<open>The typed contents of a cell.\<close>

record ('x, 'n) kind =
  k_in :: "'x \<Rightarrow> 'n cell"
  k_out :: "'n cell \<Rightarrow> 'x option"

definition kind_ok :: "('x, 'n) kind \<Rightarrow> bool" where
  "kind_ok k \<longleftrightarrow> (\<forall>c x. k_out k c = Some x \<longleftrightarrow> c = k_in k x)"

definition deref :: "('x, 'n) kind \<Rightarrow> 'n go_heap \<Rightarrow> addr \<Rightarrow> 'x option" where
  "deref k h a = Option.bind (hp_cells h a) (k_out k)"

lemma deref_Some: "kind_ok k \<Longrightarrow> deref k h a = Some x \<longleftrightarrow> hp_cells h a = Some (k_in k x)"
  by (cases "hp_cells h a") (auto simp: deref_def kind_ok_def)

section \<open>Copiers\<close>

text \<open>
  The contract of a copying function: it only adds to the memory, what it returns stands for the
  same value as its argument, and everything reachable from it is new.
\<close>

locale deep_copier =
  fixes copy :: "'m \<Rightarrow> 'n go_heap \<Rightarrow> 'm \<times> 'n go_heap"
    and refs :: "'n go_heap \<Rightarrow> 'm \<Rightarrow> addr set"
    and repr :: "'n go_heap \<Rightarrow> 'm \<Rightarrow> 'v \<Rightarrow> bool"
  assumes copy_extends: "wf_heap h \<Longrightarrow> copy m h = (m', h') \<Longrightarrow> extends h h'"
    and copy_repr: "wf_heap h \<Longrightarrow> repr h m v \<Longrightarrow> copy m h = (m', h') \<Longrightarrow> repr h' m' v"
    and copy_fresh: "wf_heap h \<Longrightarrow> repr h m v \<Longrightarrow> copy m h = (m', h') \<Longrightarrow> a \<in> refs h' m' \<Longrightarrow> hp_next h \<le> a"
    and refs_bound: "wf_heap h \<Longrightarrow> repr h m v \<Longrightarrow> a \<in> refs h m \<Longrightarrow> a < hp_next h"
    and frame: "repr h m v \<Longrightarrow> (\<And>a. a \<in> refs h m \<Longrightarrow> hp_cells h' a = hp_cells h a) \<Longrightarrow>
      repr h' m v \<and> refs h' m = refs h m"
begin

text \<open>A struct in memory is not affected by additions.\<close>

lemma stable:
  assumes "wf_heap h" and "repr h m v" and "extends h h'"
  shows "repr h' m v \<and> refs h' m = refs h m"
  using assms(2) by (rule frame) (use assms refs_bound in \<open>auto simp: extends_def\<close>)

text \<open>
  A copy is not affected by anything written to what existed before it was made or is made
  after it.
\<close>

lemma independent:
  assumes "wf_heap h" and "repr h m v" and "copy m h = (m', h')"
    and "\<And>a. hp_next h \<le> a \<Longrightarrow> a < hp_next h' \<Longrightarrow> hp_cells h2 a = hp_cells h' a"
  shows "repr h2 m' v \<and> refs h2 m' = refs h' m'"
proof (rule frame)
  show r: "repr h' m' v" using assms(1-3) by (rule copy_repr)
  show "hp_cells h2 a = hp_cells h' a" if "a \<in> refs h' m'" for a
    using assms(4) copy_fresh [OF assms(1-3) that] refs_bound [OF extends_wf r that] copy_extends [OF assms(1,3)]
    by blast
qed

end

subsection \<open>Values, pairs and structs\<close>

definition copy_value :: "'m \<Rightarrow> 'n go_heap \<Rightarrow> 'm \<times> 'n go_heap" where
  "copy_value m h = (m, h)"

definition value_refs :: "'n go_heap \<Rightarrow> 'm \<Rightarrow> addr set" where
  "value_refs h m = {}"

definition value_repr :: "'n go_heap \<Rightarrow> 'm \<Rightarrow> 'm \<Rightarrow> bool" where
  "value_repr h m v \<longleftrightarrow> m = v"

lemma value_copier: "deep_copier copy_value value_refs value_repr"
  by unfold_locales (auto simp: copy_value_def value_refs_def value_repr_def extends_refl)

interpretation plain_value: deep_copier copy_value value_refs value_repr
  by (rule value_copier)

definition copy_both ::
  "('m \<Rightarrow> 'n go_heap \<Rightarrow> 'm \<times> 'n go_heap) \<Rightarrow> ('k \<Rightarrow> 'n go_heap \<Rightarrow> 'k \<times> 'n go_heap) \<Rightarrow>
   'm \<times> 'k \<Rightarrow> 'n go_heap \<Rightarrow> ('m \<times> 'k) \<times> 'n go_heap" where
  "copy_both c1 c2 mk h = (case c1 (fst mk) h of (m', h1) \<Rightarrow> (case c2 (snd mk) h1 of (k', h2) \<Rightarrow> ((m', k'), h2)))"

definition both_refs ::
  "('n go_heap \<Rightarrow> 'm \<Rightarrow> addr set) \<Rightarrow> ('n go_heap \<Rightarrow> 'k \<Rightarrow> addr set) \<Rightarrow> 'n go_heap \<Rightarrow> 'm \<times> 'k \<Rightarrow> addr set" where
  "both_refs r1 r2 h mk = r1 h (fst mk) \<union> r2 h (snd mk)"

definition both_repr ::
  "('n go_heap \<Rightarrow> 'm \<Rightarrow> 'v \<Rightarrow> bool) \<Rightarrow> ('n go_heap \<Rightarrow> 'k \<Rightarrow> 'u \<Rightarrow> bool) \<Rightarrow> 'n go_heap \<Rightarrow> 'm \<times> 'k \<Rightarrow> 'v \<times> 'u \<Rightarrow> bool" where
  "both_repr p1 p2 h mk vu \<longleftrightarrow> p1 h (fst mk) (fst vu) \<and> p2 h (snd mk) (snd vu)"

lemma both_copier:
  assumes "deep_copier c1 r1 p1" and "deep_copier c2 r2 p2"
  shows "deep_copier (copy_both c1 c2) (both_refs r1 r2) (both_repr p1 p2)"
proof
  fix h h' :: "'b go_heap" and mk mk' and a :: addr and vu
  note first = deep_copier.copy_extends [OF assms(1)] deep_copier.copy_repr [OF assms(1)] deep_copier.copy_fresh [OF assms(1)]
  note second = deep_copier.copy_extends [OF assms(2)] deep_copier.copy_repr [OF assms(2)] deep_copier.copy_fresh [OF assms(2)]
  show "a < hp_next h" if "wf_heap h" "both_repr p1 p2 h mk vu" "a \<in> both_refs r1 r2 h mk"
    using that deep_copier.refs_bound [OF assms(1)] deep_copier.refs_bound [OF assms(2)]
    by (auto simp: both_repr_def both_refs_def)
  show "both_repr p1 p2 h' mk vu \<and> both_refs r1 r2 h' mk = both_refs r1 r2 h mk"
    if "both_repr p1 p2 h mk vu" "\<And>a. a \<in> both_refs r1 r2 h mk \<Longrightarrow> hp_cells h' a = hp_cells h a"
    using that deep_copier.frame [OF assms(1), of h "fst mk" "fst vu" h'] deep_copier.frame [OF assms(2), of h "snd mk" "snd vu" h']
    by (simp add: both_repr_def both_refs_def)
  assume wf: "wf_heap h" and run: "copy_both c1 c2 mk h = (mk', h')"
  obtain m1 h1 where 1: "c1 (fst mk) h = (m1, h1)" by fastforce
  obtain m2 where 2: "c2 (snd mk) h1 = (m2, h')" "mk' = (m1, m2)"
    using run 1 by (auto simp: copy_both_def split: prod.splits)
  note e1 = first(1) [OF wf 1]
  note e2 = second(1) [OF extends_wf [OF e1] 2(1)]
  show "extends h h'" using e1 e2 by (rule extends_trans)
  assume r: "both_repr p1 p2 h mk vu"
  have p1: "p1 h1 m1 (fst vu)" using first(2) [OF wf _ 1] r by (simp add: both_repr_def)
  have snd: "p2 h1 (snd mk) (snd vu)" using deep_copier.stable [OF assms(2) wf _ e1] r by (simp add: both_repr_def)
  note kept = deep_copier.stable [OF assms(1) extends_wf [OF e1] p1 e2]
  show "both_repr p1 p2 h' mk' vu"
    using kept second(2) [OF extends_wf [OF e1] snd 2(1)] by (simp add: both_repr_def 2(2))
  show "hp_next h \<le> a" if "a \<in> both_refs r1 r2 h' mk'"
    using that kept first(3) [OF wf _ 1, of "fst vu" a] second(3) [OF extends_wf [OF e1] snd 2(1), of a] r e1
    by (auto simp: both_repr_def both_refs_def 2(2) extends_def)
qed

text \<open>
  A struct is copied as a value first; then the fields \<open>get\<close> selects are replaced by copies of
  their own.
\<close>

lemma struct_copier:
  assumes "deep_copier c r p"
    and "\<And>s h. cs s h = (case c (get s) h of (t, h') \<Rightarrow> (put t s, h'))"
    and "\<And>h s. rs h s = r h (get s)" and "\<And>h s v. ps h s v \<longleftrightarrow> p h (get s) (vget v) \<and> rest s v"
    and "\<And>t s. get (put t s) = t" and "\<And>t s v. rest (put t s) v = rest s v"
  shows "deep_copier cs rs ps"
proof (unfold_locales, unfold assms(2-4))
  show "(p h' (get s) (vget v) \<and> rest s v) \<and> r h' (get s) = r h (get s)"
    if "p h (get s) (vget v) \<and> rest s v" "\<And>a. a \<in> r h (get s) \<Longrightarrow> hp_cells h' a = hp_cells h a" for h h' s v
    using that deep_copier.frame [OF assms(1), of h "get s" "vget v" h'] by simp
qed (auto simp: assms(5,6) split: prod.splits
    dest: deep_copier.copy_extends [OF assms(1)] deep_copier.copy_repr [OF assms(1)]
      deep_copier.copy_fresh [OF assms(1)] deep_copier.refs_bound [OF assms(1)])

subsection \<open>Pointers, slices and maps\<close>

text \<open>
  \<^verbatim>\<open>*out = new(T); (*in).DeepCopyInto(*out)\<close>: a new variable, into which the old one is copied.
\<close>

definition copy_new :: "('x, 'n) kind \<Rightarrow> ('x \<Rightarrow> 'n go_heap \<Rightarrow> 'x \<times> 'n go_heap) \<Rightarrow> 'x \<Rightarrow> 'n go_heap \<Rightarrow> addr \<times> 'n go_heap" where
  "copy_new k c x h =
     (case reserve h of (b, h0) \<Rightarrow> (case c x h0 of (y, h1) \<Rightarrow> (b, store_cell b (k_in k y) h1)))"

definition copy_pointer ::
  "('x, 'n) kind \<Rightarrow> ('x \<Rightarrow> 'n go_heap \<Rightarrow> 'x \<times> 'n go_heap) \<Rightarrow> addr option \<Rightarrow> 'n go_heap \<Rightarrow> addr option \<times> 'n go_heap" where
  "copy_pointer k c ptr h =
     (case ptr of
        None \<Rightarrow> (None, h)
      | Some a \<Rightarrow> (case deref k h a of
            None \<Rightarrow> (Some a, h)
          | Some x \<Rightarrow> (case copy_new k c x h of (b, h1) \<Rightarrow> (Some b, h1))))"

definition pointer_refs :: "('x, 'n) kind \<Rightarrow> ('n go_heap \<Rightarrow> 'x \<Rightarrow> addr set) \<Rightarrow> 'n go_heap \<Rightarrow> addr option \<Rightarrow> addr set" where
  "pointer_refs k r h ptr =
     (case ptr of None \<Rightarrow> {} | Some a \<Rightarrow> insert a (case deref k h a of None \<Rightarrow> {} | Some x \<Rightarrow> r h x))"

definition pointer_repr ::
  "('x, 'n) kind \<Rightarrow> ('n go_heap \<Rightarrow> 'x \<Rightarrow> 'v \<Rightarrow> bool) \<Rightarrow> 'n go_heap \<Rightarrow> addr option \<Rightarrow> 'v option \<Rightarrow> bool" where
  "pointer_repr k p h ptr ov =
     (case ptr of
        None \<Rightarrow> ov = None
      | Some a \<Rightarrow> (case (deref k h a, ov) of (Some x, Some v) \<Rightarrow> p h x v | _ \<Rightarrow> False))"

lemma reserve_extends: "wf_heap h \<Longrightarrow> reserve h = (b, h0) \<Longrightarrow> extends h h0 \<and> b = hp_next h \<and> hp_next h0 = Suc b"
  by (force simp: reserve_def extends_def wf_heap_def)

lemma store_extends:
  assumes "extends h h1" and "b < hp_next h1" and "hp_next h \<le> b"
  shows "extends h (store_cell b x h1)"
  using assms by (auto simp: extends_def wf_heap_def)

text \<open>What a new variable gives, for any copier of its contents.\<close>

lemma copy_new_run:
  assumes "deep_copier c r p" and "wf_heap h" and "copy_new k c x h = (b, h')"
  obtains y h0 h1 where "reserve h = (b, h0)" "c x h0 = (y, h1)" "h' = store_cell b (k_in k y) h1"
    "extends h h0" "extends h0 h1" "b = hp_next h" "hp_next h0 = Suc b" "extends h h'"
proof -
  obtain b0 h0 where 0: "reserve h = (b0, h0)" by fastforce
  obtain y h1 where 1: "c x h0 = (y, h1)" by fastforce
  note res = reserve_extends [OF assms(2) 0]
  note e = deep_copier.copy_extends [OF assms(1) extends_wf 1, of h]
  have b: "b0 = b" "h' = store_cell b (k_in k y) h1" using assms(3) 0 1 by (auto simp: copy_new_def)
  have "extends h (store_cell b (k_in k y) h1)"
    using res e b(1) by (intro store_extends extends_trans [of h h0 h1]) (auto simp: extends_def)
  with 0 1 b res e show ?thesis by (intro that) auto
qed

lemma copy_new_content:
  assumes "deep_copier c r p" and "kind_ok k" and "wf_heap h" and "p h x v" and "copy_new k c x h = (b, h')"
  shows "\<exists>y. deref k h' b = Some y \<and> p h' y v \<and> (\<forall>a\<in>r h' y. hp_next h \<le> a)"
proof -
  obtain y h0 h1 where run: "c x h0 = (y, h1)" "h' = store_cell b (k_in k y) h1"
    and e: "extends h h0" "extends h0 h1" and b: "b = hp_next h" "hp_next h0 = Suc b"
    using copy_new_run [OF assms(1,3,5)] by metis
  have x0: "p h0 x v" using deep_copier.stable [OF assms(1,3,4) e(1)] by simp
  note fresh = deep_copier.copy_fresh [OF assms(1) extends_wf [OF e(1)] x0 run(1)]
  have y1: "p h1 y v" by (rule deep_copier.copy_repr [OF assms(1) extends_wf [OF e(1)] x0 run(1)])
  have "p h' y v \<and> r h' y = r h1 y"
    by (rule deep_copier.frame [OF assms(1) y1]) (use fresh b in \<open>fastforce simp: run(2)\<close>)
  moreover have "deref k h' b = Some y" by (simp add: deref_Some [OF assms(2)] run(2))
  ultimately show ?thesis using fresh b by fastforce
qed

lemma pointer_copier:
  assumes "deep_copier c r p" and "kind_ok k"
  shows "deep_copier (copy_pointer k c) (pointer_refs k r) (pointer_repr k p)"
proof
  fix h h' :: "'b go_heap" and ptr ptr' and a :: addr and ov
  show "a < hp_next h" if "wf_heap h" "pointer_repr k p h ptr ov" "a \<in> pointer_refs k r h ptr"
    using that deep_copier.refs_bound [OF assms(1) that(1)]
    by (force simp: pointer_repr_def pointer_refs_def wf_heap_def deref_Some [OF assms(2)] split: option.splits)
  show "pointer_repr k p h' ptr ov \<and> pointer_refs k r h' ptr = pointer_refs k r h ptr"
    if r: "pointer_repr k p h ptr ov" and same: "\<And>a. a \<in> pointer_refs k r h ptr \<Longrightarrow> hp_cells h' a = hp_cells h a"
  proof (cases ptr)
    case (Some a)
    with r obtain x v where x: "deref k h a = Some x" "ov = Some v" "p h x v"
      by (auto simp: pointer_repr_def split: option.splits)
    moreover have "deref k h' a = Some x" using x(1) same [of a] Some by (simp add: deref_def pointer_refs_def)
    moreover have "p h' x v \<and> r h' x = r h x"
      by (rule deep_copier.frame [OF assms(1) x(3)]) (use same x Some in \<open>simp add: pointer_refs_def\<close>)
    ultimately show ?thesis using Some by (simp add: pointer_repr_def pointer_refs_def)
  qed (use r in \<open>simp add: pointer_repr_def pointer_refs_def\<close>)
  assume wf: "wf_heap h" and run: "copy_pointer k c ptr h = (ptr', h')"
  show "extends h h'" using run extends_refl [OF wf]
    by (auto simp: copy_pointer_def split: option.splits prod.splits elim: copy_new_run [OF assms(1) wf])
  assume r: "pointer_repr k p h ptr ov"
  have "pointer_repr k p h' ptr' ov \<and> (\<forall>a\<in>pointer_refs k r h' ptr'. hp_next h \<le> a)"
  proof (cases ptr)
    case (Some b)
    with r obtain x v where x: "deref k h b = Some x" "ov = Some v" "p h x v"
      by (auto simp: pointer_repr_def split: option.splits)
    with run Some obtain a where n: "copy_new k c x h = (a, h')" "ptr' = Some a"
      by (auto simp: copy_pointer_def split: prod.splits)
    have "a = hp_next h" by (rule copy_new_run [OF assms(1) wf n(1)])
    with copy_new_content [OF assms wf x(3) n(1)] n(2) x(2) show ?thesis
      by (auto simp: pointer_repr_def pointer_refs_def)
  qed (use run r in \<open>simp add: copy_pointer_def pointer_repr_def pointer_refs_def\<close>)
  then show "pointer_repr k p h' ptr' ov" "a \<in> pointer_refs k r h' ptr' \<Longrightarrow> hp_next h \<le> a" by simp_all
qed

text \<open>The elements of an array one after the other: \<^verbatim>\<open>for i := range *in { (*in)[i].DeepCopyInto(&(*out)[i]) }\<close>.\<close>

fun copy_list :: "('x \<Rightarrow> 'n go_heap \<Rightarrow> 'x \<times> 'n go_heap) \<Rightarrow> 'x list \<Rightarrow> 'n go_heap \<Rightarrow> 'x list \<times> 'n go_heap" where
  "copy_list c [] h = ([], h)"
| "copy_list c (x # xs) h = (case c x h of (y, h1) \<Rightarrow> (case copy_list c xs h1 of (ys, h2) \<Rightarrow> (y # ys, h2)))"

definition list_refs :: "('n go_heap \<Rightarrow> 'x \<Rightarrow> addr set) \<Rightarrow> 'n go_heap \<Rightarrow> 'x list \<Rightarrow> addr set" where
  "list_refs r h xs = (\<Union>x\<in>set xs. r h x)"

definition list_repr :: "('n go_heap \<Rightarrow> 'x \<Rightarrow> 'v \<Rightarrow> bool) \<Rightarrow> 'n go_heap \<Rightarrow> 'x list \<Rightarrow> 'v list \<Rightarrow> bool" where
  "list_repr p h xs vs \<longleftrightarrow> list_all2 (p h) xs vs"

lemma list_sel [simp]:
  "list_refs r h [] = {}" "list_refs r h (x # xs) = r h x \<union> list_refs r h xs"
  "list_repr p h [] vs \<longleftrightarrow> vs = []"
  "list_repr p h (x # xs) vs \<longleftrightarrow> (\<exists>v us. vs = v # us \<and> p h x v \<and> list_repr p h xs us)"
  by (auto simp: list_refs_def list_repr_def list_all2_Cons1)

lemma list_frame:
  assumes "deep_copier c r p" and "list_repr p h xs vs"
    and "\<And>a. a \<in> list_refs r h xs \<Longrightarrow> hp_cells h' a = hp_cells h a"
  shows "list_repr p h' xs vs \<and> list_refs r h' xs = list_refs r h xs"
  using assms(2,3)
proof (induction xs arbitrary: vs)
  case (Cons x xs)
  from Cons.prems(1) obtain v us where vs: "vs = v # us" "p h x v" "list_repr p h xs us" by auto
  moreover have "p h' x v \<and> r h' x = r h x" by (rule deep_copier.frame [OF assms(1) vs(2)]) (simp add: Cons.prems(2))
  ultimately show ?case using Cons.IH [OF vs(3)] Cons.prems(2) by simp
qed simp

lemma list_bound:
  assumes "deep_copier c r p" and "wf_heap h" and "list_repr p h xs vs" and "a \<in> list_refs r h xs"
  shows "a < hp_next h"
  using assms(3,4) deep_copier.refs_bound [OF assms(1,2)] by (induction xs arbitrary: vs) auto

lemma list_run:
  assumes "deep_copier c r p" and "wf_heap h" and "copy_list c xs h = (ys, h')"
  shows "extends h h' \<and> length ys = length xs \<and>
    (list_repr p h xs vs \<longrightarrow> list_repr p h' ys vs \<and> (\<forall>a\<in>list_refs r h' ys. hp_next h \<le> a))"
  using assms(2,3)
proof (induction xs arbitrary: h ys vs)
  case Nil
  then show ?case by (simp add: extends_refl)
next
  case (Cons x xs)
  obtain y h1 where 1: "c x h = (y, h1)" by fastforce
  from Cons.prems(2) 1 obtain zs where 2: "copy_list c xs h1 = (zs, h')" "ys = y # zs" by (auto split: prod.splits)
  note e1 = deep_copier.copy_extends [OF assms(1) Cons.prems(1) 1]
  note IH = Cons.IH [OF extends_wf [OF e1] 2(1)]
  then have e2: "extends h1 h'" "length zs = length xs" by simp_all
  show ?case
  proof (intro conjI impI)
    show "extends h h'" using e1 e2(1) by (rule extends_trans)
    show "length ys = length (x # xs)" using e2(2) by (simp add: 2(2))
    assume "list_repr p h (x # xs) vs"
    then obtain v us where vs: "vs = v # us" "p h x v" "list_repr p h xs us" by auto
    have tail: "list_repr p h1 xs us"
    proof (rule list_frame [OF assms(1) vs(3), THEN conjunct1])
      fix a assume "a \<in> list_refs r h xs"
      with list_bound [OF assms(1) Cons.prems(1) vs(3)] e1 show "hp_cells h1 a = hp_cells h a" by (simp add: extends_def)
    qed
    note y1 = deep_copier.copy_repr [OF assms(1) Cons.prems(1) vs(2) 1]
    note y2 = deep_copier.stable [OF assms(1) extends_wf [OF e1] y1 e2(1)]
    note IHr = IH [of us, THEN conjunct2, THEN conjunct2, THEN mp, OF tail]
    show "list_repr p h' ys vs" using y2 IHr by (simp add: 2(2) vs(1))
    show "\<forall>a\<in>list_refs r h' ys. hp_next h \<le> a"
      using y2 IHr deep_copier.copy_fresh [OF assms(1) Cons.prems(1) vs(2) 1] e1 by (fastforce simp: 2(2) extends_def)
  qed
qed

lemma list_copier:
  assumes "deep_copier c r p"
  shows "deep_copier (copy_list c) (list_refs r) (list_repr p)"
  by unfold_locales (use list_run [OF assms] list_bound [OF assms] list_frame [OF assms] in blast)+

text \<open>
  A slice: \<^verbatim>\<open>make([]T, len(*in))\<close> is a new array, filled with copies of the elements the slice
  shows. For strings, \<^verbatim>\<open>copy(*out, *in)\<close> copies them as values.
\<close>

definition slice_elems :: "('x list, 'n) kind \<Rightarrow> 'n go_heap \<Rightarrow> slice \<Rightarrow> 'x list" where
  "slice_elems k h s =
     (case deref k h (sl_array s) of None \<Rightarrow> [] | Some xs \<Rightarrow> take (sl_len s) (drop (sl_offset s) xs))"

definition slice_ok :: "('x list, 'n) kind \<Rightarrow> 'n go_heap \<Rightarrow> slice \<Rightarrow> bool" where
  "slice_ok k h s = (case deref k h (sl_array s) of None \<Rightarrow> False
     | Some xs \<Rightarrow> sl_len s \<le> sl_cap s \<and> sl_offset s + sl_cap s \<le> length xs)"

definition copy_slice ::
  "('x list, 'n) kind \<Rightarrow> ('x \<Rightarrow> 'n go_heap \<Rightarrow> 'x \<times> 'n go_heap) \<Rightarrow> slice option \<Rightarrow> 'n go_heap \<Rightarrow> slice option \<times> 'n go_heap" where
  "copy_slice k c s h =
     (case s of
        None \<Rightarrow> (None, h)
      | Some s \<Rightarrow> (let xs = slice_elems k h s in
          (case copy_new k (copy_list c) xs h of
             (b, h1) \<Rightarrow> (Some \<lparr>sl_array = b, sl_offset = 0, sl_len = length xs, sl_cap = length xs\<rparr>, h1))))"

definition slice_refs :: "('x list, 'n) kind \<Rightarrow> ('n go_heap \<Rightarrow> 'x \<Rightarrow> addr set) \<Rightarrow> 'n go_heap \<Rightarrow> slice option \<Rightarrow> addr set" where
  "slice_refs k r h s = (case s of None \<Rightarrow> {} | Some s \<Rightarrow> insert (sl_array s) (list_refs r h (slice_elems k h s)))"

definition slice_repr ::
  "('x list, 'n) kind \<Rightarrow> ('n go_heap \<Rightarrow> 'x \<Rightarrow> 'v \<Rightarrow> bool) \<Rightarrow> 'n go_heap \<Rightarrow> slice option \<Rightarrow> 'v list \<Rightarrow> bool" where
  "slice_repr k p h s vs =
     (case s of None \<Rightarrow> vs = [] | Some s \<Rightarrow> slice_ok k h s \<and> list_repr p h (slice_elems k h s) vs)"

lemma slice_copier:
  assumes "deep_copier c r p" and "kind_ok k"
  shows "deep_copier (copy_slice k c) (slice_refs k r) (slice_repr k p)"
proof
  note list = list_copier [OF assms(1)]
  fix h h' :: "'b go_heap" and s s' and a :: addr and vs
  show "a < hp_next h" if "wf_heap h" "slice_repr k p h s vs" "a \<in> slice_refs k r h s"
    using that list_bound [OF assms(1) that(1)]
    by (auto simp: slice_repr_def slice_refs_def slice_ok_def wf_heap_def deref_Some [OF assms(2)] split: option.splits)
  show "slice_repr k p h' s vs \<and> slice_refs k r h' s = slice_refs k r h s"
    if rep: "slice_repr k p h s vs" and same: "\<And>a. a \<in> slice_refs k r h s \<Longrightarrow> hp_cells h' a = hp_cells h a"
  proof (cases s)
    case (Some t)
    then have "deref k h' (sl_array t) = deref k h (sl_array t)" using same by (simp add: slice_refs_def deref_def)
    then have t: "slice_elems k h' t = slice_elems k h t" "slice_ok k h' t = slice_ok k h t"
      by (simp_all add: slice_elems_def slice_ok_def)
    have "list_repr p h' (slice_elems k h t) vs \<and> list_refs r h' (slice_elems k h t) = list_refs r h (slice_elems k h t)"
      by (rule list_frame [OF assms(1)]) (use rep same Some in \<open>simp_all add: slice_repr_def slice_refs_def\<close>)
    with t rep Some show ?thesis by (simp add: slice_repr_def slice_refs_def)
  qed (use rep in \<open>simp add: slice_repr_def slice_refs_def\<close>)
  assume wf: "wf_heap h" and run: "copy_slice k c s h = (s', h')"
  show "extends h h'" using run extends_refl [OF wf]
    by (auto simp: copy_slice_def Let_def split: option.splits prod.splits elim: copy_new_run [OF list wf])
  assume rep: "slice_repr k p h s vs"
  have "slice_repr k p h' s' vs \<and> (\<forall>a\<in>slice_refs k r h' s'. hp_next h \<le> a)"
  proof (cases s)
    case (Some t)
    let ?xs = "slice_elems k h t"
    from Some run obtain b where n: "copy_new k (copy_list c) ?xs h = (b, h')"
      "s' = Some \<lparr>sl_array = b, sl_offset = 0, sl_len = length ?xs, sl_cap = length ?xs\<rparr>"
      by (auto simp: copy_slice_def Let_def split: prod.splits)
    have xs: "list_repr p h ?xs vs" using rep Some by (simp add: slice_repr_def)
    obtain ys where ys: "deref k h' b = Some ys" "list_repr p h' ys vs" "\<forall>a\<in>list_refs r h' ys. hp_next h \<le> a"
      using copy_new_content [OF list assms(2) wf xs n(1)] by blast
    have "length ys = length ?xs" using xs ys(2) by (auto simp: list_repr_def dest!: list_all2_lengthD)
    moreover have "b = hp_next h" by (rule copy_new_run [OF list wf n(1)])
    ultimately show ?thesis using ys by (simp add: n(2) slice_repr_def slice_refs_def slice_ok_def slice_elems_def)
  qed (use run rep in \<open>simp add: copy_slice_def slice_repr_def slice_refs_def\<close>)
  then show "slice_repr k p h' s' vs" "a \<in> slice_refs k r h' s' \<Longrightarrow> hp_next h \<le> a" by simp_all
qed

text \<open>
  A map: \<^verbatim>\<open>for key, val := range *in { (*out)[key] = val }\<close>, with a copy of \<open>val\<close> where it has
  references. The order in which the entries are visited is \<open>ord\<close> of the next free address, so
  that every loop has an order of its own.
\<close>

fun copy_entries ::
  "('x \<Rightarrow> 'n go_heap \<Rightarrow> 'x \<times> 'n go_heap) \<Rightarrow> 'x gomap \<Rightarrow> 'x gomap \<Rightarrow> 'n go_heap \<Rightarrow> 'x gomap \<times> 'n go_heap" where
  "copy_entries c [] out h = (out, h)"
| "copy_entries c ((key, val) # es) out h =
     (case c val h of (y, h1) \<Rightarrow> copy_entries c es (gomap_set out key y) h1)"

definition copy_ranged ::
  "(addr \<Rightarrow> nat list) \<Rightarrow> ('x \<Rightarrow> 'n go_heap \<Rightarrow> 'x \<times> 'n go_heap) \<Rightarrow> 'x gomap \<Rightarrow> 'n go_heap \<Rightarrow> 'x gomap \<times> 'n go_heap" where
  "copy_ranged ord c m h = copy_entries c (go_range (ord (hp_next h)) m) [] h"

definition entries_refs :: "('n go_heap \<Rightarrow> 'x \<Rightarrow> addr set) \<Rightarrow> 'n go_heap \<Rightarrow> 'x gomap \<Rightarrow> addr set" where
  "entries_refs r h m = list_refs r h (map snd m)"

definition entries_repr :: "('n go_heap \<Rightarrow> 'x \<Rightarrow> 'v \<Rightarrow> bool) \<Rightarrow> 'n go_heap \<Rightarrow> 'x gomap \<Rightarrow> 'v gomap \<Rightarrow> bool" where
  "entries_repr p h m vs \<longleftrightarrow> gomap_wf m \<and> gomap_wf vs \<and> (\<forall>key. rel_option (p h) (map_of m key) (map_of vs key))"

lemma gomap_set_new: "k \<notin> fst ` set m \<Longrightarrow> gomap_set m k v = m @ [(k, v)]"
  unfolding gomap_set_def by (induction m) auto

lemma copy_entries_list:
  assumes "distinct (map fst (out @ es))"
  shows "copy_entries c es out h = (case copy_list c (map snd es) h of (ys, h') \<Rightarrow> (out @ zip (map fst es) ys, h'))"
  using assms
proof (induction es arbitrary: out h)
  case (Cons e es)
  obtain key val where e: "e = (key, val)" by fastforce
  with Cons.prems have "gomap_set out key y = out @ [(key, y)]" for y by (intro gomap_set_new) auto
  with Cons e show ?case by (simp split: prod.splits)
qed simp

lemma copy_entries_extends:
  assumes "deep_copier c r p"
  shows "wf_heap h \<Longrightarrow> copy_entries c es out h = (m', h') \<Longrightarrow> extends h h'"
proof (induction es arbitrary: out h)
  case (Cons e es)
  obtain y h1 where 1: "c (snd e) h = (y, h1)" by fastforce
  note e1 = deep_copier.copy_extends [OF assms Cons.prems(1) 1]
  have "copy_entries c es (gomap_set out (fst e) y) h1 = (m', h')" using Cons.prems(2) 1 by (cases e) simp
  with Cons.IH [OF extends_wf [OF e1]] e1 show ?case by (blast intro: extends_trans)
qed (simp add: extends_refl)

lemma rel_option_zip:
  "list_all2 R xs us \<Longrightarrow> rel_option R (map_of (zip ks xs) key) (map_of (zip ks us) key)"
proof (induction arbitrary: ks rule: list_all2_induct)
  case (Cons x xs u us)
  then show ?case by (cases ks) simp_all
qed simp

text \<open>The values in the order of the entries.\<close>

lemma entries_repr_iff:
  "entries_repr p h m vs \<longleftrightarrow> gomap_wf m \<and> gomap_wf vs \<and>
     (\<exists>us. map_of vs = map_of (zip (map fst m) us) \<and> list_repr p h (map snd m) us)"
proof (intro iffI conjI)
  assume r: "entries_repr p h m vs"
  then show "gomap_wf m" "gomap_wf vs" by (simp_all add: entries_repr_def)
  let ?us = "map (\<lambda>key. the (map_of vs key)) (map fst m)"
  have rel: "rel_option (p h) (map_of m key) (map_of vs key)" for key using r by (simp add: entries_repr_def)
  have zip: "map_of (zip ks (map f ks)) key = (if key \<in> set ks then Some (f key) else None)" for ks key and f :: "string \<Rightarrow> 'c"
    by (simp add: map_of_zip_map)
  have "map_of vs key = map_of (zip (map fst m) ?us) key" for key
    using rel [of key] unfolding zip by (cases "map_of m key") (force simp: option_rel_Some1 map_of_eq_None_iff dest: map_of_SomeD)+
  moreover have "p h (snd e) (the (map_of vs (fst e)))" if "e \<in> set m" for e
  proof -
    have "map_of m (fst e) = Some (snd e)" using \<open>gomap_wf m\<close> that by (simp add: gomap_wf_def)
    with rel [of "fst e"] show ?thesis by (auto simp: option_rel_Some1)
  qed
  then have "list_repr p h (map snd m) ?us" by (simp add: list_repr_def list_all2_conv_all_nth)
  ultimately show "\<exists>us. map_of vs = map_of (zip (map fst m) us) \<and> list_repr p h (map snd m) us" by blast
next
  assume r: "gomap_wf m \<and> gomap_wf vs \<and> (\<exists>us. map_of vs = map_of (zip (map fst m) us) \<and> list_repr p h (map snd m) us)"
  then obtain us where us: "map_of vs = map_of (zip (map fst m) us)" "list_all2 (p h) (map snd m) us"
    by (auto simp: list_repr_def)
  from rel_option_zip [OF us(2), of "map fst m"] r show "entries_repr p h m vs"
    by (simp add: entries_repr_def us(1) zip_map_fst_snd)
qed

lemma entries_copier:
  assumes "deep_copier c r p"
  shows "deep_copier (copy_ranged ord c) (entries_refs r) (entries_repr p)"
proof
  fix h h' :: "'b go_heap" and m m' and a :: addr and vs
  show "a < hp_next h" if "wf_heap h" "entries_repr p h m vs" "a \<in> entries_refs r h m"
    using that list_bound [OF assms that(1)] by (auto simp: entries_repr_iff entries_refs_def)
  show "entries_repr p h' m vs \<and> entries_refs r h' m = entries_refs r h m"
    if r: "entries_repr p h m vs" and same: "\<And>a. a \<in> entries_refs r h m \<Longrightarrow> hp_cells h' a = hp_cells h a"
  proof -
    from r obtain us where us: "gomap_wf m" "gomap_wf vs" "map_of vs = map_of (zip (map fst m) us)" "list_repr p h (map snd m) us"
      by (auto simp only: entries_repr_iff)
    have "list_repr p h' (map snd m) us \<and> list_refs r h' (map snd m) = list_refs r h (map snd m)"
      using list_frame [OF assms us(4)] same unfolding entries_refs_def by blast
    with us show ?thesis unfolding entries_repr_iff entries_refs_def by blast
  qed
  assume wf: "wf_heap h" and run: "copy_ranged ord c m h = (m', h')"
  show "extends h h'" using copy_entries_extends [OF assms wf] run by (simp add: copy_ranged_def)
  assume rep: "entries_repr p h m vs"
  let ?es = "go_range (ord (hp_next h)) m"
  have d: "distinct (map fst ?es)" using rep by (simp add: entries_repr_def gomap_wf_def)
  then have "map_of ?es = map_of m" using rep by (intro map_of_inject_set [THEN iffD2]) (simp_all add: entries_repr_def gomap_wf_def)
  with rep d have "entries_repr p h ?es vs" by (simp add: entries_repr_def gomap_wf_def)
  then obtain us where us: "map_of vs = map_of (zip (map fst ?es) us)" "list_repr p h (map snd ?es) us"
    by (auto simp: entries_repr_iff)
  obtain ys where ys: "copy_list c (map snd ?es) h = (ys, h')" "m' = zip (map fst ?es) ys"
    using run copy_entries_list [of "[]" ?es c h] d by (auto simp: copy_ranged_def split: prod.splits)
  from list_run [OF assms wf ys(1), of us] us(2)
  have res: "length ys = length m" "list_repr p h' ys us" "\<forall>a\<in>list_refs r h' ys. hp_next h \<le> a" by simp_all
  then have m': "map fst m' = map fst ?es" "map snd m' = ys" by (simp_all add: ys(2))
  show "entries_repr p h' m' vs" using us(1) res(2) d rep
    by (auto simp: entries_repr_iff gomap_wf_def m')
  show "hp_next h \<le> a" if "a \<in> entries_refs r h' m'" using that res(3) by (simp add: entries_refs_def m')
qed

text \<open>
  A map field whose value does not tell nil from empty.
\<close>

definition flat_repr :: "('n go_heap \<Rightarrow> 'm \<Rightarrow> 'v gomap option \<Rightarrow> bool) \<Rightarrow> 'n go_heap \<Rightarrow> 'm \<Rightarrow> 'v gomap \<Rightarrow> bool" where
  "flat_repr p h m v \<longleftrightarrow> p h m (Some v) \<or> v = [] \<and> p h m None"

lemma flat_copier:
  assumes "deep_copier c r p"
  shows "deep_copier c r (flat_repr p)"
proof (unfold_locales, unfold flat_repr_def)
  show "(p h' m (Some v) \<or> v = [] \<and> p h' m None) \<and> r h' m = r h m"
    if "p h m (Some v) \<or> v = [] \<and> p h m None" "\<And>a. a \<in> r h m \<Longrightarrow> hp_cells h' a = hp_cells h a" for h h' m v
    using that deep_copier.frame [OF assms, of h m _ h'] by blast
qed (auto dest: deep_copier.copy_extends [OF assms] deep_copier.copy_repr [OF assms]
    deep_copier.copy_fresh [OF assms] deep_copier.refs_bound [OF assms])

text \<open>
  \<^verbatim>\<open>*val.DeepCopy()\<close>: the copy is made in a new variable and read from there.
\<close>

definition copy_through ::
  "('x, 'n) kind \<Rightarrow> ('x \<Rightarrow> 'n go_heap \<Rightarrow> 'x \<times> 'n go_heap) \<Rightarrow> 'x \<Rightarrow> 'n go_heap \<Rightarrow> 'x \<times> 'n go_heap" where
  "copy_through k c x h =
     (case copy_new k c x h of (b, h1) \<Rightarrow> (case deref k h1 b of None \<Rightarrow> (x, h1) | Some y \<Rightarrow> (y, h1)))"

lemma through_copier:
  assumes "deep_copier c r p" and "kind_ok k"
  shows "deep_copier (copy_through k c) r p"
proof
  fix h h' :: "'b go_heap" and x x' and a :: addr and v
  show "a < hp_next h" if "wf_heap h" "p h x v" "a \<in> r h x" using that by (rule deep_copier.refs_bound [OF assms(1)])
  show "p h' x v \<and> r h' x = r h x" if "p h x v" "\<And>a. a \<in> r h x \<Longrightarrow> hp_cells h' a = hp_cells h a"
    using that by (rule deep_copier.frame [OF assms(1)])
  assume wf: "wf_heap h" and run: "copy_through k c x h = (x', h')"
  obtain b where n: "copy_new k c x h = (b, h')" using run by (auto simp: copy_through_def split: prod.splits option.splits)
  show "extends h h'" by (rule copy_new_run [OF assms(1) wf n])
  assume "p h x v"
  from copy_new_content [OF assms wf this n] n run show "p h' x' v" "a \<in> r h' x' \<Longrightarrow> hp_next h \<le> a"
    by (auto simp: copy_through_def)
qed

section \<open>Kinds of cells\<close>

definition strings_kind :: "(string list, 'n) kind" where
  "strings_kind = \<lparr>k_in = StringArray, k_out = (\<lambda>c. case c of StringArray x \<Rightarrow> Some x | _ \<Rightarrow> None)\<rparr>"

definition conditions_kind :: "(Condition list, 'n) kind" where
  "conditions_kind = \<lparr>k_in = ConditionArray, k_out = (\<lambda>c. case c of ConditionArray x \<Rightarrow> Some x | _ \<Rightarrow> None)\<rparr>"

definition clusters_kind :: "(mVMRayCluster list, 'n) kind" where
  "clusters_kind = \<lparr>k_in = ClusterArray, k_out = (\<lambda>c. case c of ClusterArray x \<Rightarrow> Some x | _ \<Rightarrow> None)\<rparr>"

definition nodetypes_kind :: "(NodeType gomap, 'n) kind" where
  "nodetypes_kind = \<lparr>k_in = NodeTypeMap, k_out = (\<lambda>c. case c of NodeTypeMap x \<Rightarrow> Some x | _ \<Rightarrow> None)\<rparr>"

definition stringmap_kind :: "(string gomap, 'n) kind" where
  "stringmap_kind = \<lparr>k_in = StringMap, k_out = (\<lambda>c. case c of StringMap x \<Rightarrow> Some x | _ \<Rightarrow> None)\<rparr>"

definition workers_kind :: "(mVMRayNodeStatus gomap, 'n) kind" where
  "workers_kind = \<lparr>k_in = WorkerMap, k_out = (\<lambda>c. case c of WorkerMap x \<Rightarrow> Some x | _ \<Rightarrow> None)\<rparr>"

definition uint_kind :: "(uint, 'n) kind" where
  "uint_kind = \<lparr>k_in = UintVar, k_out = (\<lambda>c. case c of UintVar x \<Rightarrow> Some x | _ \<Rightarrow> None)\<rparr>"

definition time_kind :: "(string, 'n) kind" where
  "time_kind = \<lparr>k_in = TimeVar, k_out = (\<lambda>c. case c of TimeVar x \<Rightarrow> Some x | _ \<Rightarrow> None)\<rparr>"

definition network_kind :: "('n, 'n) kind" where
  "network_kind = \<lparr>k_in = NetworkVar, k_out = (\<lambda>c. case c of NetworkVar x \<Rightarrow> Some x | _ \<Rightarrow> None)\<rparr>"

definition ApiServerInfo_kind :: "(ApiServerInfo, 'n) kind" where
  "ApiServerInfo_kind = \<lparr>k_in = ApiServerInfoVar, k_out = (\<lambda>c. case c of ApiServerInfoVar x \<Rightarrow> Some x | _ \<Rightarrow> None)\<rparr>"

definition CommonNodeConfig_kind :: "(mCommonNodeConfig, 'n) kind" where
  "CommonNodeConfig_kind = \<lparr>k_in = CommonNodeConfigVar, k_out = (\<lambda>c. case c of CommonNodeConfigVar x \<Rightarrow> Some x | _ \<Rightarrow> None)\<rparr>"

definition DockerRegistryConfig_kind :: "(DockerRegistryConfig, 'n) kind" where
  "DockerRegistryConfig_kind = \<lparr>k_in = DockerRegistryConfigVar, k_out = (\<lambda>c. case c of DockerRegistryConfigVar x \<Rightarrow> Some x | _ \<Rightarrow> None)\<rparr>"

definition HeadNodeConfig_kind :: "(mHeadNodeConfig, 'n) kind" where
  "HeadNodeConfig_kind = \<lparr>k_in = HeadNodeConfigVar, k_out = (\<lambda>c. case c of HeadNodeConfigVar x \<Rightarrow> Some x | _ \<Rightarrow> None)\<rparr>"

definition NodeResource_kind :: "(NodeResource, 'n) kind" where
  "NodeResource_kind = \<lparr>k_in = NodeResourceVar, k_out = (\<lambda>c. case c of NodeResourceVar x \<Rightarrow> Some x | _ \<Rightarrow> None)\<rparr>"

definition NodeType_kind :: "(NodeType, 'n) kind" where
  "NodeType_kind = \<lparr>k_in = NodeTypeVar, k_out = (\<lambda>c. case c of NodeTypeVar x \<Rightarrow> Some x | _ \<Rightarrow> None)\<rparr>"

definition VMRayCluster_kind :: "(mVMRayCluster, 'n) kind" where
  "VMRayCluster_kind = \<lparr>k_in = VMRayClusterVar, k_out = (\<lambda>c. case c of VMRayClusterVar x \<Rightarrow> Some x | _ \<Rightarrow> None)\<rparr>"

definition VMRayClusterList_kind :: "(mVMRayClusterList, 'n) kind" where
  "VMRayClusterList_kind = \<lparr>k_in = VMRayClusterListVar, k_out = (\<lambda>c. case c of VMRayClusterListVar x \<Rightarrow> Some x | _ \<Rightarrow> None)\<rparr>"

definition VMRayClusterSpec_kind :: "(mVMRayClusterSpec, 'n) kind" where
  "VMRayClusterSpec_kind = \<lparr>k_in = VMRayClusterSpecVar, k_out = (\<lambda>c. case c of VMRayClusterSpecVar x \<Rightarrow> Some x | _ \<Rightarrow> None)\<rparr>"

definition VMRayClusterStatus_kind :: "(mVMRayClusterStatus, 'n) kind" where
  "VMRayClusterStatus_kind = \<lparr>k_in = VMRayClusterStatusVar, k_out = (\<lambda>c. case c of VMRayClusterStatusVar x \<Rightarrow> Some x | _ \<Rightarrow> None)\<rparr>"

definition VMRayNodeStatus_kind :: "(mVMRayNodeStatus, 'n) kind" where
  "VMRayNodeStatus_kind = \<lparr>k_in = VMRayNodeStatusVar, k_out = (\<lambda>c. case c of VMRayNodeStatusVar x \<Rightarrow> Some x | _ \<Rightarrow> None)\<rparr>"

definition VMServiceStatus_kind :: "(VMServiceStatus, 'n) kind" where
  "VMServiceStatus_kind = \<lparr>k_in = VMServiceStatusVar, k_out = (\<lambda>c. case c of VMServiceStatusVar x \<Rightarrow> Some x | _ \<Rightarrow> None)\<rparr>"

definition WorkerNodeConfig_kind :: "(mWorkerNodeConfig, 'n) kind" where
  "WorkerNodeConfig_kind = \<lparr>k_in = WorkerNodeConfigVar, k_out = (\<lambda>c. case c of WorkerNodeConfigVar x \<Rightarrow> Some x | _ \<Rightarrow> None)\<rparr>"

lemmas kind_defs =
  strings_kind_def conditions_kind_def clusters_kind_def nodetypes_kind_def
  stringmap_kind_def workers_kind_def uint_kind_def time_kind_def
  network_kind_def ApiServerInfo_kind_def CommonNodeConfig_kind_def DockerRegistryConfig_kind_def
  HeadNodeConfig_kind_def NodeResource_kind_def NodeType_kind_def VMRayCluster_kind_def
  VMRayClusterList_kind_def VMRayClusterSpec_kind_def VMRayClusterStatus_kind_def VMRayNodeStatus_kind_def
  VMServiceStatus_kind_def WorkerNodeConfig_kind_def

lemma kinds_ok [simp]:
  "kind_ok strings_kind"
  "kind_ok conditions_kind"
  "kind_ok clusters_kind"
  "kind_ok nodetypes_kind"
  "kind_ok stringmap_kind"
  "kind_ok workers_kind"
  "kind_ok uint_kind"
  "kind_ok time_kind"
  "kind_ok network_kind"
  "kind_ok ApiServerInfo_kind"
  "kind_ok CommonNodeConfig_kind"
  "kind_ok DockerRegistryConfig_kind"
  "kind_ok HeadNodeConfig_kind"
  "kind_ok NodeResource_kind"
  "kind_ok NodeType_kind"
  "kind_ok VMRayCluster_kind"
  "kind_ok VMRayClusterList_kind"
  "kind_ok VMRayClusterSpec_kind"
  "kind_ok VMRayClusterStatus_kind"
  "kind_ok VMRayNodeStatus_kind"
  "kind_ok VMServiceStatus_kind"
  "kind_ok WorkerNodeConfig_kind"
  by (simp_all add: kind_ok_def kind_defs split: cell.splits)

section \<open>The copying functions\<close>

text \<open>
  Library code the generated functions call, and the order in which maps are visited.
\<close>

record 'n copy_lib =
  cl_Condition :: "Condition \<Rightarrow> 'n go_heap \<Rightarrow> Condition \<times> 'n go_heap"
  cl_ObjectMeta :: "mObjectMeta \<Rightarrow> 'n go_heap \<Rightarrow> mObjectMeta \<times> 'n go_heap"
  cl_ListMeta :: "mListMeta \<Rightarrow> 'n go_heap \<Rightarrow> mListMeta \<times> 'n go_heap"
  cl_Network :: "'n \<Rightarrow> 'n go_heap \<Rightarrow> 'n \<times> 'n go_heap"
  cl_order :: "addr \<Rightarrow> nat list"

text \<open>
  \<open>DeepCopyInto\<close> of a type takes the struct behind \<^verbatim>\<open>in\<close> and returns the struct it leaves in
  \<^verbatim>\<open>*out\<close>; it starts as \<^verbatim>\<open>*in\<close>. \<open>DeepCopy\<close> takes nil or the struct behind the receiver.
\<close>

definition DeepCopy_pointer ::
  "('x, 'n) kind \<Rightarrow> ('x \<Rightarrow> 'n go_heap \<Rightarrow> 'x \<times> 'n go_heap) \<Rightarrow> 'x option \<Rightarrow> 'n go_heap \<Rightarrow> addr option \<times> 'n go_heap" where
  "DeepCopy_pointer k into inn h =
     (case inn of None \<Rightarrow> (None, h) | Some x \<Rightarrow> (case copy_new k into x h of (b, h1) \<Rightarrow> (Some b, h1)))"

definition ApiServerInfo_DeepCopyInto :: "ApiServerInfo \<Rightarrow> 'n go_heap \<Rightarrow> ApiServerInfo \<times> 'n go_heap" where
  "ApiServerInfo_DeepCopyInto inn h = (inn, h)"

definition ApiServerInfo_DeepCopy :: "ApiServerInfo option \<Rightarrow> 'n go_heap \<Rightarrow> addr option \<times> 'n go_heap" where
  "ApiServerInfo_DeepCopy = DeepCopy_pointer ApiServerInfo_kind ApiServerInfo_DeepCopyInto"

definition DockerRegistryConfig_DeepCopyInto :: "DockerRegistryConfig \<Rightarrow> 'n go_heap \<Rightarrow> DockerRegistryConfig \<times> 'n go_heap" where
  "DockerRegistryConfig_DeepCopyInto inn h = (inn, h)"

definition DockerRegistryConfig_DeepCopy :: "DockerRegistryConfig option \<Rightarrow> 'n go_heap \<Rightarrow> addr option \<times> 'n go_heap" where
  "DockerRegistryConfig_DeepCopy = DeepCopy_pointer DockerRegistryConfig_kind DockerRegistryConfig_DeepCopyInto"

definition NodeResource_DeepCopyInto :: "NodeResource \<Rightarrow> 'n go_heap \<Rightarrow> NodeResource \<times> 'n go_heap" where
  "NodeResource_DeepCopyInto inn h = (inn, h)"

definition NodeResource_DeepCopy :: "NodeResource option \<Rightarrow> 'n go_heap \<Rightarrow> addr option \<times> 'n go_heap" where
  "NodeResource_DeepCopy = DeepCopy_pointer NodeResource_kind NodeResource_DeepCopyInto"

definition NodeType_DeepCopyInto :: "NodeType \<Rightarrow> 'n go_heap \<Rightarrow> NodeType \<times> 'n go_heap" where
  "NodeType_DeepCopyInto inn h = (inn\<lparr>nt_Resources := nt_Resources inn\<rparr>, h)"

definition NodeType_DeepCopy :: "NodeType option \<Rightarrow> 'n go_heap \<Rightarrow> addr option \<times> 'n go_heap" where
  "NodeType_DeepCopy = DeepCopy_pointer NodeType_kind NodeType_DeepCopyInto"

definition VMServiceStatus_DeepCopyInto :: "VMServiceStatus \<Rightarrow> 'n go_heap \<Rightarrow> VMServiceStatus \<times> 'n go_heap" where
  "VMServiceStatus_DeepCopyInto inn h = (inn, h)"

definition VMServiceStatus_DeepCopy :: "VMServiceStatus option \<Rightarrow> 'n go_heap \<Rightarrow> addr option \<times> 'n go_heap" where
  "VMServiceStatus_DeepCopy = DeepCopy_pointer VMServiceStatus_kind VMServiceStatus_DeepCopyInto"

text \<open>Slices of strings, maps of values.\<close>

abbreviation copy_strings :: "slice option \<Rightarrow> 'n go_heap \<Rightarrow> slice option \<times> 'n go_heap" where
  "copy_strings \<equiv> copy_slice strings_kind copy_value"

abbreviation copy_map :: "('x gomap, 'n) kind \<Rightarrow> 'n copy_lib \<Rightarrow> ('x \<Rightarrow> 'n go_heap \<Rightarrow> 'x \<times> 'n go_heap) \<Rightarrow>
  addr option \<Rightarrow> 'n go_heap \<Rightarrow> addr option \<times> 'n go_heap" where
  "copy_map k lib c \<equiv> copy_pointer k (copy_ranged (cl_order lib) c)"

definition HeadNodeConfig_DeepCopyInto :: "mHeadNodeConfig \<Rightarrow> 'n go_heap \<Rightarrow> mHeadNodeConfig \<times> 'n go_heap" where
  "HeadNodeConfig_DeepCopyInto inn h =
     (case copy_strings (mhn_SetupCommands inn) h of (commands, h1) \<Rightarrow>
      (case copy_pointer uint_kind copy_value (mhn_Port inn) h1 of (port, h2) \<Rightarrow>
        (inn\<lparr>mhn_SetupCommands := commands, mhn_Port := port\<rparr>, h2)))"

definition HeadNodeConfig_DeepCopy :: "mHeadNodeConfig option \<Rightarrow> 'n go_heap \<Rightarrow> addr option \<times> 'n go_heap" where
  "HeadNodeConfig_DeepCopy = DeepCopy_pointer HeadNodeConfig_kind HeadNodeConfig_DeepCopyInto"

definition WorkerNodeConfig_DeepCopyInto :: "mWorkerNodeConfig \<Rightarrow> 'n go_heap \<Rightarrow> mWorkerNodeConfig \<times> 'n go_heap" where
  "WorkerNodeConfig_DeepCopyInto inn h =
     (case copy_strings (mwn_SetupCommands inn) h of (commands, h1) \<Rightarrow> (inn\<lparr>mwn_SetupCommands := commands\<rparr>, h1))"

definition WorkerNodeConfig_DeepCopy :: "mWorkerNodeConfig option \<Rightarrow> 'n go_heap \<Rightarrow> addr option \<times> 'n go_heap" where
  "WorkerNodeConfig_DeepCopy = DeepCopy_pointer WorkerNodeConfig_kind WorkerNodeConfig_DeepCopyInto"

definition CommonNodeConfig_DeepCopyInto ::
  "'n copy_lib \<Rightarrow> mCommonNodeConfig \<Rightarrow> 'n go_heap \<Rightarrow> mCommonNodeConfig \<times> 'n go_heap" where
  "CommonNodeConfig_DeepCopyInto lib inn h =
     (case copy_pointer network_kind (cl_Network lib) (mnc_Network inn) h of (network, h1) \<Rightarrow>
      (case copy_map nodetypes_kind lib copy_value (mnc_NodeTypes inn) h1 of (types, h2) \<Rightarrow>
      (case copy_strings (mnc_SetupCommands inn) h2 of (commands, h3) \<Rightarrow>
      (case copy_strings (mnc_InitializationCommands inn) h3 of (inits, h4) \<Rightarrow>
        (inn\<lparr>mnc_Network := network, mnc_NodeTypes := types, mnc_SetupCommands := commands,
             mnc_InitializationCommands := inits\<rparr>, h4)))))"

definition CommonNodeConfig_DeepCopy :: "'n copy_lib \<Rightarrow> mCommonNodeConfig option \<Rightarrow> 'n go_heap \<Rightarrow> addr option \<times> 'n go_heap" where
  "CommonNodeConfig_DeepCopy lib = DeepCopy_pointer CommonNodeConfig_kind (CommonNodeConfig_DeepCopyInto lib)"

definition VMRayClusterSpec_DeepCopyInto ::
  "'n copy_lib \<Rightarrow> mVMRayClusterSpec \<Rightarrow> 'n go_heap \<Rightarrow> mVMRayClusterSpec \<times> 'n go_heap" where
  "VMRayClusterSpec_DeepCopyInto lib inn h =
     (case HeadNodeConfig_DeepCopyInto (mspec_HeadNode inn) h of (head, h1) \<Rightarrow>
      (case WorkerNodeConfig_DeepCopyInto (mspec_WorkerNode inn) h1 of (worker, h2) \<Rightarrow>
      (case CommonNodeConfig_DeepCopyInto lib (mspec_NodeConfig inn) h2 of (config, h3) \<Rightarrow>
      (case copy_map stringmap_kind lib copy_value (mspec_AutoscalerDesiredWorkers inn) h3 of (desired, h4) \<Rightarrow>
        (inn\<lparr>mspec_ApiServer := mspec_ApiServer inn, mspec_HeadNode := head, mspec_WorkerNode := worker,
             mspec_NodeConfig := config, mspec_AutoscalerDesiredWorkers := desired,
             mspec_DockerConfig := mspec_DockerConfig inn\<rparr>, h4)))))"

definition VMRayClusterSpec_DeepCopy :: "'n copy_lib \<Rightarrow> mVMRayClusterSpec option \<Rightarrow> 'n go_heap \<Rightarrow> addr option \<times> 'n go_heap" where
  "VMRayClusterSpec_DeepCopy lib = DeepCopy_pointer VMRayClusterSpec_kind (VMRayClusterSpec_DeepCopyInto lib)"

definition VMRayNodeStatus_DeepCopyInto ::
  "'n copy_lib \<Rightarrow> mVMRayNodeStatus \<Rightarrow> 'n go_heap \<Rightarrow> mVMRayNodeStatus \<times> 'n go_heap" where
  "VMRayNodeStatus_DeepCopyInto lib inn h =
     (case copy_slice conditions_kind (cl_Condition lib) (mns_Conditions inn) h of (conds, h1) \<Rightarrow>
        (inn\<lparr>mns_Conditions := conds\<rparr>, h1))"

definition VMRayNodeStatus_DeepCopy :: "'n copy_lib \<Rightarrow> mVMRayNodeStatus option \<Rightarrow> 'n go_heap \<Rightarrow> addr option \<times> 'n go_heap" where
  "VMRayNodeStatus_DeepCopy lib = DeepCopy_pointer VMRayNodeStatus_kind (VMRayNodeStatus_DeepCopyInto lib)"

definition VMRayClusterStatus_DeepCopyInto ::
  "'n copy_lib \<Rightarrow> mVMRayClusterStatus \<Rightarrow> 'n go_heap \<Rightarrow> mVMRayClusterStatus \<times> 'n go_heap" where
  "VMRayClusterStatus_DeepCopyInto lib inn h =
     (case VMRayNodeStatus_DeepCopyInto lib (mst_HeadNodeStatus inn) h of (head, h1) \<Rightarrow>
      (case copy_map workers_kind lib (copy_through VMRayNodeStatus_kind (VMRayNodeStatus_DeepCopyInto lib))
              (mst_CurrentWorkers inn) h1 of (workers, h2) \<Rightarrow>
      (case copy_slice conditions_kind (cl_Condition lib) (mst_Conditions inn) h2 of (conds, h3) \<Rightarrow>
        (inn\<lparr>mst_HeadNodeStatus := head, mst_CurrentWorkers := workers, mst_Conditions := conds,
             mst_VMServiceStatus := mst_VMServiceStatus inn\<rparr>, h3))))"

definition VMRayClusterStatus_DeepCopy :: "'n copy_lib \<Rightarrow> mVMRayClusterStatus option \<Rightarrow> 'n go_heap \<Rightarrow> addr option \<times> 'n go_heap" where
  "VMRayClusterStatus_DeepCopy lib = DeepCopy_pointer VMRayClusterStatus_kind (VMRayClusterStatus_DeepCopyInto lib)"

definition VMRayCluster_DeepCopyInto :: "'n copy_lib \<Rightarrow> mVMRayCluster \<Rightarrow> 'n go_heap \<Rightarrow> mVMRayCluster \<times> 'n go_heap" where
  "VMRayCluster_DeepCopyInto lib inn h =
     (case cl_ObjectMeta lib (mvc_ObjectMeta inn) h of (meta, h1) \<Rightarrow>
      (case VMRayClusterSpec_DeepCopyInto lib (mvc_Spec inn) h1 of (spec, h2) \<Rightarrow>
      (case VMRayClusterStatus_DeepCopyInto lib (mvc_Status inn) h2 of (status, h3) \<Rightarrow>
        (inn\<lparr>mvc_TypeMeta := mvc_TypeMeta inn, mvc_ObjectMeta := meta, mvc_Spec := spec, mvc_Status := status\<rparr>, h3))))"

definition VMRayCluster_DeepCopy :: "'n copy_lib \<Rightarrow> mVMRayCluster option \<Rightarrow> 'n go_heap \<Rightarrow> addr option \<times> 'n go_heap" where
  "VMRayCluster_DeepCopy lib = DeepCopy_pointer VMRayCluster_kind (VMRayCluster_DeepCopyInto lib)"

definition VMRayClusterList_DeepCopyInto ::
  "'n copy_lib \<Rightarrow> mVMRayClusterList \<Rightarrow> 'n go_heap \<Rightarrow> mVMRayClusterList \<times> 'n go_heap" where
  "VMRayClusterList_DeepCopyInto lib inn h =
     (case cl_ListMeta lib (mvl_ListMeta inn) h of (meta, h1) \<Rightarrow>
      (case copy_slice clusters_kind (VMRayCluster_DeepCopyInto lib) (mvl_Items inn) h1 of (items, h2) \<Rightarrow>
        (inn\<lparr>mvl_TypeMeta := mvl_TypeMeta inn, mvl_ListMeta := meta, mvl_Items := items\<rparr>, h2)))"

definition VMRayClusterList_DeepCopy :: "'n copy_lib \<Rightarrow> mVMRayClusterList option \<Rightarrow> 'n go_heap \<Rightarrow> addr option \<times> 'n go_heap" where
  "VMRayClusterList_DeepCopy lib = DeepCopy_pointer VMRayClusterList_kind (VMRayClusterList_DeepCopyInto lib)"

text \<open>
  \<open>DeepCopyObject\<close> returns an interface: nil, or one of the two kinds of object with the address
  of its struct. A nil pointer becomes the nil interface.
\<close>

datatype runtime_Object = VMRayCluster_Object addr | VMRayClusterList_Object addr

definition VMRayCluster_DeepCopyObject ::
  "'n copy_lib \<Rightarrow> mVMRayCluster option \<Rightarrow> 'n go_heap \<Rightarrow> runtime_Object option \<times> 'n go_heap" where
  "VMRayCluster_DeepCopyObject lib inn h =
     (case VMRayCluster_DeepCopy lib inn h of
        (Some c, h1) \<Rightarrow> (Some (VMRayCluster_Object c), h1)
      | (None, h1) \<Rightarrow> (None, h1))"

definition VMRayClusterList_DeepCopyObject ::
  "'n copy_lib \<Rightarrow> mVMRayClusterList option \<Rightarrow> 'n go_heap \<Rightarrow> runtime_Object option \<times> 'n go_heap" where
  "VMRayClusterList_DeepCopyObject lib inn h =
     (case VMRayClusterList_DeepCopy lib inn h of
        (Some c, h1) \<Rightarrow> (Some (VMRayClusterList_Object c), h1)
      | (None, h1) \<Rightarrow> (None, h1))"

section \<open>What structs in memory stand for\<close>

abbreviation strings_refs :: "'n go_heap \<Rightarrow> slice option \<Rightarrow> addr set" where
  "strings_refs \<equiv> slice_refs strings_kind value_refs"

abbreviation strings_repr :: "'n go_heap \<Rightarrow> slice option \<Rightarrow> string list \<Rightarrow> bool" where
  "strings_repr \<equiv> slice_repr strings_kind value_repr"

abbreviation conditions_refs :: "'n go_heap \<Rightarrow> slice option \<Rightarrow> addr set" where
  "conditions_refs \<equiv> slice_refs conditions_kind value_refs"

abbreviation conditions_repr :: "'n go_heap \<Rightarrow> slice option \<Rightarrow> Condition list \<Rightarrow> bool" where
  "conditions_repr \<equiv> slice_repr conditions_kind value_repr"

abbreviation map_refs :: "('x gomap, 'n) kind \<Rightarrow> ('n go_heap \<Rightarrow> 'x \<Rightarrow> addr set) \<Rightarrow> 'n go_heap \<Rightarrow> addr option \<Rightarrow> addr set" where
  "map_refs k r \<equiv> pointer_refs k (entries_refs r)"

abbreviation map_repr ::
  "('x gomap, 'n) kind \<Rightarrow> ('n go_heap \<Rightarrow> 'x \<Rightarrow> 'v \<Rightarrow> bool) \<Rightarrow> 'n go_heap \<Rightarrow> addr option \<Rightarrow> 'v gomap option \<Rightarrow> bool" where
  "map_repr k p \<equiv> pointer_repr k (entries_repr p)"

definition HeadNodeConfig_refs :: "'n go_heap \<Rightarrow> mHeadNodeConfig \<Rightarrow> addr set" where
  "HeadNodeConfig_refs h m = strings_refs h (mhn_SetupCommands m) \<union> pointer_refs uint_kind value_refs h (mhn_Port m)"

definition HeadNodeConfig_repr :: "'n go_heap \<Rightarrow> mHeadNodeConfig \<Rightarrow> HeadNodeConfig \<Rightarrow> bool" where
  "HeadNodeConfig_repr h m v \<longleftrightarrow> strings_repr h (mhn_SetupCommands m) (hn_SetupCommands v) \<and>
     pointer_repr uint_kind value_repr h (mhn_Port m) (hn_Port v) \<and> mhn_NodeType m = hn_NodeType v"

definition WorkerNodeConfig_refs :: "'n go_heap \<Rightarrow> mWorkerNodeConfig \<Rightarrow> addr set" where
  "WorkerNodeConfig_refs h m = strings_refs h (mwn_SetupCommands m)"

definition WorkerNodeConfig_repr :: "'n go_heap \<Rightarrow> mWorkerNodeConfig \<Rightarrow> WorkerNodeConfig \<Rightarrow> bool" where
  "WorkerNodeConfig_repr h m v \<longleftrightarrow> strings_repr h (mwn_SetupCommands m) (wn_SetupCommands v)"

definition CommonNodeConfig_refs :: "('n go_heap \<Rightarrow> 'n \<Rightarrow> addr set) \<Rightarrow> 'n go_heap \<Rightarrow> mCommonNodeConfig \<Rightarrow> addr set" where
  "CommonNodeConfig_refs net h m =
     pointer_refs network_kind net h (mnc_Network m) \<union> map_refs nodetypes_kind value_refs h (mnc_NodeTypes m) \<union>
     strings_refs h (mnc_SetupCommands m) \<union> strings_refs h (mnc_InitializationCommands m)"

definition CommonNodeConfig_repr ::
  "('n go_heap \<Rightarrow> 'n \<Rightarrow> VirtualMachineNetworkSpec \<Rightarrow> bool) \<Rightarrow> 'n go_heap \<Rightarrow> mCommonNodeConfig \<Rightarrow> CommonNodeConfig \<Rightarrow> bool" where
  "CommonNodeConfig_repr net h m v \<longleftrightarrow>
     pointer_repr network_kind net h (mnc_Network m) (nc_Network v) \<and>
     flat_repr (map_repr nodetypes_kind value_repr) h (mnc_NodeTypes m) (nc_NodeTypes v) \<and>
     strings_repr h (mnc_SetupCommands m) (nc_SetupCommands v) \<and>
     strings_repr h (mnc_InitializationCommands m) (nc_InitializationCommands v) \<and>
     mnc_VMImage m = nc_VMImage v \<and> mnc_StorageClass m = nc_StorageClass v \<and> mnc_VMUser m = nc_VMUser v \<and>
     mnc_VMPasswordSaltHash m = nc_VMPasswordSaltHash v \<and> mnc_MaxWorkers m = nc_MaxWorkers v \<and>
     mnc_IdleTimeoutMinutes m = nc_IdleTimeoutMinutes v"

definition VMRayClusterSpec_refs :: "('n go_heap \<Rightarrow> 'n \<Rightarrow> addr set) \<Rightarrow> 'n go_heap \<Rightarrow> mVMRayClusterSpec \<Rightarrow> addr set" where
  "VMRayClusterSpec_refs net h m =
     HeadNodeConfig_refs h (mspec_HeadNode m) \<union> WorkerNodeConfig_refs h (mspec_WorkerNode m) \<union>
     CommonNodeConfig_refs net h (mspec_NodeConfig m) \<union> map_refs stringmap_kind value_refs h (mspec_AutoscalerDesiredWorkers m)"

definition VMRayClusterSpec_repr ::
  "('n go_heap \<Rightarrow> 'n \<Rightarrow> VirtualMachineNetworkSpec \<Rightarrow> bool) \<Rightarrow> 'n go_heap \<Rightarrow> mVMRayClusterSpec \<Rightarrow> VMRayClusterSpec \<Rightarrow> bool" where
  "VMRayClusterSpec_repr net h m v \<longleftrightarrow>
     HeadNodeConfig_repr h (mspec_HeadNode m) (spec_HeadNode v) \<and> WorkerNodeConfig_repr h (mspec_WorkerNode m) (spec_WorkerNode v) \<and>
     CommonNodeConfig_repr net h (mspec_NodeConfig m) (spec_NodeConfig v) \<and>
     map_repr stringmap_kind value_repr h (mspec_AutoscalerDesiredWorkers m) (spec_AutoscalerDesiredWorkers v) \<and>
     mspec_Image m = spec_Image v \<and> mspec_ApiServer m = spec_ApiServer v \<and> mspec_EnableTLS m = spec_EnableTLS v \<and>
     mspec_DockerConfig m = spec_DockerConfig v"

definition VMRayNodeStatus_refs :: "'n go_heap \<Rightarrow> mVMRayNodeStatus \<Rightarrow> addr set" where
  "VMRayNodeStatus_refs h m = conditions_refs h (mns_Conditions m)"

definition VMRayNodeStatus_repr :: "'n go_heap \<Rightarrow> mVMRayNodeStatus \<Rightarrow> VMRayNodeStatus \<Rightarrow> bool" where
  "VMRayNodeStatus_repr h m v \<longleftrightarrow> conditions_repr h (mns_Conditions m) (ns_Conditions v) \<and>
     mns_Ip m = ns_Ip v \<and> mns_VmStatus m = ns_VmStatus v \<and> mns_RayStatus m = ns_RayStatus v"

definition VMRayClusterStatus_refs :: "'n go_heap \<Rightarrow> mVMRayClusterStatus \<Rightarrow> addr set" where
  "VMRayClusterStatus_refs h m =
     VMRayNodeStatus_refs h (mst_HeadNodeStatus m) \<union> map_refs workers_kind VMRayNodeStatus_refs h (mst_CurrentWorkers m) \<union>
     conditions_refs h (mst_Conditions m)"

definition VMRayClusterStatus_repr :: "'n go_heap \<Rightarrow> mVMRayClusterStatus \<Rightarrow> VMRayClusterStatus \<Rightarrow> bool" where
  "VMRayClusterStatus_repr h m v \<longleftrightarrow>
     VMRayNodeStatus_repr h (mst_HeadNodeStatus m) (st_HeadNodeStatus v) \<and>
     map_repr workers_kind VMRayNodeStatus_repr h (mst_CurrentWorkers m) (st_CurrentWorkers v) \<and>
     conditions_repr h (mst_Conditions m) (st_Conditions v) \<and>
     mst_ClusterState m = st_ClusterState v \<and> mst_VMServiceStatus m = st_VMServiceStatus v"

text \<open>The library's metadata.\<close>

definition ObjectMeta_refs :: "'n go_heap \<Rightarrow> mObjectMeta \<Rightarrow> addr set" where
  "ObjectMeta_refs h m = map_refs stringmap_kind value_refs h (mom_Labels m) \<union> strings_refs h (mom_Finalizers m) \<union>
     pointer_refs time_kind value_refs h (mom_DeletionTimestamp m)"

definition ObjectMeta_repr :: "'n go_heap \<Rightarrow> mObjectMeta \<Rightarrow> ObjectMeta \<Rightarrow> bool" where
  "ObjectMeta_repr h m v \<longleftrightarrow> map_repr stringmap_kind value_repr h (mom_Labels m) (om_Labels v) \<and>
     strings_repr h (mom_Finalizers m) (om_Finalizers v) \<and>
     pointer_repr time_kind value_repr h (mom_DeletionTimestamp m) (om_DeletionTimestamp v) \<and>
     mom_Name m = om_Name v \<and> mom_Namespace m = om_Namespace v"

definition ListMeta_refs :: "'n go_heap \<Rightarrow> mListMeta \<Rightarrow> addr set" where
  "ListMeta_refs h m = pointer_refs uint_kind value_refs h (mlm_RemainingItemCount m)"

definition ListMeta_repr :: "'n go_heap \<Rightarrow> mListMeta \<Rightarrow> string \<times> string \<times> uint option \<Rightarrow> bool" where
  "ListMeta_repr h m v \<longleftrightarrow> pointer_repr uint_kind value_repr h (mlm_RemainingItemCount m) (snd (snd v)) \<and>
     mlm_ResourceVersion m = fst v \<and> mlm_Continue m = fst (snd v)"

text \<open>A cluster stands for its type metadata and a cluster of \<^verbatim>\<open>Api_Types\<close>.\<close>

definition VMRayCluster_refs :: "('n go_heap \<Rightarrow> 'n \<Rightarrow> addr set) \<Rightarrow> 'n go_heap \<Rightarrow> mVMRayCluster \<Rightarrow> addr set" where
  "VMRayCluster_refs net h m = ObjectMeta_refs h (mvc_ObjectMeta m) \<union> VMRayClusterSpec_refs net h (mvc_Spec m) \<union>
     VMRayClusterStatus_refs h (mvc_Status m)"

definition VMRayCluster_repr ::
  "('n go_heap \<Rightarrow> 'n \<Rightarrow> VirtualMachineNetworkSpec \<Rightarrow> bool) \<Rightarrow> 'n go_heap \<Rightarrow> mVMRayCluster \<Rightarrow> TypeMeta \<times> VMRayCluster \<Rightarrow> bool" where
  "VMRayCluster_repr net h m v \<longleftrightarrow> ObjectMeta_repr h (mvc_ObjectMeta m) (vc_ObjectMeta (snd v)) \<and>
     VMRayClusterSpec_repr net h (mvc_Spec m) (vc_Spec (snd v)) \<and>
     VMRayClusterStatus_repr h (mvc_Status m) (vc_Status (snd v)) \<and> mvc_TypeMeta m = fst v"

definition VMRayClusterList_refs :: "('n go_heap \<Rightarrow> 'n \<Rightarrow> addr set) \<Rightarrow> 'n go_heap \<Rightarrow> mVMRayClusterList \<Rightarrow> addr set" where
  "VMRayClusterList_refs net h m = ListMeta_refs h (mvl_ListMeta m) \<union>
     slice_refs clusters_kind (VMRayCluster_refs net) h (mvl_Items m)"

definition VMRayClusterList_repr ::
  "('n go_heap \<Rightarrow> 'n \<Rightarrow> VirtualMachineNetworkSpec \<Rightarrow> bool) \<Rightarrow> 'n go_heap \<Rightarrow> mVMRayClusterList \<Rightarrow>
   TypeMeta \<times> (string \<times> string \<times> uint option) \<times> (TypeMeta \<times> VMRayCluster) list \<Rightarrow> bool" where
  "VMRayClusterList_repr net h m v \<longleftrightarrow> ListMeta_repr h (mvl_ListMeta m) (fst (snd v)) \<and>
     slice_repr clusters_kind (VMRayCluster_repr net) h (mvl_Items m) (snd (snd v)) \<and> mvl_TypeMeta m = fst v"

section \<open>Every generated function is a deep copy\<close>

lemmas both_defs = copy_both_def both_refs_def both_repr_def

text \<open>The fields without references of a struct.\<close>

lemma map_copier:
  assumes "deep_copier c r p" and "kind_ok k"
  shows "deep_copier (copy_map k lib c) (map_refs k r) (map_repr k p)"
  using assms(2) by (rule pointer_copier [OF entries_copier [OF assms(1)]])

lemma HeadNodeConfig_copier: "deep_copier HeadNodeConfig_DeepCopyInto HeadNodeConfig_refs HeadNodeConfig_repr"
  by (rule struct_copier [OF both_copier [OF slice_copier [OF value_copier kinds_ok(1)] pointer_copier [OF value_copier kinds_ok(7)]],
        where get = "\<lambda>m. (mhn_SetupCommands m, mhn_Port m)" and vget = "\<lambda>v. (hn_SetupCommands v, hn_Port v)" and
          put = "\<lambda>t m. m\<lparr>mhn_SetupCommands := fst t, mhn_Port := snd t\<rparr>" and
          rest = "\<lambda>m v. mhn_NodeType m = hn_NodeType v"])
     (auto simp: both_defs HeadNodeConfig_DeepCopyInto_def HeadNodeConfig_refs_def HeadNodeConfig_repr_def split: prod.splits)

lemma WorkerNodeConfig_copier: "deep_copier WorkerNodeConfig_DeepCopyInto WorkerNodeConfig_refs WorkerNodeConfig_repr"
  by (rule struct_copier [OF slice_copier [OF value_copier kinds_ok(1)],
        where get = mwn_SetupCommands and vget = wn_SetupCommands and put = "\<lambda>t m. m\<lparr>mwn_SetupCommands := t\<rparr>" and
          rest = "\<lambda>m v. True"])
     (auto simp: WorkerNodeConfig_DeepCopyInto_def WorkerNodeConfig_refs_def WorkerNodeConfig_repr_def split: prod.splits)

text \<open>The library copies its own structs deeply.\<close>

locale copy_library =
  fixes lib :: "'n copy_lib"
    and net_refs :: "'n go_heap \<Rightarrow> 'n \<Rightarrow> addr set"
    and net_repr :: "'n go_heap \<Rightarrow> 'n \<Rightarrow> VirtualMachineNetworkSpec \<Rightarrow> bool"
  assumes Condition_copier: "deep_copier (cl_Condition lib) value_refs value_repr"
    and ObjectMeta_copier: "deep_copier (cl_ObjectMeta lib) ObjectMeta_refs ObjectMeta_repr"
    and ListMeta_copier: "deep_copier (cl_ListMeta lib) ListMeta_refs ListMeta_repr"
    and Network_copier: "deep_copier (cl_Network lib) net_refs net_repr"
begin

lemma CommonNodeConfig_copier:
  "deep_copier (CommonNodeConfig_DeepCopyInto lib) (CommonNodeConfig_refs net_refs) (CommonNodeConfig_repr net_repr)"
  by (rule struct_copier [OF both_copier [OF pointer_copier [OF Network_copier kinds_ok(9)]
          both_copier [OF flat_copier [OF map_copier [where lib = lib, OF value_copier kinds_ok(4)]]
          both_copier [OF slice_copier [OF value_copier kinds_ok(1)] slice_copier [OF value_copier kinds_ok(1)]]]],
        where get = "\<lambda>m. (mnc_Network m, mnc_NodeTypes m, mnc_SetupCommands m, mnc_InitializationCommands m)" and
          vget = "\<lambda>v. (nc_Network v, nc_NodeTypes v, nc_SetupCommands v, nc_InitializationCommands v)" and
          put = "\<lambda>(n, t, s, i) m. m\<lparr>mnc_Network := n, mnc_NodeTypes := t, mnc_SetupCommands := s, mnc_InitializationCommands := i\<rparr>" and
          rest = "\<lambda>m v. mnc_VMImage m = nc_VMImage v \<and> mnc_StorageClass m = nc_StorageClass v \<and> mnc_VMUser m = nc_VMUser v \<and>
            mnc_VMPasswordSaltHash m = nc_VMPasswordSaltHash v \<and> mnc_MaxWorkers m = nc_MaxWorkers v \<and>
            mnc_IdleTimeoutMinutes m = nc_IdleTimeoutMinutes v"])
     (auto simp: both_defs CommonNodeConfig_DeepCopyInto_def CommonNodeConfig_refs_def CommonNodeConfig_repr_def split: prod.splits)

lemma VMRayClusterSpec_copier:
  "deep_copier (VMRayClusterSpec_DeepCopyInto lib) (VMRayClusterSpec_refs net_refs) (VMRayClusterSpec_repr net_repr)"
  by (rule struct_copier [OF both_copier [OF HeadNodeConfig_copier both_copier [OF WorkerNodeConfig_copier
          both_copier [OF CommonNodeConfig_copier map_copier [where lib = lib, OF value_copier kinds_ok(5)]]]],
        where get = "\<lambda>m. (mspec_HeadNode m, mspec_WorkerNode m, mspec_NodeConfig m, mspec_AutoscalerDesiredWorkers m)" and
          vget = "\<lambda>v. (spec_HeadNode v, spec_WorkerNode v, spec_NodeConfig v, spec_AutoscalerDesiredWorkers v)" and
          put = "\<lambda>(hd, wk, cfg, des) m. m\<lparr>mspec_HeadNode := hd, mspec_WorkerNode := wk, mspec_NodeConfig := cfg,
            mspec_AutoscalerDesiredWorkers := des\<rparr>" and
          rest = "\<lambda>m v. mspec_Image m = spec_Image v \<and> mspec_ApiServer m = spec_ApiServer v \<and> mspec_EnableTLS m = spec_EnableTLS v \<and>
            mspec_DockerConfig m = spec_DockerConfig v"])
     (auto simp: both_defs VMRayClusterSpec_DeepCopyInto_def VMRayClusterSpec_refs_def VMRayClusterSpec_repr_def split: prod.splits)

lemma VMRayNodeStatus_copier: "deep_copier (VMRayNodeStatus_DeepCopyInto lib) VMRayNodeStatus_refs VMRayNodeStatus_repr"
  by (rule struct_copier [OF slice_copier [OF Condition_copier kinds_ok(2)],
        where get = mns_Conditions and vget = ns_Conditions and put = "\<lambda>t m. m\<lparr>mns_Conditions := t\<rparr>" and
          rest = "\<lambda>m v. mns_Ip m = ns_Ip v \<and> mns_VmStatus m = ns_VmStatus v \<and> mns_RayStatus m = ns_RayStatus v"])
     (auto simp: VMRayNodeStatus_DeepCopyInto_def VMRayNodeStatus_refs_def VMRayNodeStatus_repr_def split: prod.splits)

lemma VMRayClusterStatus_copier: "deep_copier (VMRayClusterStatus_DeepCopyInto lib) VMRayClusterStatus_refs VMRayClusterStatus_repr"
  by (rule struct_copier [OF both_copier [OF VMRayNodeStatus_copier
          both_copier [OF map_copier [where lib = lib, OF through_copier [OF VMRayNodeStatus_copier kinds_ok(20)] kinds_ok(6)]
            slice_copier [OF Condition_copier kinds_ok(2)]]],
        where get = "\<lambda>m. (mst_HeadNodeStatus m, mst_CurrentWorkers m, mst_Conditions m)" and
          vget = "\<lambda>v. (st_HeadNodeStatus v, st_CurrentWorkers v, st_Conditions v)" and
          put = "\<lambda>(hd, wk, cs) m. m\<lparr>mst_HeadNodeStatus := hd, mst_CurrentWorkers := wk, mst_Conditions := cs\<rparr>" and
          rest = "\<lambda>m v. mst_ClusterState m = st_ClusterState v \<and> mst_VMServiceStatus m = st_VMServiceStatus v"])
     (auto simp: both_defs VMRayClusterStatus_DeepCopyInto_def VMRayClusterStatus_refs_def VMRayClusterStatus_repr_def split: prod.splits)

lemma VMRayCluster_copier:
  "deep_copier (VMRayCluster_DeepCopyInto lib) (VMRayCluster_refs net_refs) (VMRayCluster_repr net_repr)"
  by (rule struct_copier [OF both_copier [OF ObjectMeta_copier both_copier [OF VMRayClusterSpec_copier VMRayClusterStatus_copier]],
        where get = "\<lambda>m. (mvc_ObjectMeta m, mvc_Spec m, mvc_Status m)" and
          vget = "\<lambda>v. (vc_ObjectMeta (snd v), vc_Spec (snd v), vc_Status (snd v))" and
          put = "\<lambda>(om, sp, st) m. m\<lparr>mvc_ObjectMeta := om, mvc_Spec := sp, mvc_Status := st\<rparr>" and
          rest = "\<lambda>m v. mvc_TypeMeta m = fst v"])
     (auto simp: both_defs VMRayCluster_DeepCopyInto_def VMRayCluster_refs_def VMRayCluster_repr_def split: prod.splits)

lemma VMRayClusterList_copier:
  "deep_copier (VMRayClusterList_DeepCopyInto lib) (VMRayClusterList_refs net_refs) (VMRayClusterList_repr net_repr)"
  by (rule struct_copier [OF both_copier [OF ListMeta_copier slice_copier [OF VMRayCluster_copier kinds_ok(3)]],
        where get = "\<lambda>m. (mvl_ListMeta m, mvl_Items m)" and vget = snd and
          put = "\<lambda>(lm, items) m. m\<lparr>mvl_ListMeta := lm, mvl_Items := items\<rparr>" and
          rest = "\<lambda>m v. mvl_TypeMeta m = fst v"])
     (auto simp: both_defs VMRayClusterList_DeepCopyInto_def VMRayClusterList_refs_def VMRayClusterList_repr_def split: prod.splits)

end

interpretation HeadNodeConfig: deep_copier HeadNodeConfig_DeepCopyInto HeadNodeConfig_refs HeadNodeConfig_repr
  by (rule HeadNodeConfig_copier)

interpretation WorkerNodeConfig: deep_copier WorkerNodeConfig_DeepCopyInto WorkerNodeConfig_refs WorkerNodeConfig_repr
  by (rule WorkerNodeConfig_copier)

text \<open>The structs without references are copied as values.\<close>

lemma value_structs:
  "ApiServerInfo_DeepCopyInto = copy_value" "DockerRegistryConfig_DeepCopyInto = copy_value"
  "NodeResource_DeepCopyInto = copy_value" "NodeType_DeepCopyInto = copy_value" "VMServiceStatus_DeepCopyInto = copy_value"
  by (simp_all add: fun_eq_iff copy_value_def ApiServerInfo_DeepCopyInto_def DockerRegistryConfig_DeepCopyInto_def
      NodeResource_DeepCopyInto_def NodeType_DeepCopyInto_def VMServiceStatus_DeepCopyInto_def)

section \<open>A library that copies deeply\<close>

text \<open>Copies of the metadata by the same means, and a network specification that is a string.\<close>

definition plain_ObjectMeta :: "mObjectMeta \<Rightarrow> 'n go_heap \<Rightarrow> mObjectMeta \<times> 'n go_heap" where
  "plain_ObjectMeta m h =
     (case copy_pointer stringmap_kind (copy_ranged (\<lambda>_. []) copy_value) (mom_Labels m) h of (labels, h1) \<Rightarrow>
      (case copy_strings (mom_Finalizers m) h1 of (fins, h2) \<Rightarrow>
      (case copy_pointer time_kind copy_value (mom_DeletionTimestamp m) h2 of (t, h3) \<Rightarrow>
        (m\<lparr>mom_Labels := labels, mom_Finalizers := fins, mom_DeletionTimestamp := t\<rparr>, h3))))"

definition plain_ListMeta :: "mListMeta \<Rightarrow> 'n go_heap \<Rightarrow> mListMeta \<times> 'n go_heap" where
  "plain_ListMeta m h =
     (case copy_pointer uint_kind copy_value (mlm_RemainingItemCount m) h of (n, h1) \<Rightarrow>
        (m\<lparr>mlm_RemainingItemCount := n\<rparr>, h1))"

definition plain_lib :: "string copy_lib" where
  "plain_lib = \<lparr>cl_Condition = copy_value, cl_ObjectMeta = plain_ObjectMeta, cl_ListMeta = plain_ListMeta,
     cl_Network = copy_value, cl_order = (\<lambda>_. [])\<rparr>"

lemma plain_ObjectMeta_copier: "deep_copier plain_ObjectMeta ObjectMeta_refs ObjectMeta_repr"
  by (rule struct_copier [OF both_copier [OF pointer_copier [OF entries_copier [OF value_copier, of "\<lambda>_. []"] kinds_ok(5)]
          both_copier [OF slice_copier [OF value_copier kinds_ok(1)] pointer_copier [OF value_copier kinds_ok(8)]]],
        where get = "\<lambda>m. (mom_Labels m, mom_Finalizers m, mom_DeletionTimestamp m)" and
          vget = "\<lambda>v. (om_Labels v, om_Finalizers v, om_DeletionTimestamp v)" and
          put = "\<lambda>(l, f, t) m. m\<lparr>mom_Labels := l, mom_Finalizers := f, mom_DeletionTimestamp := t\<rparr>" and
          rest = "\<lambda>m v. mom_Name m = om_Name v \<and> mom_Namespace m = om_Namespace v"])
     (auto simp: both_defs plain_ObjectMeta_def ObjectMeta_refs_def ObjectMeta_repr_def split: prod.splits)

lemma plain_ListMeta_copier: "deep_copier plain_ListMeta ListMeta_refs ListMeta_repr"
  by (rule struct_copier [OF pointer_copier [OF value_copier kinds_ok(7)],
        where get = mlm_RemainingItemCount and vget = "\<lambda>v. snd (snd v)" and
          put = "\<lambda>n m. m\<lparr>mlm_RemainingItemCount := n\<rparr>" and
          rest = "\<lambda>m v. mlm_ResourceVersion m = fst v \<and> mlm_Continue m = fst (snd v)"])
     (auto simp: plain_ListMeta_def ListMeta_refs_def ListMeta_repr_def split: prod.splits)

lemma plain_copy_library: "copy_library plain_lib value_refs value_repr"
  by (rule copy_library.intro) (simp_all add: plain_lib_def value_copier plain_ObjectMeta_copier plain_ListMeta_copier)

interpretation plain: copy_library plain_lib value_refs value_repr
  by (rule plain_copy_library)

section \<open>Properties\<close>

lemma DeepCopy_pointer_independent:
  assumes "deep_copier c r p" and "kind_ok k" and "wf_heap h" and "p h m v" and "DeepCopy_pointer k c (Some m) h = (ptr, h')"
  shows "\<exists>b m'. ptr = Some b \<and> hp_cells h b = None \<and> (\<forall>a<hp_next h. hp_cells h' a = hp_cells h a) \<and>
    (\<forall>h2. (\<forall>a. hp_next h \<le> a \<and> a < hp_next h' \<longrightarrow> hp_cells h2 a = hp_cells h' a) \<longrightarrow>
       hp_cells h2 b = Some (k_in k m') \<and> p h2 m' v)"
proof -
  obtain b where n: "copy_new k c m h = (b, h')" and ptr: "ptr = Some b"
    using assms(5) by (auto simp: DeepCopy_pointer_def split: prod.splits)
  have e: "extends h h'" "b = hp_next h" by (rule copy_new_run [OF assms(1,3) n]; simp)+
  obtain m' where m': "deref k h' b = Some m'" "p h' m' v" "\<forall>a\<in>r h' m'. hp_next h \<le> a"
    using copy_new_content [OF assms(1-4) n] by blast
  have cell: "hp_cells h' b = Some (k_in k m')" using m'(1) by (simp add: deref_Some [OF assms(2)])
  then have b: "b < hp_next h'" using e(1) by (auto simp: extends_def wf_heap_def)
  have "hp_cells h2 b = Some (k_in k m') \<and> p h2 m' v"
    if same: "\<forall>a. hp_next h \<le> a \<and> a < hp_next h' \<longrightarrow> hp_cells h2 a = hp_cells h' a" for h2
  proof
    show "hp_cells h2 b = Some (k_in k m')" using same b e(2) cell by simp
    show "p h2 m' v"
      using deep_copier.frame [OF assms(1) m'(2), of h2] same m'(3) deep_copier.refs_bound [OF assms(1) extends_wf [OF e(1)] m'(2)]
      by blast
  qed
  moreover have "hp_cells h b = None" using assms(3) e(2) by (auto simp: wf_heap_def)
  ultimately show ?thesis using ptr e(1) by (auto simp: extends_def)
qed

text \<open>
  C20: the copy the reconciler keeps of the fetched cluster is a cluster of its own. If the
  instance stands for a cluster, \<^verbatim>\<open>instance.DeepCopy()\<close> changes nothing that existed before, and
  its result stands for the same cluster for good: whatever is later written to any variable,
  array or map that existed before the call, the instance's included, or that is made after it.
\<close>

theorem VMRayCluster_DeepCopy_independent:
  assumes "copy_library lib net_refs net_repr" and "wf_heap h" and "VMRayCluster_repr net_repr h m (tm, c)"
    and "VMRayCluster_DeepCopy lib (Some m) h = (ptr, h')"
  shows "\<exists>b m'. ptr = Some b \<and> hp_cells h b = None \<and> (\<forall>a<hp_next h. hp_cells h' a = hp_cells h a) \<and>
    (\<forall>h2. (\<forall>a. hp_next h \<le> a \<and> a < hp_next h' \<longrightarrow> hp_cells h2 a = hp_cells h' a) \<longrightarrow>
       hp_cells h2 b = Some (VMRayClusterVar m') \<and> VMRayCluster_repr net_repr h2 m' (tm, c))"
  using DeepCopy_pointer_independent [OF copy_library.VMRayCluster_copier [OF assms(1)] kinds_ok(16) assms(2,3)] assms(4)
  by (simp add: VMRayCluster_DeepCopy_def VMRayCluster_kind_def)

text \<open>
  A cluster in memory: its conditions fill one of two places of their array, so that an append
  writes in place, and one worker is on record, with a condition.
\<close>

definition some_condition :: Condition where
  "some_condition = \<lparr>cond_Type = ''T'', cond_Status = ''False'', cond_LastTransitionTime = ''now'', cond_Reason = ''R'', cond_Message = ''m''\<rparr>"

definition mem_heap :: "string go_heap" where
  "mem_heap = \<lparr>hp_next = 4, hp_cells =
     [0 \<mapsto> ConditionArray [some_condition, some_condition\<lparr>cond_Message := ''''\<rparr>],
      1 \<mapsto> WorkerMap [(''w1'', \<lparr>mns_Ip = '''', mns_Conditions = Some \<lparr>sl_array = 2, sl_offset = 0, sl_len = 1, sl_cap = 1\<rparr>,
        mns_VmStatus = INITIALIZED, mns_RayStatus = ''''\<rparr>)],
      2 \<mapsto> ConditionArray [some_condition], 3 \<mapsto> StringArray [''pip install'']]\<rparr>"

definition mem_cluster :: mVMRayCluster where
  "mem_cluster = \<lparr>mvc_TypeMeta = \<lparr>tm_Kind = ''VMRayCluster'', tm_APIVersion = ''v1alpha1''\<rparr>,
     mvc_ObjectMeta = \<lparr>mom_Name = ''ray-1'', mom_Namespace = ''ns'', mom_Labels = None, mom_Finalizers = None, mom_DeletionTimestamp = None\<rparr>,
     mvc_Spec = \<lparr>mspec_Image = ''ray'', mspec_ApiServer = \<lparr>as_CaCert = '''', as_Location = ''''\<rparr>,
       mspec_HeadNode = \<lparr>mhn_SetupCommands = Some \<lparr>sl_array = 3, sl_offset = 0, sl_len = 1, sl_cap = 1\<rparr>, mhn_Port = None, mhn_NodeType = ''large''\<rparr>,
       mspec_WorkerNode = \<lparr>mwn_SetupCommands = None\<rparr>,
       mspec_NodeConfig = \<lparr>mnc_VMImage = ''vmi'', mnc_StorageClass = ''fast'', mnc_VMUser = ''ray'', mnc_VMPasswordSaltHash = '''',
         mnc_Network = None, mnc_NodeTypes = None, mnc_MaxWorkers = 3, mnc_IdleTimeoutMinutes = 5, mnc_SetupCommands = None,
         mnc_InitializationCommands = None\<rparr>,
       mspec_AutoscalerDesiredWorkers = None, mspec_EnableTLS = True, mspec_DockerConfig = \<lparr>dr_AuthSecretName = ''''\<rparr>\<rparr>,
     mvc_Status = \<lparr>mst_HeadNodeStatus = \<lparr>mns_Ip = '''', mns_Conditions = None, mns_VmStatus = EMPTY, mns_RayStatus = ''''\<rparr>,
       mst_CurrentWorkers = Some 1, mst_ClusterState = UNHEALTHY,
       mst_Conditions = Some \<lparr>sl_array = 0, sl_offset = 0, sl_len = 1, sl_cap = 2\<rparr>, mst_VMServiceStatus = \<lparr>svc_Ip = ''''\<rparr>\<rparr>\<rparr>"

definition val_cluster :: VMRayCluster where
  "val_cluster = \<lparr>vc_ObjectMeta = \<lparr>om_Name = ''ray-1'', om_Namespace = ''ns'', om_Labels = None, om_Finalizers = [], om_DeletionTimestamp = None\<rparr>,
     vc_Spec = \<lparr>spec_Image = ''ray'', spec_ApiServer = \<lparr>as_CaCert = '''', as_Location = ''''\<rparr>,
       spec_HeadNode = \<lparr>hn_SetupCommands = [''pip install''], hn_Port = None, hn_NodeType = ''large''\<rparr>,
       spec_WorkerNode = \<lparr>wn_SetupCommands = []\<rparr>,
       spec_NodeConfig = \<lparr>nc_VMImage = ''vmi'', nc_StorageClass = ''fast'', nc_VMUser = ''ray'', nc_VMPasswordSaltHash = '''',
         nc_Network = None, nc_NodeTypes = [], nc_MaxWorkers = 3, nc_IdleTimeoutMinutes = 5, nc_SetupCommands = [],
         nc_InitializationCommands = []\<rparr>,
       spec_AutoscalerDesiredWorkers = None, spec_EnableTLS = True, spec_DockerConfig = \<lparr>dr_AuthSecretName = ''''\<rparr>\<rparr>,
     vc_Status = \<lparr>st_HeadNodeStatus = zero_VMRayNodeStatus,
       st_CurrentWorkers = Some [(''w1'', \<lparr>ns_Ip = '''', ns_Conditions = [some_condition], ns_VmStatus = INITIALIZED, ns_RayStatus = ''''\<rparr>)],
       st_ClusterState = UNHEALTHY, st_Conditions = [some_condition], st_VMServiceStatus = \<lparr>svc_Ip = ''''\<rparr>\<rparr>\<rparr>"

lemmas repr_defs = VMRayCluster_repr_def ObjectMeta_repr_def VMRayClusterSpec_repr_def VMRayClusterStatus_repr_def
  VMRayNodeStatus_repr_def HeadNodeConfig_repr_def WorkerNodeConfig_repr_def CommonNodeConfig_repr_def
  slice_repr_def slice_ok_def slice_elems_def pointer_repr_def flat_repr_def entries_repr_def value_repr_def deref_def kind_defs

lemma mem_cluster_repr:
  "wf_heap mem_heap" "VMRayCluster_repr value_repr mem_heap mem_cluster (mvc_TypeMeta mem_cluster, val_cluster)"
  by (auto simp: wf_heap_def mem_heap_def split: if_splits)
     (simp add: repr_defs mem_heap_def mem_cluster_def val_cluster_def zero_VMRayNodeStatus_def gomap_wf_def)

theorem VMRayCluster_DeepCopy_independent_witness:
  "\<exists>b h' m'. VMRayCluster_DeepCopy plain_lib (Some mem_cluster) mem_heap = (Some b, h') \<and>
     VMRayCluster_repr value_repr (store_cell 1 (WorkerMap []) (store_cell 0 (ConditionArray []) h')) m'
       (mvc_TypeMeta mem_cluster, val_cluster)"
proof -
  obtain ptr h' where run: "VMRayCluster_DeepCopy plain_lib (Some mem_cluster) mem_heap = (ptr, h')" by fastforce
  have "hp_next mem_heap = 4" by (simp add: mem_heap_def)
  with VMRayCluster_DeepCopy_independent [OF plain_copy_library mem_cluster_repr run] run show ?thesis by fastforce
qed

text \<open>
  C40: \<^verbatim>\<open>DeepCopyObject\<close> of a list of clusters: a nil pointer gives the nil interface and nothing
  is allocated; otherwise the object is a new list whose items, at any length, stand for the same
  clusters on memory of their own.
\<close>

theorem VMRayClusterList_DeepCopyObject_result:
  assumes "copy_library lib net_refs net_repr" and "wf_heap h" and "VMRayClusterList_DeepCopyObject lib inn h = (obj, h')"
  shows "(inn = None \<longrightarrow> obj = None \<and> h' = h) \<and>
    (\<forall>m v. inn = Some m \<and> VMRayClusterList_repr net_repr h m v \<longrightarrow>
      (\<exists>b m'. obj = Some (VMRayClusterList_Object b) \<and> hp_cells h b = None \<and>
        (\<forall>a<hp_next h. hp_cells h' a = hp_cells h a) \<and>
        (\<forall>h2. (\<forall>a. hp_next h \<le> a \<and> a < hp_next h' \<longrightarrow> hp_cells h2 a = hp_cells h' a) \<longrightarrow>
           hp_cells h2 b = Some (VMRayClusterListVar m') \<and> VMRayClusterList_repr net_repr h2 m' v)))"
proof (intro conjI allI impI)
  assume "inn = None"
  with assms(3) show "obj = None" "h' = h"
    by (simp_all add: VMRayClusterList_DeepCopyObject_def VMRayClusterList_DeepCopy_def DeepCopy_pointer_def)
next
  fix m v assume m: "inn = Some m \<and> VMRayClusterList_repr net_repr h m v"
  obtain ptr h1 where run: "DeepCopy_pointer VMRayClusterList_kind (VMRayClusterList_DeepCopyInto lib) (Some m) h = (ptr, h1)"
    by fastforce
  note copy = DeepCopy_pointer_independent [OF copy_library.VMRayClusterList_copier [OF assms(1)] kinds_ok(17) assms(2) conjunct2 [OF m] run]
  have "h1 = h'" and "obj = map_option VMRayClusterList_Object ptr" using m run assms(3)
    by (auto simp: VMRayClusterList_DeepCopyObject_def VMRayClusterList_DeepCopy_def split: option.splits)
  with copy show "\<exists>b m'. obj = Some (VMRayClusterList_Object b) \<and> hp_cells h b = None \<and>
        (\<forall>a<hp_next h. hp_cells h' a = hp_cells h a) \<and>
        (\<forall>h2. (\<forall>a. hp_next h \<le> a \<and> a < hp_next h' \<longrightarrow> hp_cells h2 a = hp_cells h' a) \<longrightarrow>
           hp_cells h2 b = Some (VMRayClusterListVar m') \<and> VMRayClusterList_repr net_repr h2 m' v)"
    by (elim exE, intro exI conjI) (auto simp: VMRayClusterList_kind_def)
qed

text \<open>A list of the cluster above.\<close>

definition list_heap :: "string go_heap" where
  "list_heap = \<lparr>hp_next = 5, hp_cells = (hp_cells mem_heap)(4 \<mapsto> ClusterArray [mem_cluster])\<rparr>"

definition mem_list :: mVMRayClusterList where
  "mem_list = \<lparr>mvl_TypeMeta = \<lparr>tm_Kind = ''VMRayClusterList'', tm_APIVersion = ''v1alpha1''\<rparr>,
     mvl_ListMeta = \<lparr>mlm_ResourceVersion = ''7'', mlm_Continue = '''', mlm_RemainingItemCount = None\<rparr>,
     mvl_Items = Some \<lparr>sl_array = 4, sl_offset = 0, sl_len = 1, sl_cap = 1\<rparr>\<rparr>"

abbreviation val_list :: "TypeMeta \<times> (string \<times> string \<times> uint option) \<times> (TypeMeta \<times> VMRayCluster) list" where
  "val_list \<equiv> (mvl_TypeMeta mem_list, (''7'', '''', None), [(mvc_TypeMeta mem_cluster, val_cluster)])"

lemma mem_list_repr: "wf_heap list_heap" "VMRayClusterList_repr value_repr list_heap mem_list val_list"
proof -
  show wf: "wf_heap list_heap" using mem_cluster_repr(1) by (auto simp: wf_heap_def list_heap_def mem_heap_def split: if_splits)
  then have "extends mem_heap list_heap" by (simp add: extends_def list_heap_def mem_heap_def)
  then have "VMRayCluster_repr value_repr list_heap mem_cluster (mvc_TypeMeta mem_cluster, val_cluster)"
    using deep_copier.stable [OF plain.VMRayCluster_copier mem_cluster_repr] by simp
  then show "VMRayClusterList_repr value_repr list_heap mem_list val_list"
    by (simp add: VMRayClusterList_repr_def ListMeta_repr_def mem_list_def slice_repr_def slice_ok_def slice_elems_def
        pointer_repr_def deref_def clusters_kind_def) (simp add: list_heap_def)
qed

theorem VMRayClusterList_DeepCopyObject_result_witness:
  "VMRayClusterList_DeepCopyObject plain_lib None list_heap = (None, list_heap) \<and>
   (\<exists>b h' m'. VMRayClusterList_DeepCopyObject plain_lib (Some mem_list) list_heap = (Some (VMRayClusterList_Object b), h') \<and>
     VMRayClusterList_repr value_repr (store_cell 0 (ConditionArray []) h') m' val_list)"
proof
  obtain obj h' where run: "VMRayClusterList_DeepCopyObject plain_lib None list_heap = (obj, h')" by fastforce
  with VMRayClusterList_DeepCopyObject_result [OF plain_copy_library mem_list_repr(1) run]
  show "VMRayClusterList_DeepCopyObject plain_lib None list_heap = (None, list_heap)" by simp
next
  obtain obj h' where run: "VMRayClusterList_DeepCopyObject plain_lib (Some mem_list) list_heap = (obj, h')" by fastforce
  have "hp_next list_heap = 5" by (simp add: list_heap_def)
  with VMRayClusterList_DeepCopyObject_result [OF plain_copy_library mem_list_repr(1) run] mem_list_repr(2) run
  show "\<exists>b h' m'. VMRayClusterList_DeepCopyObject plain_lib (Some mem_list) list_heap = (Some (VMRayClusterList_Object b), h') \<and>
     VMRayClusterList_repr value_repr (store_cell 0 (ConditionArray []) h') m' val_list" by fastforce
qed

end
