(* ===== verification/Manager.thy ===== *)
theory Manager
  imports Vmop_Provider Controller
begin

text \<open>
  The start of the operator's process, \<^verbatim>\<open>cmd/main.go\<close>, with \<^verbatim>\<open>api/v1alpha1/groupversion_info.go\<close>
  and the two functions that register the reconciler and the webhook. The command line is read
  as Go's \<^verbatim>\<open>flag\<close> package reads it. The controller runtime is a parameter: its calls are
  recorded in the order in which they are made, each with the arguments that matter, and a
  function of the calls made so far decides whether a call fails.
\<close>

section \<open>Command-line flags\<close>

text \<open>
  \<^verbatim>\<open>flag.FlagSet\<close>: what is known of a name is whether it is a boolean flag and how it stores a
  value, which fails when the value cannot be parsed.
\<close>

record 's flag_def =
  fd_isBool :: bool
  fd_Set :: "string \<Rightarrow> 's \<Rightarrow> 's option"

datatype flag_error =
    BadSyntax string
  | NotDefined string
  | InvalidValue string string
  | NeedsArgument string

datatype 's parse_result = Parsed 's "string list" | HelpRequested | ParseError flag_error

text \<open>
  One argument after the other until the first that is no flag or the terminator \<^verbatim>\<open>--\<close>; a
  value follows after an equals sign or, for a flag that is not boolean, as the next argument.
\<close>

definition flag_name :: "string \<Rightarrow> string" where
  "flag_name a = (if a ! 1 = CHR ''-'' then drop 2 a else drop 1 a)"

abbreviation flag_key :: "string \<Rightarrow> string" where
  "flag_key name \<equiv> takeWhile (\<lambda>x. x \<noteq> CHR ''='') name"

datatype 's parse_step = Go_on 's "string list" | Stop "'s parse_result"

definition store_flag :: "'s flag_def \<Rightarrow> string \<Rightarrow> string \<Rightarrow> 's \<Rightarrow> string list \<Rightarrow> 's parse_step" where
  "store_flag fd key v s rest =
     (case fd_Set fd v s of None \<Rightarrow> Stop (ParseError (InvalidValue key v)) | Some s1 \<Rightarrow> Go_on s1 rest)"

definition parseOne :: "(string \<Rightarrow> 's flag_def option) \<Rightarrow> string \<Rightarrow> string list \<Rightarrow> 's \<Rightarrow> 's parse_step" where
  "parseOne known a args s =
     (if length a < 2 \<or> hd a \<noteq> CHR ''-'' then Stop (Parsed s (a # args))
      else if a = ''--'' then Stop (Parsed s args)
      else (let name = flag_name a; key = flag_key name; hasValue = (CHR ''='' \<in> set name) in
        if name = '''' \<or> hd name = CHR ''-'' \<or> hd name = CHR ''='' then Stop (ParseError (BadSyntax a))
        else (case known key of
             None \<Rightarrow> (if key = ''help'' \<or> key = ''h'' then Stop HelpRequested else Stop (ParseError (NotDefined key)))
           | Some fd \<Rightarrow>
               (if hasValue then store_flag fd key (drop (Suc (length key)) name) s args
                else if fd_isBool fd then store_flag fd key ''true'' s args
                else (case args of
                     [] \<Rightarrow> Stop (ParseError (NeedsArgument key))
                   | v # rest \<Rightarrow> store_flag fd key v s rest)))))"

text \<open>
  A step that goes on has stored a value under a name the argument spells, and has used up the
  argument and at most one more.
\<close>

lemma parseOne_go_on:
  assumes "parseOne known a args s = Go_on s' args'"
  shows "\<not> length a < 2 \<and> hd a = CHR ''-'' \<and> (args' = args \<or> args' = tl args) \<and>
    (\<exists>fd v. known (flag_key (flag_name a)) = Some fd \<and> fd_Set fd v s = Some s')"
  using assms by (auto simp: parseOne_def store_flag_def Let_def split: if_splits option.splits list.splits)

function parse_flags :: "(string \<Rightarrow> 's flag_def option) \<Rightarrow> string list \<Rightarrow> 's \<Rightarrow> 's parse_result" where
  "parse_flags known [] s = Parsed s []"
| "parse_flags known (a # args) s =
     (case parseOne known a args s of Stop res \<Rightarrow> res | Go_on s1 args1 \<Rightarrow> parse_flags known args1 s1)"
  by pat_completeness auto
termination
  by (relation "measure (\<lambda>(known, args, s). length args)") (auto dest: parseOne_go_on)

text \<open>\<^verbatim>\<open>strconv.ParseBool\<close>.\<close>

definition ParseBool :: "string \<Rightarrow> bool option" where
  "ParseBool s =
     (if s \<in> {''1'', ''t'', ''T'', ''TRUE'', ''true'', ''True''} then Some True
      else if s \<in> {''0'', ''f'', ''F'', ''FALSE'', ''false'', ''False''} then Some False
      else None)"

text \<open>\<^verbatim>\<open>flag.StringVar\<close> and \<^verbatim>\<open>flag.BoolVar\<close> for a variable with the given way to set it.\<close>

definition StringVar :: "(string \<Rightarrow> 's \<Rightarrow> 's) \<Rightarrow> 's flag_def" where
  "StringVar upd = \<lparr>fd_isBool = False, fd_Set = (\<lambda>v s. Some (upd v s))\<rparr>"

definition BoolVar :: "(bool \<Rightarrow> 's \<Rightarrow> 's) \<Rightarrow> 's flag_def" where
  "BoolVar upd = \<lparr>fd_isBool = True, fd_Set = (\<lambda>v s. map_option (\<lambda>b. upd b s) (ParseBool v))\<rparr>"

text \<open>
  The variables of \<^verbatim>\<open>main\<close>, and those of the flags that libraries add to the command line
  (logging, the path of a configuration).
\<close>

record 'z main_vars =
  metricsAddr :: string
  probeAddr :: string
  enableLeaderElection :: bool
  secureMetrics :: bool
  enableHTTP2 :: bool
  library_flags :: 'z

definition main_defaults :: "'z \<Rightarrow> 'z main_vars" where
  "main_defaults z = \<lparr>metricsAddr = '':8080'', probeAddr = '':8081'', enableLeaderElection = False,
     secureMetrics = False, enableHTTP2 = False, library_flags = z\<rparr>"

definition own_flags :: "(string \<times> 'z main_vars flag_def) list" where
  "own_flags =
     [(''metrics-bind-address'', StringVar (\<lambda>v s. s\<lparr>metricsAddr := v\<rparr>)),
      (''health-probe-bind-address'', StringVar (\<lambda>v s. s\<lparr>probeAddr := v\<rparr>)),
      (''leader-elect'', BoolVar (\<lambda>b s. s\<lparr>enableLeaderElection := b\<rparr>)),
      (''metrics-secure'', BoolVar (\<lambda>b s. s\<lparr>secureMetrics := b\<rparr>)),
      (''enable-http2'', BoolVar (\<lambda>b s. s\<lparr>enableHTTP2 := b\<rparr>))]"

definition library_flag :: "'z flag_def \<Rightarrow> 'z main_vars flag_def" where
  "library_flag fd = \<lparr>fd_isBool = fd_isBool fd,
     fd_Set = (\<lambda>v s. map_option (\<lambda>z. s\<lparr>library_flags := z\<rparr>) (fd_Set fd v (library_flags s)))\<rparr>"

definition main_flags :: "(string \<Rightarrow> 'z flag_def option) \<Rightarrow> string \<Rightarrow> 'z main_vars flag_def option" where
  "main_flags lib key =
     (case map_of own_flags key of Some fd \<Rightarrow> Some fd | None \<Rightarrow> map_option library_flag (lib key))"

text \<open>
  \<^verbatim>\<open>flag.Parse()\<close> ends the process with code 0 when help is asked for and with 2 on an error.
\<close>

definition flag_Parse :: "(string \<Rightarrow> 'z flag_def option) \<Rightarrow> 'z \<Rightarrow> string list \<Rightarrow> nat + 'z main_vars" where
  "flag_Parse lib z args =
     (case parse_flags (main_flags lib) args (main_defaults z) of
        Parsed fl rest \<Rightarrow> Inr fl
      | HelpRequested \<Rightarrow> Inl 0
      | ParseError e \<Rightarrow> Inl 2)"

section \<open>Calls of the controller runtime\<close>

record GroupVersion =
  gv_Group :: string
  gv_Version :: string

text \<open>
  The variables of \<^verbatim>\<open>groupversion_info.go\<close>. The builder collects the API's types, the \<^verbatim>\<open>init\<close> of
  \<^verbatim>\<open>vmraycluster_types.go\<close> gives it the cluster and the list of clusters, and \<^verbatim>\<open>AddToScheme\<close>
  registers them under the group and version.
\<close>

definition vmray_GroupVersion :: GroupVersion where
  "vmray_GroupVersion = \<lparr>gv_Group = ''vmray.broadcom.com'', gv_Version = ''v1alpha1''\<rparr>"

record scheme_Builder =
  sb_GroupVersion :: GroupVersion
  sb_types :: "string list"

definition Builder_Register :: "string list \<Rightarrow> scheme_Builder \<Rightarrow> scheme_Builder" where
  "Builder_Register objects b = b\<lparr>sb_types := sb_types b @ objects\<rparr>"

definition SchemeBuilder :: scheme_Builder where
  "SchemeBuilder = \<lparr>sb_GroupVersion = vmray_GroupVersion, sb_types = []\<rparr>"

definition registered_types :: scheme_Builder where
  "registered_types = Builder_Register [''VMRayCluster'', ''VMRayClusterList''] SchemeBuilder"

datatype scheme_part = ClientGoScheme | VMRayScheme scheme_Builder | VMOperatorScheme

definition AddToScheme :: scheme_part where
  "AddToScheme = VMRayScheme registered_types"

record tls_Config =
  tls_MinVersion :: nat
  tls_NextProtos :: "string list"

definition disableHTTP2 :: "tls_Config \<Rightarrow> tls_Config" where
  "disableHTTP2 c = c\<lparr>tls_NextProtos := [''http/1.1'']\<rparr>"

text \<open>What a server does with its options: all of them, one after the other.\<close>

definition apply_TLSOpts :: "(tls_Config \<Rightarrow> tls_Config) list \<Rightarrow> tls_Config \<Rightarrow> tls_Config" where
  "apply_TLSOpts opts c = foldl (\<lambda>c f. f c) c opts"

record ManagerOptions =
  mo_Scheme :: "scheme_part list"
  mo_MetricsBindAddress :: string
  mo_MetricsSecureServing :: bool
  mo_MetricsTLSOpts :: "(tls_Config \<Rightarrow> tls_Config) list"
  mo_WebhookTLSOpts :: "(tls_Config \<Rightarrow> tls_Config) list"
  mo_HealthProbeBindAddress :: string
  mo_LeaderElection :: bool
  mo_LeaderElectionID :: string

text \<open>A reconciler without its logger. The lifecycle manager holds the provider a second time.\<close>

record 'w VMRayClusterReconciler =
  rcl_Client :: "'w kube_client"
  rcl_Scheme :: "scheme_part list"
  rcl_provider :: "'w VmProvider"
  rcl_nlcm :: "'w NodeLifecycleManager"

definition NewVMRayClusterReconciler ::
  "'w kube_client \<Rightarrow> scheme_part list \<Rightarrow> 'w VmProvider \<Rightarrow> 'w VMRayClusterReconciler" where
  "NewVMRayClusterReconciler kc sch pvdr =
     \<lparr>rcl_Client = kc, rcl_Scheme = sch, rcl_provider = pvdr, rcl_nlcm = NewNodeLifecycleManager pvdr\<rparr>"

text \<open>
  The method \<^verbatim>\<open>Reconcile\<close> of a reconciler; the model of the reconciler has one provider, which is
  that of the reconciler and that of its lifecycle manager.
\<close>

definition reconciler_method ::
  "'w go_runtime \<Rightarrow> controllerutil \<Rightarrow> 'w VMRayClusterReconciler \<Rightarrow> string \<Rightarrow> string \<Rightarrow> 'w \<Rightarrow> ctrl_result outcome \<times> 'w" where
  "reconciler_method rt cu r = Reconcile rt (rcl_Client r) cu (rcl_provider r)"

datatype 'w manager_call =
    Scheme_Add scheme_part
  | GetConfigOrDie
  | NewManager ManagerOptions
  | Controller_Complete string "'w VMRayClusterReconciler"
  | Webhook_Complete string
  | AddHealthzCheck string
  | AddReadyzCheck string
  | Manager_Start

text \<open>
  The runtime's side: whether the next call fails, given the calls so far, and the client a
  manager hands out.
\<close>

record 'w ctrl_runtime =
  cr_answer :: "'w manager_call list \<Rightarrow> 'w manager_call \<Rightarrow> go_error option"
  cr_GetClient :: "ManagerOptions \<Rightarrow> 'w kube_client"

definition ctrl_call :: "'w ctrl_runtime \<Rightarrow> 'w manager_call \<Rightarrow> 'w manager_call list \<Rightarrow> go_error option \<times> 'w manager_call list" where
  "ctrl_call cr c tr = (cr_answer cr tr c, tr @ [c])"

text \<open>\<^verbatim>\<open>SetupWithManager\<close> of the reconciler and \<^verbatim>\<open>SetupWebhookWithManager\<close> of the cluster type.\<close>

definition SetupWithManager ::
  "'w ctrl_runtime \<Rightarrow> 'w VMRayClusterReconciler \<Rightarrow> 'w manager_call list \<Rightarrow> go_error option \<times> 'w manager_call list" where
  "SetupWithManager cr r tr = ctrl_call cr (Controller_Complete ''VMRayCluster'' r) tr"

definition SetupWebhookWithManager ::
  "'w ctrl_runtime \<Rightarrow> 'w manager_call list \<Rightarrow> go_error option \<times> 'w manager_call list" where
  "SetupWebhookWithManager cr tr = ctrl_call cr (Webhook_Complete ''VMRayCluster'') tr"

section \<open>The program\<close>

text \<open>
  \<^verbatim>\<open>init\<close>: \<^verbatim>\<open>utilruntime.Must\<close> panics on an error, which ends the process with code 2.
\<close>

definition init_scheme :: "'w ctrl_runtime \<Rightarrow> bool \<times> 'w manager_call list" where
  "init_scheme cr =
     (case ctrl_call cr (Scheme_Add ClientGoScheme) [] of
        (Some err, tr) \<Rightarrow> (False, tr)
      | (None, tr) \<Rightarrow>
     (case ctrl_call cr (Scheme_Add AddToScheme) tr of
        (Some err, tr) \<Rightarrow> (False, tr)
      | (None, tr) \<Rightarrow>
     (case ctrl_call cr (Scheme_Add VMOperatorScheme) tr of
        (Some err, tr) \<Rightarrow> (False, tr)
      | (None, tr) \<Rightarrow> (True, tr))))"

definition tlsOpts :: "bool \<Rightarrow> (tls_Config \<Rightarrow> tls_Config) list" where
  "tlsOpts http2 = (if \<not> http2 then [] @ [disableHTTP2] else [])"

definition manager_options :: "'z main_vars \<Rightarrow> ManagerOptions" where
  "manager_options fl =
     \<lparr>mo_Scheme = [ClientGoScheme, AddToScheme, VMOperatorScheme], mo_MetricsBindAddress = metricsAddr fl,
      mo_MetricsSecureServing = secureMetrics fl, mo_MetricsTLSOpts = tlsOpts (enableHTTP2 fl),
      mo_WebhookTLSOpts = tlsOpts (enableHTTP2 fl), mo_HealthProbeBindAddress = probeAddr fl,
      mo_LeaderElection = enableLeaderElection fl, mo_LeaderElectionID = ''062cf22e.broadcom.com''\<rparr>"

text \<open>
  \<^verbatim>\<open>main\<close> after the flags: the calls made and the exit code of the process.
\<close>

definition main_run ::
  "'w ctrl_runtime \<Rightarrow> 'w go_runtime \<Rightarrow> (RayBootstrapConfig \<Rightarrow> go_error + string) \<Rightarrow> 'z main_vars \<Rightarrow>
   'w manager_call list \<Rightarrow> 'w manager_call list \<times> nat" where
  "main_run cr rt yaml fl tr =
     (case ctrl_call cr GetConfigOrDie tr of
        (Some err, tr) \<Rightarrow> (tr, 1)
      | (None, tr) \<Rightarrow>
     (case ctrl_call cr (NewManager (manager_options fl)) tr of
        (Some err, tr) \<Rightarrow> (tr, 1)
      | (None, tr) \<Rightarrow>
     (let client = cr_GetClient cr (manager_options fl);
          clusterReconciler = NewVMRayClusterReconciler client (mo_Scheme (manager_options fl)) (NewVmOperatorProvider rt client yaml)
      in (case SetupWithManager cr clusterReconciler tr of
        (Some err, tr) \<Rightarrow> (tr, 1)
      | (None, tr) \<Rightarrow>
     (case SetupWebhookWithManager cr tr of
        (Some err, tr) \<Rightarrow> (tr, 1)
      | (None, tr) \<Rightarrow>
     (case ctrl_call cr (AddHealthzCheck ''healthz'') tr of
        (Some err, tr) \<Rightarrow> (tr, 1)
      | (None, tr) \<Rightarrow>
     (case ctrl_call cr (AddReadyzCheck ''readyz'') tr of
        (Some err, tr) \<Rightarrow> (tr, 1)
      | (None, tr) \<Rightarrow>
     (case ctrl_call cr Manager_Start tr of
        (Some err, tr) \<Rightarrow> (tr, 1)
      | (None, tr) \<Rightarrow> (tr, 0)))))))))"

definition manager_main ::
  "'w ctrl_runtime \<Rightarrow> 'w go_runtime \<Rightarrow> (RayBootstrapConfig \<Rightarrow> go_error + string) \<Rightarrow>
   (string \<Rightarrow> 'z flag_def option) \<Rightarrow> 'z \<Rightarrow> string list \<Rightarrow> 'w manager_call list \<times> nat" where
  "manager_main cr rt yaml lib z args =
     (case init_scheme cr of
        (False, tr) \<Rightarrow> (tr, 2)
      | (True, tr) \<Rightarrow>
          (case flag_Parse lib z args of
             Inl code \<Rightarrow> (tr, code)
           | Inr fl \<Rightarrow> main_run cr rt yaml fl tr))"

section \<open>The order of the start-up\<close>

text \<open>The specification: a fixed list of calls, made one after the other until one fails.\<close>

definition startup_calls ::
  "'w ctrl_runtime \<Rightarrow> 'w go_runtime \<Rightarrow> (RayBootstrapConfig \<Rightarrow> go_error + string) \<Rightarrow> 'z main_vars \<Rightarrow> 'w manager_call list" where
  "startup_calls cr rt yaml fl =
     (let client = cr_GetClient cr (manager_options fl) in
     [Scheme_Add ClientGoScheme, Scheme_Add AddToScheme, Scheme_Add VMOperatorScheme, GetConfigOrDie,
      NewManager (manager_options fl),
      Controller_Complete ''VMRayCluster'' (NewVMRayClusterReconciler client (mo_Scheme (manager_options fl)) (NewVmOperatorProvider rt client yaml)),
      Webhook_Complete ''VMRayCluster'', AddHealthzCheck ''healthz'', AddReadyzCheck ''readyz'', Manager_Start])"

fun run_until_error :: "('c list \<Rightarrow> 'c \<Rightarrow> go_error option) \<Rightarrow> 'c list \<Rightarrow> 'c list \<Rightarrow> 'c list \<times> bool" where
  "run_until_error ans [] tr = (tr, True)"
| "run_until_error ans (c # cs) tr =
     (case ans tr c of None \<Rightarrow> run_until_error ans cs (tr @ [c]) | Some e \<Rightarrow> (tr @ [c], False))"

lemma run_until_error_append:
  "run_until_error ans (cs @ ds) tr =
     (case run_until_error ans cs tr of (tr1, True) \<Rightarrow> run_until_error ans ds tr1 | (tr1, False) \<Rightarrow> (tr1, False))"
  by (induction cs arbitrary: tr) (auto split: option.splits)

lemma run_until_error_ok:
  "run_until_error ans cs tr = (tr', True) \<Longrightarrow>
   tr' = tr @ cs \<and> (\<forall>i<length cs. ans (tr @ take i cs) (cs ! i) = None)"
proof (induction cs arbitrary: tr)
  case (Cons c cs)
  then have c: "ans tr c = None" and r: "run_until_error ans cs (tr @ [c]) = (tr', True)" by (auto split: option.splits)
  from Cons.IH [OF r] have IH: "tr' = tr @ c # cs" "\<forall>i<length cs. ans (tr @ take (Suc i) (c # cs)) (cs ! i) = None" by simp_all
  have "ans (tr @ take i (c # cs)) ((c # cs) ! i) = None" if "i < length (c # cs)" for i
    using that c IH(2) by (cases i) auto
  with IH(1) show ?case by blast
qed simp

lemma run_until_error_fail:
  "run_until_error ans cs tr = (tr', False) \<Longrightarrow>
   \<exists>k<length cs. tr' = tr @ take (Suc k) cs \<and> (\<forall>i<k. ans (tr @ take i cs) (cs ! i) = None) \<and>
     ans (tr @ take k cs) (cs ! k) \<noteq> None"
proof (induction cs arbitrary: tr)
  case (Cons c cs)
  show ?case
  proof (cases "ans tr c")
    case None
    with Cons.prems have "run_until_error ans cs (tr @ [c]) = (tr', False)" by simp
    from Cons.IH [OF this] obtain k where k: "k < length cs" "tr' = tr @ take (Suc (Suc k)) (c # cs)"
      "\<forall>i<k. ans (tr @ take (Suc i) (c # cs)) (cs ! i) = None" "ans (tr @ take (Suc k) (c # cs)) (cs ! k) \<noteq> None" by auto
    have "ans (tr @ take i (c # cs)) ((c # cs) ! i) = None" if "i < Suc k" for i
      using that None k(3) by (cases i) auto
    with k show ?thesis by (intro exI [of _ "Suc k"]) simp
  qed (use Cons.prems in \<open>auto intro!: exI [of _ 0]\<close>)
qed simp

lemma init_scheme_run:
  "init_scheme cr = (case run_until_error (cr_answer cr)
     [Scheme_Add ClientGoScheme, Scheme_Add AddToScheme, Scheme_Add VMOperatorScheme] [] of (tr, ok) \<Rightarrow> (ok, tr))"
  by (simp add: init_scheme_def ctrl_call_def split: option.splits)

lemma main_run_run:
  "main_run cr rt yaml fl tr = (case run_until_error (cr_answer cr) (drop 3 (startup_calls cr rt yaml fl)) tr of
     (tr', ok) \<Rightarrow> (tr', if ok then 0 else 1))"
  by (simp add: main_run_def startup_calls_def Let_def ctrl_call_def SetupWithManager_def SetupWebhookWithManager_def
      split: option.splits)

lemma run_split:
  "run_until_error ans cs tr = (case run_until_error ans (take n cs) tr of
     (tr1, True) \<Rightarrow> run_until_error ans (drop n cs) tr1 | (tr1, False) \<Rightarrow> (tr1, False))"
  using run_until_error_append [of ans "take n cs" "drop n cs" tr] by simp

lemma startup_calls_length [simp]: "length (startup_calls cr rt yaml fl) = 10"
  by (simp add: startup_calls_def Let_def)

lemma startup_calls_scheme:
  "take 3 (startup_calls cr rt yaml fl) = [Scheme_Add ClientGoScheme, Scheme_Add AddToScheme, Scheme_Add VMOperatorScheme]"
  by (simp add: startup_calls_def Let_def)

text \<open>The whole program, when the command line is accepted.\<close>

lemma manager_main_run:
  assumes "flag_Parse lib z args = Inr fl"
  shows "manager_main cr rt yaml lib z args =
    (case run_until_error (cr_answer cr) (startup_calls cr rt yaml fl) [] of
       (tr, ok) \<Rightarrow> (tr, if ok then 0 else if length tr \<le> 3 then 2 else 1))"
proof -
  let ?cs = "startup_calls cr rt yaml fl"
  obtain tr ok where 1: "run_until_error (cr_answer cr) (take 3 ?cs) [] = (tr, ok)" by fastforce
  note i = init_scheme_run [of cr, folded startup_calls_scheme [of cr rt yaml fl], unfolded 1]
  show ?thesis
  proof (cases ok)
    case True
    with run_until_error_ok 1 have "length tr = 3" by fastforce
    obtain tr2 ok2 where 2: "run_until_error (cr_answer cr) (drop 3 ?cs) tr = (tr2, ok2)" by fastforce
    have "3 < length tr2" if "\<not> ok2"
      using run_until_error_fail [of "cr_answer cr" "drop 3 ?cs" tr tr2] 2 that \<open>length tr = 3\<close> by auto
    then show ?thesis using True i 1 2 assms
      by (cases ok2) (simp_all add: manager_main_def main_run_run run_split [of _ ?cs _ 3])
  next
    case False
    with run_until_error_fail 1 have "length tr \<le> 3" by fastforce
    with False i 1 show ?thesis by (simp add: manager_main_def run_split [of _ ?cs _ 3])
  qed
qed

lemma startup_run:
  assumes "manager_main cr rt yaml lib z args = (calls, code)" and "flag_Parse lib z args = Inr fl"
  shows "\<exists>n<10. calls = take (Suc n) (startup_calls cr rt yaml fl) \<and>
    (\<forall>i<n. cr_answer cr (take i calls) (calls ! i) = None) \<and>
    (if cr_answer cr (take n calls) (calls ! n) = None then n = 9 \<and> code = 0 else code = (if n < 3 then 2 else 1))"
proof -
  let ?cs = "startup_calls cr rt yaml fl"
  obtain tr ok where run: "run_until_error (cr_answer cr) ?cs [] = (tr, ok)" by fastforce
  with assms(1) manager_main_run [OF assms(2), of cr rt yaml]
  have eq: "calls = tr" "code = (if ok then 0 else if length tr \<le> 3 then 2 else 1)" by simp_all
  show ?thesis
  proof (cases ok)
    case True
    from run_until_error_ok [OF run [unfolded eqTrueI [OF True]]]
    have "tr = ?cs" "\<forall>i<10. cr_answer cr (take i ?cs) (?cs ! i) = None" by simp_all
    with True eq show ?thesis by (intro exI [of _ 9]) simp
  next
    case False
    then have "ok = False" by simp
    from run_until_error_fail [OF run [unfolded this]] obtain k where k: "k < 10" "tr = take (Suc k) ?cs"
      "\<forall>i<k. cr_answer cr (take i ?cs) (?cs ! i) = None" "cr_answer cr (take k ?cs) (?cs ! k) \<noteq> None"
      by (auto simp del: take_Suc)
    have len: "length calls = Suc k" using k(1,2) eq(1) by simp
    have same: "take i calls = take i ?cs" "calls ! i = ?cs ! i" if "i \<le> k" for i
      using that by (simp_all add: eq(1) k(2) min_def)
    show ?thesis
    proof (intro exI [of _ k] conjI k(1))
      show "calls = take (Suc k) ?cs" using eq(1) k(2) by simp
      show "\<forall>i<k. cr_answer cr (take i calls) (calls ! i) = None" using k(3) same by simp
      have "code = (if k < 3 then 2 else 1)" using eq len False by simp
      then show "if cr_answer cr (take k calls) (calls ! k) = None then k = 9 \<and> code = 0 else code = (if k < 3 then 2 else 1)"
        using k(4) same by simp
    qed
  qed
qed

lemma registered_reconciler:
  assumes "Controller_Complete kind r \<in> set (startup_calls cr rt yaml fl)"
  shows "kind = ''VMRayCluster'' \<and> nlm_pvdr (rcl_nlcm r) = rcl_provider r \<and>
    (let client = cr_GetClient cr (manager_options fl) in
      reconciler_method rt cu r = Reconcile rt client cu (NewVmOperatorProvider rt client yaml))"
  using assms
  by (simp add: startup_calls_def Let_def reconciler_method_def NewVMRayClusterReconciler_def NewNodeLifecycleManager_def)

text \<open>
  C21: the start-up is exactly this sequence: the three schemes, the configuration, the manager,
  the controller of the cluster type, the webhook, the two probes, the start. Each call is made
  only when all before it have succeeded; the process ends with 2 when a scheme is refused, with
  1 when any later call fails, and with 0 when the manager has run and stopped without an error.
  The controller that is registered runs the reconciler over the VM operator provider, both on
  the manager's own client, and its lifecycle manager drives the same provider.
\<close>

theorem startup_exact:
  assumes "manager_main cr rt yaml lib z args = (calls, code)" and "flag_Parse lib z args = Inr fl"
  shows "(\<exists>n<10. calls = take (Suc n) (startup_calls cr rt yaml fl) \<and>
      (\<forall>i<n. cr_answer cr (take i calls) (calls ! i) = None) \<and>
      (if cr_answer cr (take n calls) (calls ! n) = None then n = 9 \<and> code = 0 else code = (if n < 3 then 2 else 1))) \<and>
    (\<forall>kind r. Controller_Complete kind r \<in> set calls \<longrightarrow> kind = ''VMRayCluster'' \<and>
      nlm_pvdr (rcl_nlcm r) = rcl_provider r \<and> (let client = cr_GetClient cr (manager_options fl) in
        reconciler_method rt cu r = Reconcile rt client cu (NewVmOperatorProvider rt client yaml)))"
proof -
  note run = startup_run [OF assms]
  then have "set calls \<subseteq> set (startup_calls cr rt yaml fl)" by (auto dest: in_set_takeD)
  with run registered_reconciler [of _ _ cr rt yaml fl cu] show ?thesis by blast
qed

text \<open>A runtime in which nothing fails, and the arguments of \<^verbatim>\<open>config/default/manager_auth_proxy_patch.yaml\<close>.\<close>

definition ok_runtime :: "mem_world ctrl_runtime" where
  "ok_runtime = \<lparr>cr_answer = (\<lambda>tr c. None), cr_GetClient = (\<lambda>opts. mem_client)\<rparr>"

definition proxy_args :: "string list" where
  "proxy_args = [''--health-probe-bind-address=:8081'', ''--metrics-bind-address=127.0.0.1:8080'', ''--leader-elect'']"

definition proxy_vars :: "unit main_vars" where
  "proxy_vars = \<lparr>metricsAddr = ''127.0.0.1:8080'', probeAddr = '':8081'', enableLeaderElection = True,
     secureMetrics = False, enableHTTP2 = False, library_flags = ()\<rparr>"

lemma proxy_args_parsed: "flag_Parse (\<lambda>_. None) () proxy_args = Inr proxy_vars"
  by (simp add: flag_Parse_def proxy_args_def proxy_vars_def flag_name_def Let_def main_flags_def own_flags_def
      parseOne_def store_flag_def StringVar_def BoolVar_def ParseBool_def main_defaults_def)

theorem startup_exact_witness:
  "\<exists>calls code n. manager_main ok_runtime mem_runtime mem_yaml (\<lambda>_. None) () proxy_args = (calls, code) \<and>
     calls = take (Suc n) (startup_calls ok_runtime mem_runtime mem_yaml proxy_vars) \<and> n = 9 \<and> code = 0"
proof -
  obtain calls code where run: "manager_main ok_runtime mem_runtime mem_yaml (\<lambda>_. None) () proxy_args = (calls, code)" by fastforce
  from startup_exact [OF run proxy_args_parsed] run show ?thesis by (auto simp: ok_runtime_def)
qed

section \<open>HTTP/2\<close>

lemma flag_name_prefix:
  assumes "\<not> length a < 2" and "hd a = CHR ''-''"
  shows "prefix (CHR ''-'' # flag_key (flag_name a)) a \<or> prefix (CHR ''-'' # CHR ''-'' # flag_key (flag_name a)) a"
proof -
  obtain y b where a: "a = CHR ''-'' # y # b" using assms by (cases a; cases "tl a") auto
  have "prefix (flag_key n) n" for n by (simp add: takeWhile_is_prefix)
  then show ?thesis by (auto simp: a flag_name_def)
qed

abbreviation http2_argument :: "string \<Rightarrow> bool" where
  "http2_argument a \<equiv> prefix ''-enable-http2'' a \<or> prefix ''--enable-http2'' a"

lemma set_keeps_http2:
  assumes "main_flags lib key = Some fd" and "key \<noteq> ''enable-http2''" and "fd_Set fd v s = Some s'"
  shows "enableHTTP2 s' = enableHTTP2 s"
  using assms by (auto simp: main_flags_def own_flags_def StringVar_def BoolVar_def library_flag_def split: if_splits)

lemma parse_keeps_http2:
  assumes "parse_flags (main_flags lib) args s = Parsed fl rest" and "\<forall>a\<in>set args. \<not> http2_argument a"
  shows "enableHTTP2 fl = enableHTTP2 s"
  using assms
proof (induction "main_flags lib" args s rule: parse_flags.induct)
  case (2 a args s)
  show ?case
  proof (cases "parseOne (main_flags lib) a args s")
    case (Go_on s1 args1)
    from parseOne_go_on [OF Go_on] obtain fd v where a: "\<not> length a < 2" "hd a = CHR ''-''" "args1 = args \<or> args1 = tl args"
      and fd: "main_flags lib (flag_key (flag_name a)) = Some fd" "fd_Set fd v s = Some s1" by blast
    have "flag_key (flag_name a) \<noteq> ''enable-http2''" using flag_name_prefix [OF a(1,2)] "2.prems"(2) by auto
    then have "enableHTTP2 s1 = enableHTTP2 s" by (rule set_keeps_http2 [OF fd(1) _ fd(2)])
    moreover have "\<forall>b\<in>set args1. \<not> http2_argument b" using a(3) "2.prems"(2) by (cases args) auto
    ultimately show ?thesis using "2.hyps" [OF Go_on] "2.prems"(1) Go_on by simp
  next
    case (Stop res)
    with "2.prems"(1) have "res = Parsed fl rest" by simp
    with Stop have "fl = s" by (auto simp: parseOne_def store_flag_def Let_def split: if_splits option.splits list.splits)
    then show ?thesis by simp
  qed
qed simp

text \<open>
  C22: HTTP/2 is off unless it is asked for. Whatever else is on the command line, when no argument
  starts with \<^verbatim>\<open>-enable-http2\<close> or \<^verbatim>\<open>--enable-http2\<close>, a manager is created only with options under
  which both its servers, for the webhook and for the metrics, offer HTTP/1.1 alone; and with
  the flag set their configurations are left as they are.
\<close>

theorem http2_off_by_default:
  assumes "manager_main cr rt yaml lib z args = (calls, code)" and "NewManager opts \<in> set calls"
  shows "\<exists>fl. flag_Parse lib z args = Inr fl \<and>
    ((\<forall>a\<in>set args. \<not> prefix ''-enable-http2'' a \<and> \<not> prefix ''--enable-http2'' a) \<longrightarrow> \<not> enableHTTP2 fl) \<and>
    (\<forall>c. apply_TLSOpts (mo_WebhookTLSOpts opts) c = (if enableHTTP2 fl then c else c\<lparr>tls_NextProtos := [''http/1.1'']\<rparr>) \<and>
       apply_TLSOpts (mo_MetricsTLSOpts opts) c = (if enableHTTP2 fl then c else c\<lparr>tls_NextProtos := [''http/1.1'']\<rparr>))"
proof (cases "flag_Parse lib z args")
  case (Inr fl)
  from startup_run [OF assms(1) Inr] assms(2) have "NewManager opts \<in> set (startup_calls cr rt yaml fl)"
    by (auto dest: in_set_takeD)
  then have "opts = manager_options fl" by (simp add: startup_calls_def Let_def)
  moreover have "\<not> enableHTTP2 fl" if "\<forall>a\<in>set args. \<not> http2_argument a"
    using Inr parse_keeps_http2 [of lib args "main_defaults z" fl] that
    by (auto simp: flag_Parse_def main_defaults_def split: parse_result.splits)
  ultimately show ?thesis using Inr by (auto simp: manager_options_def tlsOpts_def apply_TLSOpts_def disableHTTP2_def)
next
  case (Inl c)
  with assms have "\<exists>tr. init_scheme cr = (True, tr) \<and> NewManager opts \<in> set tr \<or> init_scheme cr = (False, tr) \<and> NewManager opts \<in> set tr"
    by (auto simp: manager_main_def split: prod.splits bool.splits)
  then show ?thesis by (auto simp: init_scheme_def ctrl_call_def split: option.splits)
qed

theorem http2_off_by_default_witness:
  "\<exists>calls code. manager_main ok_runtime mem_runtime mem_yaml (\<lambda>_. None) () proxy_args = (calls, code) \<and>
     NewManager (manager_options proxy_vars) \<in> set calls \<and>
     apply_TLSOpts (mo_WebhookTLSOpts (manager_options proxy_vars)) \<lparr>tls_MinVersion = 12, tls_NextProtos = [''h2'']\<rparr> =
       \<lparr>tls_MinVersion = 12, tls_NextProtos = [''http/1.1'']\<rparr>"
proof -
  have run: "manager_main ok_runtime mem_runtime mem_yaml (\<lambda>_. None) () proxy_args =
      (startup_calls ok_runtime mem_runtime mem_yaml proxy_vars, 0)"
    unfolding manager_main_run [OF proxy_args_parsed] by (simp add: ok_runtime_def startup_calls_def Let_def)
  have new: "NewManager (manager_options proxy_vars) \<in> set (startup_calls ok_runtime mem_runtime mem_yaml proxy_vars)"
    by (simp add: startup_calls_def Let_def)
  have "\<forall>a\<in>set proxy_args. \<not> prefix ''-enable-http2'' a \<and> \<not> prefix ''--enable-http2'' a" by (simp add: proxy_args_def)
  with http2_off_by_default [OF run new] run new show ?thesis by auto
qed

end
