(* ===== verification/Spec2Isabelle.thy ===== *)
theory Spec2Isabelle
  imports Cluster_Up Copyrights Deep_Copy Manager
begin

text \<open>
  Verification of the VMRay cluster operator, a Kubernetes operator in Go that runs Ray
  clusters on virtual machines of the VM operator. Paths below are relative to
  \<^verbatim>\<open>src/vmray-cluster-operator\<close> unless they start with \<^verbatim>\<open>src\<close>.

  \<^bold>\<open>The program.\<close> A user submits a \<^verbatim>\<open>VMRayCluster\<close> resource. An admission webhook checks it.
  The reconciler is called for the resource again and again; each call reads it, gives it a
  finalizer and a nounce, makes a root certificate, checks that the image, the storage class
  and the VM classes exist, moves the head node one step on, and, once Ray runs on the head,
  the workers, and writes the observed status back. The steps of one node are those of the
  node lifecycle manager. It drives machines through a provider interface; the real provider
  creates secrets with cloud-init configurations, a service account with a role, a VM
  service and the machines through the Kubernetes API. When deletion is asked for, the
  reconciler deletes all of it and takes the finalizer off. A separate small program checks
  copyright headers before a commit.

  \<^bold>\<open>Theories and code.\<close>
  \<^item> \<^verbatim>\<open>VMRay_Prelude\<close>: Go's errors, maps with their unspecified order of iteration
    (\<^const>\<open>go_range\<close>, an order chosen by a list of numbers, every order being reachable),
    calls that may panic, decimal printing, lines.
  \<^item> \<^verbatim>\<open>Api_Types\<close>: \<^verbatim>\<open>api/v1alpha1/vmraycluster_types.go\<close>, one record per struct.
  \<^item> \<^verbatim>\<open>Go_Runtime\<close> and \<^verbatim>\<open>Kube_Client\<close>: the parameters. The Go runtime (iteration order, random
    numbers, clock, crypto) and the Kubernetes client are records of functions over a world;
    what the operator relies on are the laws of the locales \<^verbatim>\<open>resource_store\<close>, \<^verbatim>\<open>kube_api\<close> and
    \<^verbatim>\<open>operator_env\<close> (an answer is about the stored objects, a failed call changes at most the
    object it names, calls of the runtime change nothing on the server), and, where a
    theorem says that something succeeds, those of \<^verbatim>\<open>reliable_env\<close>. An in-memory server and
    runtime interpret all of them; witnesses run on it. The laws describe a server nobody
    else writes to during a call of the reconciler. A write decodes its answer into the object
    that was sent, as \<^verbatim>\<open>encoding/json\<close> does: \<^const>\<open>decode_status\<close> keeps what the object held in
    fields that are absent from the answer.
  \<^item> \<^verbatim>\<open>Vm_Provider\<close>: \<^verbatim>\<open>pkg/provider/vm.go\<close>; the interface as a record of methods and its
    contract as the locale \<^verbatim>\<open>vm_provider\<close> over the set of live machines.
  \<^item> \<^verbatim>\<open>Mock_Provider\<close>: \<^verbatim>\<open>pkg/provider/mock/mock_vmprovider.go\<close>; its world is the mock itself.
  \<^item> \<^verbatim>\<open>Node_Lcm\<close>: \<^verbatim>\<open>internal/controller/lcm/node_lcm.go\<close>; one definition per state of
    \<^const>\<open>ProcessNodeVmState\<close>, and the state machine \<^const>\<open>lcm_step\<close> as its specification.
  \<^item> \<^verbatim>\<open>Tls_Utils\<close>: \<^verbatim>\<open>pkg/provider/vmop/tls/tls_utils.go\<close>.
  \<^item> \<^verbatim>\<open>Yaml_Text\<close>: the part of YAML 1.2 the templates write, as a specification to read them
    with: plain and single-quoted scalars of one line, and literal blocks, whose indentation is
    that of the first line that is not blank and whose final line breaks are clipped to one.
  \<^item> \<^verbatim>\<open>Cloud_Init\<close>: \<^verbatim>\<open>pkg/provider/vmop/cloudinit\<close> and \<^verbatim>\<open>constants\<close>; the templates are
    rendered line by line, and the list of files is read back by \<^const>\<open>read_write_files\<close>.
  \<^item> \<^verbatim>\<open>Vmop_Utils\<close>: \<^verbatim>\<open>pkg/provider/vmop/utils\<close>; secrets, SSH key, service account, role,
    token, registry login.
  \<^item> \<^verbatim>\<open>Vmop_Provider\<close>: \<^verbatim>\<open>pkg/provider/vmop/vmop_provider.go\<close> and \<^verbatim>\<open>translator\<close>; a
    \<^verbatim>\<open>sublocale\<close> shows that the provider keeps the contract \<^verbatim>\<open>vm_provider\<close>.
  \<^item> \<^verbatim>\<open>Regex\<close> and \<^verbatim>\<open>Webhook\<close>: \<^verbatim>\<open>api/v1alpha1/vmraycluster_webhook.go\<close>; the two patterns of the file
    on a matcher by derivatives with its language semantics.
  \<^item> \<^verbatim>\<open>Controller\<close>: \<^verbatim>\<open>internal/controller/vmraycluster_controller.go\<close> and
    \<^verbatim>\<open>vmraycluster_controller_utils.go\<close>; the Go code changes the fetched instance in place, the
    model returns it. \<^verbatim>\<open>Controller_Env\<close>: what the reconciler does to machines and stored
    clusters, in the locale \<^verbatim>\<open>controller_env\<close> that joins server, runtime, provider and
    finalizer helpers.
  \<^item> \<^verbatim>\<open>Operator_System\<close>: the reconciler with the VM operator provider and the webhook, in runs
    (\<^const>\<open>operator_step\<close>, \<^const>\<open>operator_reachable\<close>) with users and failing machines.
  \<^item> \<^verbatim>\<open>Vmop_Live\<close> and \<^verbatim>\<open>Cluster_Up\<close>: nothing new of the code, but how far a node
    (\<^const>\<open>node_distance\<close>) and a cluster (\<^const>\<open>cluster_distance\<close>) are from running, and rounds in
    which the VM operator reports addresses (\<^const>\<open>vmop_reports\<close>) and the reconciler is called
    (\<^const>\<open>operator_round\<close>), in the locale \<^verbatim>\<open>working_env\<close> of an environment without faults.
  \<^item> \<^verbatim>\<open>Deep_Copy\<close>: \<^verbatim>\<open>api/v1alpha1/zz_generated.deepcopy.go\<close>, over a heap of slices, maps and
    structs at addresses; the locale \<^verbatim>\<open>deep_copier\<close> is the contract of a deep copy, the relations
    \<^verbatim>\<open>_repr\<close> connect structs in memory with the records of \<^verbatim>\<open>Api_Types\<close>. This is what
    entitles the other theories to treat clusters as values.
  \<^item> \<^verbatim>\<open>Manager\<close>: \<^verbatim>\<open>cmd/main.go\<close> with \<^verbatim>\<open>groupversion_info.go\<close> and the functions that register the
    reconciler and the webhook; the calls of the controller runtime are recorded in a list.
  \<^item> \<^verbatim>\<open>Copyrights\<close>: \<^verbatim>\<open>src/ci/pre-commit-hook/copyrights.go\<close>, with \<^verbatim>\<open>filepath.Walk\<close> over a directory
    tree and \<^verbatim>\<open>filepath.Join\<close>, which cleans paths.

  \<^bold>\<open>What is shown.\<close>
  \<^item> The system: no machine is leaked unless a call fails after deploying one, the stored clusters are
    admissible and their records sound, the finalizer goes only when everything is gone,
    deletion completes on a server without faults, no call panics.
  \<^item> Progress: without faults every call brings a cluster that can be deployed closer to running,
    from any recorded status and whichever of its machines exist; it is up after at most eight
    calls and five more per desired worker. The bound is a calculation, not fuel: a head is at
    most six and a worker at most five calls away, one call adds the finalizer, one reports.
  \<^item> One reconciliation: workers converge to the desired ones and wait for the head, the
    validation is exact, finalizer and nounce come first, the reported health is consistent.
  \<^item> A node: the manager refines the state machine and realises all of it, Ray is recorded as
    running only on a running machine, every node comes up with a working provider.
  \<^item> The provider: its contract, what a deployment and a deletion leave, the head's service.
  \<^item> Configurations: a YAML reader finds the intended files in the rendered configuration, up to
    one line break at their ends, the boot secret carries the cluster's SSH key, workers do not
    depend on the token, ports agree.
  \<^item> The webhook: exactly what it accepts, the bound on workers and where it wraps around.
  \<^item> Memory: a deep copy is equal to its original and shares nothing mutable with it, so that
    later changes of either are not seen by the other.
  \<^item> Start-up: the exact sequence of registrations, what a failure of each leads to, the
    reconciler that is registered; HTTP/2 stays off unless the command line asks for it.
  \<^item> The copyright check: its verdict, and the two characters it loses.

  \<^bold>\<open>Integers, loops, errors.\<close> \<^verbatim>\<open>uint\<close> is a 64-bit and \<^verbatim>\<open>int32\<close> a 32-bit word; sums wrap and
  conversions truncate as in Go. All loops of the code range over finite collections and are
  structural recursions; no fuel is needed. Errors are values of \<^typ>\<open>go_error\<close>, panics are the
  constructor \<^const>\<open>Panics\<close> of \<^typ>\<open>'a outcome\<close>.

  \<^bold>\<open>Not modelled.\<close> Logging and contexts. What the controller runtime does with a registered
  reconciler (queues, retries, leader election), the copies of the types of other packages
  inside a cluster (object metadata, conditions, the network of a machine), the flags that
  libraries add, YAML serialisation of the bootstrap configuration, the pattern for docker
  references, PEM and X.509 encoding, \<^verbatim>\<open>go/parser\<close> and the helpers for finalizers are
  parameters. Other writers of the same resource during one call of the reconciler are left out.
\<close>

end
